theory Spec2Isabelle
  imports Complex_Main
begin

section \<open>Plane-frame solver: data model\<close>

text \<open>
  The development embeds the class \<^verbatim>\<open>StructuralSolver\<close> (direct stiffness method for plane
  frames) and the types it works on. JavaScript numbers are modelled as real numbers, so
  every statement below is one of exact arithmetic: rounding, overflow, infinities and NaN
  are outside the model. Theorems that read a quotient assume that its denominator is not
  zero. The matrix library (mathjs) is not part of the program: its matrices are modelled
  as lists of rows (dense literals) or as functions from indices to entries (matrices that
  the program reads and writes through \<^verbatim>\<open>get\<close> and \<^verbatim>\<open>set\<close>), its products and sums as the
  mathematical ones, and its inversion routine \<^verbatim>\<open>math.inv\<close> is a parameter of \<open>solve\<close>.
\<close>

record Node =
  node_id :: string
  node_x :: real
  node_y :: real

datatype SupportType = Pin | FixedSupport | Roller

record Support =
  support_id :: string
  support_nodeId :: string
  support_type :: SupportType
  support_angle :: real

datatype MemberRelease = FixedRelease | Pinned

record Properties =
  prop_E :: real
  prop_I :: real
  prop_A :: real

record Member =
  member_id :: string
  startNodeId :: string
  endNodeId :: string
  startRelease :: MemberRelease
  endRelease :: MemberRelease
  properties :: Properties

datatype LoadType = Point

record Load =
  load_id :: string
  memberId :: string
  load_type :: LoadType
  magnitude :: real
  position :: real

record NodeDisplacement =
  disp_dx :: real
  disp_dy :: real
  disp_rotation :: real

record MemberForces =
  axial :: real
  shearStart :: real
  shearEnd :: real
  momentStart :: real
  momentEnd :: real

record Diagram =
  diagram_x :: "real list"
  shear :: "real list"
  moment :: "real list"
  displacement :: "real list"

record Reaction =
  Fx :: real
  Fy :: real
  Mz :: real

text \<open>
  The object returned by \<^verbatim>\<open>solve\<close>. Its tables are JavaScript objects keyed by identity,
  modelled as maps. A property that the returned object does not have at all is \<open>None\<close>;
  only \<open>reactions\<close> can be absent.
\<close>

record AnalysisResult =
  nodeDisplacements :: "string \<rightharpoonup> NodeDisplacement"
  memberForces :: "string \<rightharpoonup> MemberForces"
  diagrams :: "string \<rightharpoonup> Diagram"
  reactions :: "(string \<rightharpoonup> Reaction) option"

text \<open>
  Exceptions: \<open>Error msg\<close> is \<^verbatim>\<open>new Error(msg)\<close> thrown by the solver itself,
  \<open>TypeError\<close> is the runtime's fault on dereferencing \<^verbatim>\<open>undefined\<close> (or on using it as a
  matrix index).
\<close>

datatype error = Error string | TypeError

type_synonym matrix = "real list list"

section \<open>Matrix helpers\<close>

definition dot :: "real list \<Rightarrow> real list \<Rightarrow> real" where
  "dot u v = sum_list (map2 (*) u v)"

definition multiply :: "matrix \<Rightarrow> matrix \<Rightarrow> matrix" where
  "multiply A B = map (\<lambda>row. map (\<lambda>col. dot row col) (transpose B)) A"

definition multiplyVec :: "matrix \<Rightarrow> real list \<Rightarrow> real list" where
  "multiplyVec A v = map (\<lambda>row. dot row v) A"

definition addVec :: "real list \<Rightarrow> real list \<Rightarrow> real list" where
  "addVec u v = map2 (+) u v"

text \<open>\<^verbatim>\<open>Math.atan2(y, x)\<close>, the angle of the point \<open>(x, y)\<close> in \<open>(-\<pi>, \<pi>]\<close>.\<close>

definition atan2 :: "real \<Rightarrow> real \<Rightarrow> real" where
  "atan2 y x =
     (if 0 < x then arctan (y / x)
      else if x < 0 \<and> 0 \<le> y then arctan (y / x) + pi
      else if x < 0 then arctan (y / x) - pi
      else if 0 < y then pi / 2
      else if y < 0 then - (pi / 2)
      else 0)"

text \<open>The 6x6 direction-cosine matrix written out in three places of the source.\<close>

definition rotationMatrix :: "real \<Rightarrow> real \<Rightarrow> matrix" where
  "rotationMatrix c s =
     [[c, s, 0, 0, 0, 0],
      [- s, c, 0, 0, 0, 0],
      [0, 0, 1, 0, 0, 0],
      [0, 0, 0, c, s, 0],
      [0, 0, 0, - s, c, 0],
      [0, 0, 0, 0, 0, 1]]"

section \<open>Element formulator\<close>

text \<open>The value of \<^verbatim>\<open>k_local_vals\<close> in \<^verbatim>\<open>getMemberGlobalStiffnessMatrix\<close>.\<close>

definition k_local_vals :: "Member \<Rightarrow> real \<Rightarrow> matrix" where
  "k_local_vals member L =
     (let E = prop_E (properties member);
          I = prop_I (properties member);
          A = prop_A (properties member);
          w1 = (E * A) / L;
          w2 = (12 * E * I) / L ^ 3;
          w3 = (6 * E * I) / L ^ 2;
          w4 = (4 * E * I) / L;
          w5 = (2 * E * I) / L
      in if startRelease member = Pinned \<and> endRelease member = FixedRelease then
           (let w4_mod = (3 * E * I) / L;
                w3_mod = (3 * E * I) / L ^ 2;
                w2_mod = (3 * E * I) / L ^ 3
            in [[w1, 0, 0, - w1, 0, 0],
                [0, w2_mod, 0, 0, - w2_mod, w3_mod],
                [0, 0, 0, 0, 0, 0],
                [- w1, 0, 0, w1, 0, 0],
                [0, - w2_mod, 0, 0, w2_mod, - w3_mod],
                [0, w3_mod, 0, 0, - w3_mod, w4_mod]])
         else if startRelease member = FixedRelease \<and> endRelease member = Pinned then
           (let w4_mod = (3 * E * I) / L;
                w3_mod = (3 * E * I) / L ^ 2;
                w2_mod = (3 * E * I) / L ^ 3
            in [[w1, 0, 0, - w1, 0, 0],
                [0, w2_mod, w3_mod, 0, - w2_mod, 0],
                [0, w3_mod, w4_mod, 0, - w3_mod, 0],
                [- w1, 0, 0, w1, 0, 0],
                [0, - w2_mod, - w3_mod, 0, w2_mod, 0],
                [0, 0, 0, 0, 0, 0]])
         else if startRelease member = Pinned \<and> endRelease member = Pinned then
           [[w1, 0, 0, - w1, 0, 0],
            [0, 0, 0, 0, 0, 0],
            [0, 0, 0, 0, 0, 0],
            [- w1, 0, 0, w1, 0, 0],
            [0, 0, 0, 0, 0, 0],
            [0, 0, 0, 0, 0, 0]]
         else
           [[w1, 0, 0, - w1, 0, 0],
            [0, w2, w3, 0, - w2, w3],
            [0, w3, w4, 0, - w3, w5],
            [- w1, 0, 0, w1, 0, 0],
            [0, - w2, - w3, 0, w2, - w3],
            [0, w3, w5, 0, - w3, w4]])"

definition memberLength :: "Node \<Rightarrow> Node \<Rightarrow> real" where
  "memberLength startNode endNode =
     (let dx = node_x endNode - node_x startNode;
          dy = node_y endNode - node_y startNode
      in sqrt (dx * dx + dy * dy))"

definition getMemberGlobalStiffnessMatrix ::
    "Member \<Rightarrow> Node option \<Rightarrow> Node option \<Rightarrow> error + matrix" where
  "getMemberGlobalStiffnessMatrix member startNode endNode =
     (case (startNode, endNode) of
        (Some sn, Some en) \<Rightarrow>
          (let dx = node_x en - node_x sn;
               dy = node_y en - node_y sn;
               L = sqrt (dx * dx + dy * dy)
           in if L = 0 then
                Inl (Error (''Invalid member '' @ member_id member @ '': Length is zero.''))
              else
                (let c = dx / L;
                     s = dy / L;
                     k_local = k_local_vals member L;
                     T = rotationMatrix c s
                 in Inr (multiply (multiply (transpose T) k_local) T)))
      | _ \<Rightarrow>
          Inl (Error (''Invalid member '' @ member_id member @ '': Missing node(s). Start: ''
                      @ startNodeId member @ '', End: '' @ endNodeId member)))"

definition calculateLocalFixedEndForces ::
    "Member \<Rightarrow> Load \<Rightarrow> Node option \<Rightarrow> Node option \<Rightarrow> error + real list" where
  "calculateLocalFixedEndForces member load startNode endNode =
     (case (startNode, endNode) of
        (Some sn, Some en) \<Rightarrow>
          (let dx = node_x en - node_x sn;
               dy = node_y en - node_y sn;
               L = sqrt (dx * dx + dy * dy);
               P = magnitude load;
               a = position load;
               b = L - a;
               V_start_fixed = - (P * b * b * (3 * a + b)) / (L * L * L);
               M_start_fixed = - (P * a * b * b) / (L * L);
               V_end_fixed = - (P * a * a * (a + 3 * b)) / (L * L * L);
               M_end_fixed = (P * a * a * b) / (L * L)
           in if startRelease member = Pinned \<and> endRelease member = Pinned then
                Inr [0, - (P * b) / L, 0, 0, - (P * a) / L, 0]
              else if startRelease member = Pinned then
                (let M_rel = - M_start_fixed;
                     M_carry = 0.5 * M_rel;
                     V_change_FEF = (1.5 * M_rel) / L
                 in Inr [0, V_start_fixed + V_change_FEF, 0,
                         0, V_end_fixed - V_change_FEF, M_end_fixed + M_carry])
              else if endRelease member = Pinned then
                (let M_rel = - M_end_fixed;
                     M_carry = 0.5 * M_rel;
                     V_change_FEF = (1.5 * M_rel) / L
                 in Inr [0, V_start_fixed + V_change_FEF, M_start_fixed + M_carry,
                         0, V_end_fixed - V_change_FEF, 0])
              else
                Inr [0, V_start_fixed, M_start_fixed, 0, V_end_fixed, M_end_fixed])
      | _ \<Rightarrow> Inl (Error (''Invalid member '' @ member_id member @ '': Missing node(s).'')))"

text \<open>
  \<^verbatim>\<open>getGlobalFixedEndForces\<close> reads the coordinates of both nodes before it calls
  \<^verbatim>\<open>calculateLocalFixedEndForces\<close>, so a missing node is a \<open>TypeError\<close> here.
\<close>

definition getGlobalFixedEndForces ::
    "Member \<Rightarrow> Load \<Rightarrow> Node option \<Rightarrow> Node option \<Rightarrow> error + real list" where
  "getGlobalFixedEndForces member load startNode endNode =
     (case (startNode, endNode) of
        (Some sn, Some en) \<Rightarrow>
          (let dx = node_x en - node_x sn;
               dy = node_y en - node_y sn;
               theta = atan2 dy dx;
               c = cos theta;
               s = sin theta
           in case calculateLocalFixedEndForces member load startNode endNode of
                Inl e \<Rightarrow> Inl e
              | Inr f_local \<Rightarrow> Inr (multiplyVec (transpose (rotationMatrix c s)) f_local))
      | _ \<Rightarrow> Inl TypeError)"

section \<open>Degree-of-freedom indexer\<close>

text \<open>The keys of \<^verbatim>\<open>dofMap\<close> are the strings \<^verbatim>\<open>`${node.id}-x`\<close>, \<^verbatim>\<open>-y\<close> and \<^verbatim>\<open>-r\<close>.\<close>

definition initializeDOF :: "Node list \<Rightarrow> (string \<rightharpoonup> nat)" where
  "initializeDOF nodes =
     fold (\<lambda>(index, node) dofMap.
             dofMap(node_id node @ ''-x'' \<mapsto> index * 3,
                    node_id node @ ''-y'' \<mapsto> index * 3 + 1,
                    node_id node @ ''-r'' \<mapsto> index * 3 + 2))
          (enumerate 0 nodes) Map.empty"

definition totalDOF :: "Node list \<Rightarrow> nat" where
  "totalDOF nodes = length nodes * 3"

definition findNode :: "Node list \<Rightarrow> string \<Rightarrow> Node option" where
  "findNode nodes k = find (\<lambda>n. node_id n = k) nodes"

definition findMember :: "Member list \<Rightarrow> string \<Rightarrow> Member option" where
  "findMember members k = find (\<lambda>m. member_id m = k) members"

text \<open>The array \<^verbatim>\<open>dofIndices\<close>; an entry is \<open>None\<close> where the lookup gives \<^verbatim>\<open>undefined\<close>.\<close>

definition dofIndices :: "(string \<rightharpoonup> nat) \<Rightarrow> Node \<Rightarrow> Node \<Rightarrow> nat option list" where
  "dofIndices dofMap startNode endNode =
     [dofMap (node_id startNode @ ''-x''),
      dofMap (node_id startNode @ ''-y''),
      dofMap (node_id startNode @ ''-r''),
      dofMap (node_id endNode @ ''-x''),
      dofMap (node_id endNode @ ''-y''),
      dofMap (node_id endNode @ ''-r'')]"

section \<open>System assembler and solver\<close>

text \<open>\<^verbatim>\<open>forEach\<close> with a body that can throw: the first exception ends the loop.\<close>

fun forEachE :: "('a \<Rightarrow> 's \<Rightarrow> error + 's) \<Rightarrow> 'a list \<Rightarrow> 's \<Rightarrow> error + 's" where
  "forEachE f [] s = Inr s"
| "forEachE f (x # xs) s = (case f x s of Inl e \<Rightarrow> Inl e | Inr s' \<Rightarrow> forEachE f xs s')"

text \<open>Body of the loop over members in step 1 of \<^verbatim>\<open>solve\<close>.\<close>

definition assembleMemberStiffness ::
    "Node list \<Rightarrow> (string \<rightharpoonup> nat) \<Rightarrow> Member \<Rightarrow> (nat \<times> nat \<Rightarrow> real) \<Rightarrow> error + (nat \<times> nat \<Rightarrow> real)" where
  "assembleMemberStiffness nodes dofMap member K =
     (let startNode = findNode nodes (startNodeId member);
          endNode = findNode nodes (endNodeId member)
      in case getMemberGlobalStiffnessMatrix member startNode endNode of
           Inl e \<Rightarrow> Inl e
         | Inr k_global \<Rightarrow>
             (case (startNode, endNode) of
                (Some sn, Some en) \<Rightarrow>
                  (case those (dofIndices dofMap sn en) of
                     None \<Rightarrow> Inl TypeError
                   | Some idx \<Rightarrow>
                       Inr (fold (\<lambda>(i, j) K.
                                    K((idx ! i, idx ! j) := K (idx ! i, idx ! j) + k_global ! i ! j))
                                 (List.product [0..<6] [0..<6]) K))
              | _ \<Rightarrow> Inl TypeError))"

text \<open>Body of the loop over loads in step 2 of \<^verbatim>\<open>solve\<close>.\<close>

definition assembleLoad ::
    "Node list \<Rightarrow> Member list \<Rightarrow> (string \<rightharpoonup> nat) \<Rightarrow> Load \<Rightarrow> (nat \<Rightarrow> real) \<Rightarrow> error + (nat \<Rightarrow> real)" where
  "assembleLoad nodes members dofMap load F =
     (case findMember members (memberId load) of
        None \<Rightarrow> Inl TypeError
      | Some member \<Rightarrow>
          (let startNode = findNode nodes (startNodeId member);
               endNode = findNode nodes (endNodeId member)
           in case getGlobalFixedEndForces member load startNode endNode of
                Inl e \<Rightarrow> Inl e
              | Inr fef_global \<Rightarrow>
                  (case (startNode, endNode) of
                     (Some sn, Some en) \<Rightarrow>
                       (case those (dofIndices dofMap sn en) of
                          None \<Rightarrow> Inl TypeError
                        | Some idx \<Rightarrow>
                            Inr (fold (\<lambda>i F. F(idx ! i := F (idx ! i) - fef_global ! i))
                                      [0..<6] F))
                   | _ \<Rightarrow> Inl TypeError)))"

text \<open>What one support pushes onto \<^verbatim>\<open>constrainedDOFs\<close>.\<close>

definition supportDOFs :: "(string \<rightharpoonup> nat) \<Rightarrow> Support \<Rightarrow> nat option list" where
  "supportDOFs dofMap support =
     (let xDOF = dofMap (support_nodeId support @ ''-x'');
          yDOF = dofMap (support_nodeId support @ ''-y'');
          rDOF = dofMap (support_nodeId support @ ''-r'')
      in case support_type support of
           Pin \<Rightarrow> [xDOF, yDOF]
         | FixedSupport \<Rightarrow> [xDOF, yDOF, rDOF]
         | Roller \<Rightarrow> [yDOF])"

definition constrainedDOFs :: "(string \<rightharpoonup> nat) \<Rightarrow> Support list \<Rightarrow> nat option list" where
  "constrainedDOFs dofMap supports = concat (map (supportDOFs dofMap) supports)"

definition finalFreeDOFs :: "(string \<rightharpoonup> nat) \<Rightarrow> nat \<Rightarrow> Support list \<Rightarrow> nat list" where
  "finalFreeDOFs dofMap n supports =
     filter (\<lambda>dof. Some dof \<notin> set (constrainedDOFs dofMap supports)) [0..<n]"

definition stabilize :: "nat \<Rightarrow> (nat \<times> nat \<Rightarrow> real) \<Rightarrow> (nat \<times> nat \<Rightarrow> real)" where
  "stabilize n K =
     fold (\<lambda>i K. if \<bar>K (i, i)\<bar> < 1 / 10 ^ 9 then K((i, i) := 1) else K) [0..<n] K"

definition subsetMatrix :: "(nat \<times> nat \<Rightarrow> real) \<Rightarrow> nat list \<Rightarrow> matrix" where
  "subsetMatrix K dofs = map (\<lambda>r. map (\<lambda>c. K (r, c)) dofs) dofs"

definition subsetVector :: "(nat \<Rightarrow> real) \<Rightarrow> nat list \<Rightarrow> real list" where
  "subsetVector F dofs = map F dofs"

definition scatter :: "nat list \<Rightarrow> real list \<Rightarrow> (nat \<Rightarrow> real)" where
  "scatter dofs d_f = fold (\<lambda>(i, dof) d. d(dof := d_f ! i)) (enumerate 0 dofs) (\<lambda>_. 0)"

section \<open>Results extractor\<close>

definition nodeDisplacementTable ::
    "Node list \<Rightarrow> (nat \<Rightarrow> real) \<Rightarrow> (string \<rightharpoonup> NodeDisplacement)" where
  "nodeDisplacementTable nodes d_global =
     fold (\<lambda>(i, node) tbl.
             tbl(node_id node \<mapsto>
                   \<lparr>disp_dx = d_global (i * 3),
                    disp_dy = d_global (i * 3 + 1),
                    disp_rotation = d_global (i * 3 + 2)\<rparr>))
          (enumerate 0 nodes) Map.empty"

text \<open>The column \<^verbatim>\<open>d_member_global\<close>, read at \<^verbatim>\<open>startIdx\<close>, \<^verbatim>\<open>startIdx + 1\<close>, ...\<close>

definition memberDisplacements ::
    "(string \<rightharpoonup> nat) \<Rightarrow> (nat \<Rightarrow> real) \<Rightarrow> Node \<Rightarrow> Node \<Rightarrow> error + real list" where
  "memberDisplacements dofMap d_global startNode endNode =
     (case (dofMap (node_id startNode @ ''-x''), dofMap (node_id endNode @ ''-x'')) of
        (Some startIdx, Some endIdx) \<Rightarrow>
          Inr [d_global startIdx, d_global (startIdx + 1), d_global (startIdx + 2),
               d_global endIdx, d_global (endIdx + 1), d_global (endIdx + 2)]
      | _ \<Rightarrow> Inl TypeError)"

text \<open>The column \<^verbatim>\<open>f_fixed_global\<close>: the fixed-end forces of the loads filtered by member id.\<close>

definition fixedEndForceSum ::
    "Member \<Rightarrow> Load list \<Rightarrow> Node option \<Rightarrow> Node option \<Rightarrow> error + real list" where
  "fixedEndForceSum member loads startNode endNode =
     forEachE (\<lambda>l f_fixed_global.
                 case getGlobalFixedEndForces member l startNode endNode of
                   Inl e \<Rightarrow> Inl e
                 | Inr fef \<Rightarrow> Inr (addVec f_fixed_global fef))
              (filter (\<lambda>l. memberId l = member_id member) loads)
              [0, 0, 0, 0, 0, 0]"

text \<open>
  The column \<^verbatim>\<open>f_global\<close>, computed by the same statements in the loop over members and
  in the loop over supports of \<^verbatim>\<open>calculateResults\<close>.
\<close>

definition memberGlobalForces ::
    "(string \<rightharpoonup> nat) \<Rightarrow> Load list \<Rightarrow> (nat \<Rightarrow> real) \<Rightarrow> Member \<Rightarrow> Node option \<Rightarrow> Node option
     \<Rightarrow> error + real list" where
  "memberGlobalForces dofMap loads d_global member startNode endNode =
     (case (startNode, endNode) of
        (Some sn, Some en) \<Rightarrow>
          (case memberDisplacements dofMap d_global sn en of
             Inl e \<Rightarrow> Inl e
           | Inr d_member_global \<Rightarrow>
               (case fixedEndForceSum member loads startNode endNode of
                  Inl e \<Rightarrow> Inl e
                | Inr f_fixed_global \<Rightarrow>
                    (case getMemberGlobalStiffnessMatrix member startNode endNode of
                       Inl e \<Rightarrow> Inl e
                     | Inr k_global \<Rightarrow>
                         Inr (addVec (multiplyVec k_global d_member_global) f_fixed_global))))
      | _ \<Rightarrow> Inl TypeError)"

definition numPoints :: nat where
  "numPoints = 50"

text \<open>\<^verbatim>\<open>sortedPoints\<close>: the insertion-ordered set of numbers, sorted ascending.\<close>

definition evaluationPoints :: "real \<Rightarrow> Load list \<Rightarrow> real list" where
  "evaluationPoints L memberLoads =
     sort (remdups (map (\<lambda>i. (real i / real numPoints) * L) [0..<Suc numPoints]
                    @ map position (filter (\<lambda>l. 0 \<le> position l \<and> position l \<le> L) memberLoads)))"

text \<open>\<^verbatim>\<open>theta_start\<close>: the start rotation, or the slope back-solved at \<open>x = L\<close>.\<close>

definition thetaStart ::
    "Member \<Rightarrow> real \<Rightarrow> real \<Rightarrow> real \<Rightarrow> real list \<Rightarrow> real list \<Rightarrow> Load list \<Rightarrow> real" where
  "thetaStart member dx dy L f_local d_member_local memberLoads =
     (let v1 = d_member_local ! 1;
          th1 = d_member_local ! 2;
          v2 = d_member_local ! 4
      in if startRelease member = Pinned then
           (let x_L = L;
                M_start_for_calc = - (f_local ! 2);
                V_start_for_calc = f_local ! 1;
                term1_L = M_start_for_calc * x_L * x_L / 2;
                term2_L = V_start_for_calc * x_L * x_L * x_L / 6;
                loadTerms_L =
                  fold (\<lambda>load loadTerms_L.
                          (let a = position load;
                               P = magnitude load;
                               theta = atan2 dy dx;
                               Py_local = P * cos theta
                           in if x_L > a then loadTerms_L + (Py_local / 6) * (x_L - a) ^ 3
                              else loadTerms_L))
                       memberLoads 0;
                E = prop_E (properties member);
                I = prop_I (properties member);
                v_bending_L = (1 / (E * I)) * (term1_L + term2_L + loadTerms_L)
            in (v2 - v1 - v_bending_L) / L)
         else th1)"

text \<open>One pass of the loop over \<^verbatim>\<open>sortedPoints\<close>: the values pushed for the point \<open>x\<close>.\<close>

definition diagramAt ::
    "Member \<Rightarrow> real \<Rightarrow> real \<Rightarrow> real list \<Rightarrow> real \<Rightarrow> real \<Rightarrow> Load list \<Rightarrow> real
     \<Rightarrow> real \<times> real \<times> real" where
  "diagramAt member dx dy f_local v1 theta_start memberLoads x =
     (let V_start = f_local ! 1;
          M_start = - (f_local ! 2);
          term1 = M_start * x * x / 2;
          term2 = V_start * x * x * x / 6;
          (V, M, loadTerms) =
            fold (\<lambda>load (V, M, loadTerms).
                    (let a = position load;
                         P = magnitude load;
                         theta = atan2 dy dx;
                         Py_local = P * cos theta
                     in if x > a then
                          (V + Py_local, M + Py_local * (x - a),
                           loadTerms + (Py_local / 6) * (x - a) ^ 3)
                        else (V, M, loadTerms)))
                 memberLoads (V_start, M_start + V_start * x, 0);
          E = prop_E (properties member);
          I = prop_I (properties member);
          v_def = (1 / (E * I)) * (term1 + term2 + loadTerms) + theta_start * x + v1
      in (V, M, v_def))"

definition memberDiagram ::
    "Member \<Rightarrow> real \<Rightarrow> real \<Rightarrow> real \<Rightarrow> real list \<Rightarrow> real list \<Rightarrow> Load list \<Rightarrow> Diagram" where
  "memberDiagram member dx dy L f_local d_member_local memberLoads =
     (let v1 = d_member_local ! 1;
          sortedPoints = evaluationPoints L memberLoads;
          theta_start = thetaStart member dx dy L f_local d_member_local memberLoads;
          vals = map (diagramAt member dx dy f_local v1 theta_start memberLoads) sortedPoints
      in \<lparr>diagram_x = sortedPoints,
          shear = map (\<lambda>(V, M, v_def). V) vals,
          moment = map (\<lambda>(V, M, v_def). M) vals,
          displacement = map (\<lambda>(V, M, v_def). v_def) vals\<rparr>)"

text \<open>Body of the loop over members in \<^verbatim>\<open>calculateResults\<close>.\<close>

definition memberResult ::
    "Node list \<Rightarrow> (string \<rightharpoonup> nat) \<Rightarrow> Load list \<Rightarrow> (nat \<Rightarrow> real) \<Rightarrow> Member
     \<Rightarrow> error + MemberForces \<times> Diagram" where
  "memberResult nodes dofMap loads d_global member =
     (let startNode = findNode nodes (startNodeId member);
          endNode = findNode nodes (endNodeId member)
      in case (startNode, endNode) of
           (Some sn, Some en) \<Rightarrow>
             (case memberDisplacements dofMap d_global sn en of
                Inl e \<Rightarrow> Inl e
              | Inr d_member_global \<Rightarrow>
                  (let dx = node_x en - node_x sn;
                       dy = node_y en - node_y sn;
                       L = sqrt (dx * dx + dy * dy);
                       c = dx / L;
                       s = dy / L;
                       T = rotationMatrix c s;
                       d_member_local = multiplyVec T d_member_global
                   in case memberGlobalForces dofMap loads d_global member startNode endNode of
                        Inl e \<Rightarrow> Inl e
                      | Inr f_global \<Rightarrow>
                          (let f_local = multiplyVec T f_global
                           in Inr (\<lparr>axial = f_local ! 0,
                                    shearStart = f_local ! 1,
                                    shearEnd = - (f_local ! 4),
                                    momentStart = f_local ! 2,
                                    momentEnd = - (f_local ! 5)\<rparr>,
                                   memberDiagram member dx dy L f_local d_member_local
                                     (filter (\<lambda>l. memberId l = member_id member) loads)))))
         | _ \<Rightarrow> Inl TypeError)"

text \<open>The sums \<^verbatim>\<open>Rx\<close>, \<^verbatim>\<open>Ry\<close>, \<^verbatim>\<open>Mz\<close> over the members connected to a supported node.\<close>

definition nodeReaction ::
    "Node list \<Rightarrow> Member list \<Rightarrow> (string \<rightharpoonup> nat) \<Rightarrow> Load list \<Rightarrow> (nat \<Rightarrow> real) \<Rightarrow> Node
     \<Rightarrow> error + Reaction" where
  "nodeReaction nodes members dofMap loads d_global node =
     forEachE (\<lambda>member r.
                 case memberGlobalForces dofMap loads d_global member
                        (findNode nodes (startNodeId member)) (findNode nodes (endNodeId member)) of
                   Inl e \<Rightarrow> Inl e
                 | Inr f_global \<Rightarrow>
                     if startNodeId member = node_id node then
                       Inr \<lparr>Fx = Fx r + f_global ! 0, Fy = Fy r + f_global ! 1,
                            Mz = Mz r + f_global ! 2\<rparr>
                     else
                       Inr \<lparr>Fx = Fx r + f_global ! 3, Fy = Fy r + f_global ! 4,
                            Mz = Mz r + f_global ! 5\<rparr>)
              (filter (\<lambda>m. startNodeId m = node_id node \<or> endNodeId m = node_id node) members)
              \<lparr>Fx = 0, Fy = 0, Mz = 0\<rparr>"

text \<open>The loop over supports: a support whose node is not found is skipped.\<close>

definition reactionTable ::
    "Node list \<Rightarrow> Member list \<Rightarrow> Support list \<Rightarrow> (string \<rightharpoonup> nat) \<Rightarrow> Load list \<Rightarrow> (nat \<Rightarrow> real)
     \<Rightarrow> error + (string \<rightharpoonup> Reaction)" where
  "reactionTable nodes members supports dofMap loads d_global =
     forEachE (\<lambda>support tbl.
                 case findNode nodes (support_nodeId support) of
                   None \<Rightarrow> Inr tbl
                 | Some node \<Rightarrow>
                     (case nodeReaction nodes members dofMap loads d_global node of
                        Inl e \<Rightarrow> Inl e
                      | Inr r \<Rightarrow> Inr (tbl(node_id node \<mapsto> r))))
              supports Map.empty"

definition calculateResults ::
    "Node list \<Rightarrow> Member list \<Rightarrow> Support list \<Rightarrow> Load list \<Rightarrow> (string \<rightharpoonup> nat) \<Rightarrow> (nat \<Rightarrow> real)
     \<Rightarrow> error + AnalysisResult" where
  "calculateResults nodes members supports loads dofMap d_global =
     (case forEachE (\<lambda>member (forces, diags).
                       case memberResult nodes dofMap loads d_global member of
                         Inl e \<Rightarrow> Inl e
                       | Inr (mf, dg) \<Rightarrow>
                           Inr (forces(member_id member \<mapsto> mf), diags(member_id member \<mapsto> dg)))
                    members (Map.empty, Map.empty) of
        Inl e \<Rightarrow> Inl e
      | Inr (forces, diags) \<Rightarrow>
          (case reactionTable nodes members supports dofMap loads d_global of
             Inl e \<Rightarrow> Inl e
           | Inr tbl \<Rightarrow>
               Inr \<lparr>nodeDisplacements = nodeDisplacementTable nodes d_global,
                    memberForces = forces,
                    diagrams = diags,
                    reactions = Some tbl\<rparr>))"

section \<open>The solve operation\<close>

text \<open>
  Steps 1 and 2 of \<^verbatim>\<open>solve\<close> are the loops \<open>assembleK\<close> and \<open>assembleF\<close> over zero
  matrices. \<open>mathInv\<close> stands for \<^verbatim>\<open>math.inv\<close>: \<open>None\<close> when it raises, otherwise the matrix it returns
  (of the dimensions of its argument).
\<close>

definition assembleK ::
    "Node list \<Rightarrow> (string \<rightharpoonup> nat) \<Rightarrow> Member list \<Rightarrow> error + (nat \<times> nat \<Rightarrow> real)" where
  "assembleK nodes dofMap members =
     forEachE (assembleMemberStiffness nodes dofMap) members (\<lambda>_. 0)"

definition assembleF ::
    "Node list \<Rightarrow> Member list \<Rightarrow> (string \<rightharpoonup> nat) \<Rightarrow> Load list \<Rightarrow> error + (nat \<Rightarrow> real)" where
  "assembleF nodes members dofMap loads =
     forEachE (assembleLoad nodes members dofMap) loads (\<lambda>_. 0)"

definition solve ::
    "(matrix \<Rightarrow> matrix option) \<Rightarrow> Node list \<Rightarrow> Member list \<Rightarrow> Support list \<Rightarrow> Load list
     \<Rightarrow> error + AnalysisResult" where
  "solve mathInv nodes members supports loads =
     (if length nodes = 0 then
        Inr \<lparr>nodeDisplacements = Map.empty, memberForces = Map.empty, diagrams = Map.empty,
             reactions = None\<rparr>
      else
        (let dofMap = initializeDOF nodes;
             n = totalDOF nodes
         in case assembleK nodes dofMap members of
              Inl e \<Rightarrow> Inl e
            | Inr K \<Rightarrow>
                (case assembleF nodes members dofMap loads of
                   Inl e \<Rightarrow> Inl e
                 | Inr F \<Rightarrow>
                     (let free = finalFreeDOFs dofMap n supports;
                          K' = stabilize n K
                      in if length free > 0 then
                           (case mathInv (subsetMatrix K' free) of
                              None \<Rightarrow> Inl (Error ''Structure is unstable or singular matrix.'')
                            | Some K_ff_inv \<Rightarrow>
                                (let d_f = multiplyVec K_ff_inv (subsetVector F free);
                                     d_global = scatter free d_f
                                 in calculateResults nodes members supports loads dofMap d_global))
                         else
                           calculateResults nodes members supports loads dofMap (\<lambda>_. 0)))))"

section \<open>Reference definitions, in the words of the specification\<close>

text \<open>The canonical beam-column stiffness pattern for the coefficients \<open>w1\<close>, ..., \<open>w5\<close>.\<close>

definition beamColumnPattern :: "real \<Rightarrow> real \<Rightarrow> real \<Rightarrow> real \<Rightarrow> real \<Rightarrow> matrix" where
  "beamColumnPattern w1 w2 w3 w4 w5 =
     [[w1, 0, 0, - w1, 0, 0],
      [0, w2, w3, 0, - w2, w3],
      [0, w3, w4, 0, - w3, w5],
      [- w1, 0, 0, w1, 0, 0],
      [0, - w2, - w3, 0, w2, - w3],
      [0, w3, w5, 0, - w3, w4]]"

text \<open>A 6x6 matrix with row \<open>r\<close> and column \<open>r\<close> replaced by zeros.\<close>

definition zeroRowColumn :: "nat \<Rightarrow> matrix \<Rightarrow> matrix" where
  "zeroRowColumn r M =
     map (\<lambda>i. map (\<lambda>j. if i = r \<or> j = r then 0 else M ! i ! j) [0..<6]) [0..<6]"

text \<open>
  The reference local stiffness by release state: the full pattern when both ends are
  fixed; the propped-cantilever coefficients with the rotational row and column of the
  pinned end (index 2 at the start, 5 at the end) zero when one end is pinned; the axial
  block alone when both are.
\<close>

definition referenceLocalStiffness ::
    "MemberRelease \<Rightarrow> MemberRelease \<Rightarrow> real \<Rightarrow> real \<Rightarrow> real \<Rightarrow> real \<Rightarrow> matrix" where
  "referenceLocalStiffness startRel endRel E I A L =
     (case (startRel, endRel) of
        (FixedRelease, FixedRelease) \<Rightarrow>
          beamColumnPattern (E * A / L) (12 * E * I / L ^ 3) (6 * E * I / L ^ 2)
            (4 * E * I / L) (2 * E * I / L)
      | (Pinned, FixedRelease) \<Rightarrow>
          zeroRowColumn 2
            (beamColumnPattern (E * A / L) (3 * E * I / L ^ 3) (3 * E * I / L ^ 2)
               (3 * E * I / L) (2 * E * I / L))
      | (FixedRelease, Pinned) \<Rightarrow>
          zeroRowColumn 5
            (beamColumnPattern (E * A / L) (3 * E * I / L ^ 3) (3 * E * I / L ^ 2)
               (3 * E * I / L) (2 * E * I / L))
      | (Pinned, Pinned) \<Rightarrow> beamColumnPattern (E * A / L) 0 0 0 0)"

text \<open>
  The reference local fixed-end forces of a point load \<open>P\<close> at distance \<open>a\<close> from the
  start of a member of length \<open>L\<close>, by release state.
\<close>

definition referenceFixedEndForces ::
    "MemberRelease \<Rightarrow> MemberRelease \<Rightarrow> real \<Rightarrow> real \<Rightarrow> real \<Rightarrow> real list" where
  "referenceFixedEndForces startRel endRel P a L =
     (let b = L - a;
          V_start = - (P * b\<^sup>2 * (3 * a + b)) / L ^ 3;
          M_start = - (P * a * b\<^sup>2) / L\<^sup>2;
          V_end = - (P * a\<^sup>2 * (a + 3 * b)) / L ^ 3;
          M_end = P * a\<^sup>2 * b / L\<^sup>2
      in case (startRel, endRel) of
           (FixedRelease, FixedRelease) \<Rightarrow> [0, V_start, M_start, 0, V_end, M_end]
         | (Pinned, Pinned) \<Rightarrow> [0, - (P * b) / L, 0, 0, - (P * a) / L, 0]
         | (Pinned, FixedRelease) \<Rightarrow>
             (let M_rel = - M_start
              in [0, V_start + 1.5 * M_rel / L, 0, 0, V_end - 1.5 * M_rel / L, M_end + M_rel / 2])
         | (FixedRelease, Pinned) \<Rightarrow>
             (let M_rel = - M_end
              in [0, V_start + 1.5 * M_rel / L, M_start + M_rel / 2, 0, V_end - 1.5 * M_rel / L, 0]))"

section \<open>Auxiliary notions used in the statements\<close>

text \<open>
  \<^verbatim>\<open>Py_local\<close>: the transverse component that the diagram loop gives a load on a member
  of direction \<open>(dx, dy)\<close>.
\<close>

definition transverseLoad :: "real \<Rightarrow> real \<Rightarrow> Load \<Rightarrow> real" where
  "transverseLoad dx dy load = magnitude load * cos (atan2 dy dx)"

text \<open>A member is well formed when both its nodes resolve and its length is not zero.\<close>

definition validMember :: "Node list \<Rightarrow> Member \<Rightarrow> bool" where
  "validMember nodes member =
     (case (findNode nodes (startNodeId member), findNode nodes (endNodeId member)) of
        (Some sn, Some en) \<Rightarrow> memberLength sn en \<noteq> 0
      | _ \<Rightarrow> False)"

text \<open>The configuration faults are the errors whose message starts with \<^verbatim>\<open>Invalid member\<close>.\<close>

definition configurationFault :: "error \<Rightarrow> bool" where
  "configurationFault e =
     (case e of Error msg \<Rightarrow> take 15 msg = ''Invalid member '' | TypeError \<Rightarrow> False)"


text \<open>The assembled global stiffness matrix of a frame whose members are all well formed.\<close>

definition assembledStiffness :: "Node list \<Rightarrow> Member list \<Rightarrow> (nat \<times> nat \<Rightarrow> real)" where
  "assembledStiffness nodes members =
     (case assembleK nodes (initializeDOF nodes) members of Inr K \<Rightarrow> K | Inl e \<Rightarrow> (\<lambda>_. 0))"

text \<open>The free-free stiffness submatrix handed to the inversion routine.\<close>

definition freeStiffness :: "Node list \<Rightarrow> Member list \<Rightarrow> Support list \<Rightarrow> matrix" where
  "freeStiffness nodes members supports =
     subsetMatrix (stabilize (totalDOF nodes) (assembledStiffness nodes members))
       (finalFreeDOFs (initializeDOF nodes) (totalDOF nodes) supports)"

definition resolvedLoad :: "Member list \<Rightarrow> Load \<Rightarrow> bool" where
  "resolvedLoad members load = (findMember members (memberId load) \<noteq> None)"

definition resolvedSupport :: "Node list \<Rightarrow> Support \<Rightarrow> bool" where
  "resolvedSupport nodes support = (findNode nodes (support_nodeId support) \<noteq> None)"

section \<open>Notions for global equilibrium\<close>

text \<open>The six global indices, the global stiffness and the global fixed-end forces of a
  member whose nodes resolve (empty lists otherwise).\<close>

definition memberDofs :: "Node list \<Rightarrow> Member \<Rightarrow> nat list" where
  "memberDofs nodes member =
     (case (findNode nodes (startNodeId member), findNode nodes (endNodeId member)) of
        (Some sn, Some en) \<Rightarrow>
          (case those (dofIndices (initializeDOF nodes) sn en) of Some idx \<Rightarrow> idx | None \<Rightarrow> [])
      | _ \<Rightarrow> [])"

definition memberStiffness :: "Node list \<Rightarrow> Member \<Rightarrow> matrix" where
  "memberStiffness nodes member =
     (case getMemberGlobalStiffnessMatrix member (findNode nodes (startNodeId member))
             (findNode nodes (endNodeId member)) of
        Inr k_global \<Rightarrow> k_global
      | Inl e \<Rightarrow> [])"

definition memberLoadForces :: "Node list \<Rightarrow> Member \<Rightarrow> Load \<Rightarrow> real list" where
  "memberLoadForces nodes member load =
     (case getGlobalFixedEndForces member load (findNode nodes (startNodeId member))
             (findNode nodes (endNodeId member)) of
        Inr fef \<Rightarrow> fef
      | Inl e \<Rightarrow> [])"

text \<open>The global end forces \<^verbatim>\<open>f_global\<close> of a member for the displacements \<open>d_global\<close>.\<close>

definition memberEndForces :: "Node list \<Rightarrow> Load list \<Rightarrow> (nat \<Rightarrow> real) \<Rightarrow> Member \<Rightarrow> real list" where
  "memberEndForces nodes loads d_global member =
     (case memberGlobalForces (initializeDOF nodes) loads d_global member
             (findNode nodes (startNodeId member)) (findNode nodes (endNodeId member)) of
        Inr f_global \<Rightarrow> f_global
      | Inl e \<Rightarrow> [])"

text \<open>The reaction computed for the node of identity \<open>k\<close>, if there is such a node.\<close>

definition reactionOf ::
    "Node list \<Rightarrow> Member list \<Rightarrow> Load list \<Rightarrow> (nat \<Rightarrow> real) \<Rightarrow> string \<Rightarrow> Reaction option" where
  "reactionOf nodes members loads d_global k =
     (case findNode nodes k of
        None \<Rightarrow> None
      | Some node \<Rightarrow>
          (case nodeReaction nodes members (initializeDOF nodes) loads d_global node of
             Inr r \<Rightarrow> Some r
           | Inl e \<Rightarrow> None))"

text \<open>The member a load acts on: the first one with its member id, if any.\<close>

definition loadMembers :: "Member list \<Rightarrow> Load \<Rightarrow> Member list" where
  "loadMembers members load =
     (case findMember members (memberId load) of Some m \<Rightarrow> [m] | None \<Rightarrow> [])"

text \<open>
  The vertical (global y) component of a point load: the magnitude acts along the local
  transverse axis \<open>(- s, c)\<close> of its member, so the component is \<open>P c\<close> with \<open>c = dx / L\<close>.
\<close>

definition appliedLoadFy :: "Node list \<Rightarrow> Member list \<Rightarrow> Load \<Rightarrow> real" where
  "appliedLoadFy nodes members load =
     (case findMember members (memberId load) of
        None \<Rightarrow> 0
      | Some member \<Rightarrow>
          (case (findNode nodes (startNodeId member), findNode nodes (endNodeId member)) of
             (Some sn, Some en) \<Rightarrow>
               magnitude load * ((node_x en - node_x sn) / memberLength sn en)
           | _ \<Rightarrow> 0))"

text \<open>The sum of the vertical components over the entries of a reaction table.\<close>

definition reactionSumFy :: "(string \<rightharpoonup> Reaction) \<Rightarrow> real" where
  "reactionSumFy tbl = (\<Sum>k\<in>dom tbl. case tbl k of Some r \<Rightarrow> Fy r | None \<Rightarrow> 0)"

text \<open>The same sum read off an outcome of \<open>solve\<close>; \<open>None\<close> when there is no reaction table.\<close>

definition reportedVerticalReaction :: "error + AnalysisResult \<Rightarrow> real option" where
  "reportedVerticalReaction outcome =
     (case outcome of
        Inl e \<Rightarrow> None
      | Inr res \<Rightarrow> map_option reactionSumFy (reactions res))"

definition identityMatrix :: "nat \<Rightarrow> matrix" where
  "identityMatrix n = map (\<lambda>i. map (\<lambda>j. if i = j then 1 else 0) [0..<n]) [0..<n]"

text \<open>\<open>Mi\<close> is a square matrix of the size of \<open>M\<close> and a right inverse of \<open>M\<close>.\<close>

definition inverseOf :: "matrix \<Rightarrow> matrix \<Rightarrow> bool" where
  "inverseOf M Mi =
     (length Mi = length M \<and> list_all (\<lambda>row. length row = length M) Mi \<and>
      multiply M Mi = identityMatrix (length M))"

section \<open>Two structures on one span\<close>

text \<open>
  The cantilever of \<^verbatim>\<open>src/debug-cantilever.ts\<close>: a span of 10 between \<^verbatim>\<open>n1\<close> and \<^verbatim>\<open>n2\<close>, clamped
  at \<^verbatim>\<open>n1\<close>, with a point load of \<open>-10\<close> at its free end. The inversion routine is given by
  its value on the one matrix it is handed.
\<close>

definition spanNodes :: "Node list" where
  "spanNodes = [\<lparr>node_id = ''n1'', node_x = 0, node_y = 0\<rparr>,
                \<lparr>node_id = ''n2'', node_x = 10, node_y = 0\<rparr>]"

definition cantileverMember :: Member where
  "cantileverMember =
     \<lparr>member_id = ''m1'', startNodeId = ''n1'', endNodeId = ''n2'',
      startRelease = FixedRelease, endRelease = FixedRelease,
      properties = \<lparr>prop_E = 200000000000, prop_I = 1 / 10000, prop_A = 1 / 100\<rparr>\<rparr>"

definition cantileverSupports :: "Support list" where
  "cantileverSupports =
     [\<lparr>support_id = ''s1'', support_nodeId = ''n1'', support_type = FixedSupport,
       support_angle = 0\<rparr>]"

definition cantileverLoads :: "Load list" where
  "cantileverLoads =
     [\<lparr>load_id = ''l1'', memberId = ''m1'', load_type = Point, magnitude = - 10,
       position = 10\<rparr>]"

definition cantileverInverse :: "matrix \<Rightarrow> matrix option" where
  "cantileverInverse M =
     (if M = [[200000000, 0, 0], [0, 240000, - 1200000], [0, - 1200000, 8000000]]
      then Some [[1 / 200000000, 0, 0], [0, 1 / 60000, 1 / 400000], [0, 1 / 400000, 1 / 2000000]]
      else None)"

text \<open>
  The same span with both member ends released and a pin at \<^verbatim>\<open>n1\<close> only, loaded at midspan:
  nothing holds \<^verbatim>\<open>n2\<close> vertically.
\<close>

definition hingedMember :: Member where
  "hingedMember =
     \<lparr>member_id = ''m1'', startNodeId = ''n1'', endNodeId = ''n2'',
      startRelease = Pinned, endRelease = Pinned,
      properties = \<lparr>prop_E = 200000000000, prop_I = 1 / 10000, prop_A = 1 / 100\<rparr>\<rparr>"

definition hingedSupports :: "Support list" where
  "hingedSupports =
     [\<lparr>support_id = ''s1'', support_nodeId = ''n1'', support_type = Pin, support_angle = 0\<rparr>]"

definition hingedLoads :: "Load list" where
  "hingedLoads =
     [\<lparr>load_id = ''l1'', memberId = ''m1'', load_type = Point, magnitude = - 10,
       position = 5\<rparr>]"

definition hingedInverse :: "matrix \<Rightarrow> matrix option" where
  "hingedInverse M =
     (if M = [[1, 0, 0, 0], [0, 200000000, 0, 0], [0, 0, 1, 0], [0, 0, 0, 1]]
      then Some [[1, 0, 0, 0], [0, 1 / 200000000, 0, 0], [0, 0, 1, 0], [0, 0, 0, 1]]
      else None)"

section \<open>Auxiliary facts\<close>

lemma upt_6: "[0..<6] = [0, 1, 2, 3, 4, 5]"
  by (simp add: upt_conv_Cons)

lemma upt_3: "[0..<3] = [0, 1, 2]"
  by (simp add: upt_conv_Cons)

lemma sqrt_25: "sqrt 25 = 5"
  using real_sqrt_abs [of 5] by simp

lemma cos_arctan_div:
  assumes "x \<noteq> 0"
  shows "cos (arctan (y / x)) = \<bar>x\<bar> / sqrt (x * x + y * y)"
proof -
  have "1 + (y / x)\<^sup>2 = (x * x + y * y) / (x * x)"
    using assms by (simp add: field_simps power2_eq_square)
  then have "sqrt (1 + (y / x)\<^sup>2) = sqrt (x * x + y * y) / \<bar>x\<bar>"
    by (simp add: real_sqrt_divide)
  then show ?thesis
    by (simp add: cos_arctan)
qed

lemma sin_arctan_div:
  assumes "x \<noteq> 0"
  shows "sin (arctan (y / x)) = (y / x) * \<bar>x\<bar> / sqrt (x * x + y * y)"
proof -
  have "1 + (y / x)\<^sup>2 = (x * x + y * y) / (x * x)"
    using assms by (simp add: field_simps power2_eq_square)
  then have "sqrt (1 + (y / x)\<^sup>2) = sqrt (x * x + y * y) / \<bar>x\<bar>"
    by (simp add: real_sqrt_divide)
  then show ?thesis
    by (simp add: sin_arctan)
qed

text \<open>For a member of non-zero length the two ways the source computes the direction
  cosines agree: \<^verbatim>\<open>Math.cos(Math.atan2(dy, dx))\<close> is \<^verbatim>\<open>dx / L\<close>.\<close>

lemma cos_atan2:
  assumes "x \<noteq> 0 \<or> y \<noteq> 0"
  shows "cos (atan2 y x) = x / sqrt (x * x + y * y)"
proof (cases "x = 0")
  case True
  with assms have "y \<noteq> 0" by simp
  with True show ?thesis by (simp add: atan2_def)
next
  case False
  then show ?thesis
    by (auto simp: atan2_def cos_arctan_div)
qed

lemma sin_atan2:
  assumes "x \<noteq> 0 \<or> y \<noteq> 0"
  shows "sin (atan2 y x) = y / sqrt (x * x + y * y)"
proof (cases "x = 0")
  case True
  with assms have "y \<noteq> 0" by simp
  with True show ?thesis by (auto simp add: atan2_def real_sqrt_mult)
next
  case False
  then show ?thesis
    by (auto simp: atan2_def sin_arctan_div)
qed

lemma sqrt_sum_squares_zero_iff: "sqrt (x * x + y * y) = 0 \<longleftrightarrow> x = 0 \<and> y = 0"
  by simp


section \<open>Facts about the degree-of-freedom map\<close>

lemma findNode_snoc:
  "findNode (nodes @ [n]) k =
     (case findNode nodes k of Some m \<Rightarrow> Some m
      | None \<Rightarrow> if node_id n = k then Some n else None)"
  by (induction nodes) (simp_all add: findNode_def)

lemma findNode_Some_id: "findNode nodes k = Some n \<Longrightarrow> node_id n = k \<and> n \<in> set nodes"
  unfolding findNode_def by (induction nodes) (auto split: if_splits)

lemma findNode_None_iff: "findNode nodes k = None \<longleftrightarrow> k \<notin> node_id ` set nodes"
  unfolding findNode_def by (induction nodes) auto

lemma initializeDOF_snoc:
  "initializeDOF (nodes @ [n]) =
     (initializeDOF nodes)
       (node_id n @ ''-x'' \<mapsto> length nodes * 3,
        node_id n @ ''-y'' \<mapsto> length nodes * 3 + 1,
        node_id n @ ''-r'' \<mapsto> length nodes * 3 + 2)"
  by (simp add: initializeDOF_def enumerate_append_eq)

lemma initializeDOF_Nil: "initializeDOF [] = Map.empty"
  by (simp add: initializeDOF_def)

text \<open>An identity is mapped to the indices of the last node that carries it.\<close>

lemma initializeDOF_lookup:
  "(case findNode nodes k of
      None \<Rightarrow> initializeDOF nodes (k @ ''-x'') = None \<and> initializeDOF nodes (k @ ''-y'') = None
              \<and> initializeDOF nodes (k @ ''-r'') = None
    | Some n \<Rightarrow> (\<exists>i<length nodes. node_id (nodes ! i) = k \<and> 
          (\<forall>j<length nodes. node_id (nodes ! j) = k \<longrightarrow> j \<le> i) \<and>
          initializeDOF nodes (k @ ''-x'') = Some (i * 3) \<and>
          initializeDOF nodes (k @ ''-y'') = Some (i * 3 + 1) \<and>
          initializeDOF nodes (k @ ''-r'') = Some (i * 3 + 2)))"
proof (induction nodes rule: rev_induct)
  case Nil
  then show ?case by (simp add: findNode_def initializeDOF_Nil)
next
  case (snoc n nodes)
  show ?case
  proof (cases "node_id n = k")
    case True
    then have "findNode (nodes @ [n]) k \<noteq> None"
      by (simp add: findNode_snoc split: option.splits)
    then obtain m where m: "findNode (nodes @ [n]) k = Some m" by auto
    have "length nodes < length (nodes @ [n])" by simp
    moreover have "node_id ((nodes @ [n]) ! length nodes) = k" using True by simp
    moreover have "\<forall>j<length (nodes @ [n]). node_id ((nodes @ [n]) ! j) = k \<longrightarrow> j \<le> length nodes"
      by simp
    moreover have "initializeDOF (nodes @ [n]) (k @ ''-x'') = Some (length nodes * 3)"
      "initializeDOF (nodes @ [n]) (k @ ''-y'') = Some (length nodes * 3 + 1)"
      "initializeDOF (nodes @ [n]) (k @ ''-r'') = Some (length nodes * 3 + 2)"
      using True by (simp_all add: initializeDOF_snoc)
    ultimately show ?thesis
      unfolding m option.case by (intro exI[of _ "length nodes"]) simp
  next
    case False
    then have f: "findNode (nodes @ [n]) k = findNode nodes k"
      by (simp add: findNode_snoc split: option.splits)
    have d: "initializeDOF (nodes @ [n]) (k @ ''-x'') = initializeDOF nodes (k @ ''-x'')"
      "initializeDOF (nodes @ [n]) (k @ ''-y'') = initializeDOF nodes (k @ ''-y'')"
      "initializeDOF (nodes @ [n]) (k @ ''-r'') = initializeDOF nodes (k @ ''-r'')"
      using False by (simp_all add: initializeDOF_snoc)
    show ?thesis
    proof (cases "findNode nodes k")
      case None
      with snoc f d show ?thesis by simp
    next
      case (Some m)
      with snoc obtain i where i: "i < length nodes" "node_id (nodes ! i) = k"
        "\<forall>j<length nodes. node_id (nodes ! j) = k \<longrightarrow> j \<le> i"
        "initializeDOF nodes (k @ ''-x'') = Some (i * 3)"
        "initializeDOF nodes (k @ ''-y'') = Some (i * 3 + 1)"
        "initializeDOF nodes (k @ ''-r'') = Some (i * 3 + 2)"
        by auto
      have "\<forall>j<length (nodes @ [n]). node_id ((nodes @ [n]) ! j) = k \<longrightarrow> j \<le> i"
        using i(3) False by (auto simp: nth_append less_Suc_eq)
      with i show ?thesis
        unfolding f Some d option.case by (intro exI[of _ i]) (simp add: nth_append)
    qed
  qed
qed

lemma initializeDOF_found:
  assumes "findNode nodes k = Some n"
  shows "\<exists>i<length nodes. node_id (nodes ! i) = k \<and>
          (\<forall>j<length nodes. node_id (nodes ! j) = k \<longrightarrow> j \<le> i) \<and>
          initializeDOF nodes (k @ ''-x'') = Some (i * 3) \<and>
          initializeDOF nodes (k @ ''-y'') = Some (i * 3 + 1) \<and>
          initializeDOF nodes (k @ ''-r'') = Some (i * 3 + 2)"
  using initializeDOF_lookup [of nodes k] assms by simp

lemma initializeDOF_missing:
  assumes "findNode nodes k = None"
  shows "initializeDOF nodes (k @ ''-x'') = None \<and> initializeDOF nodes (k @ ''-y'') = None
          \<and> initializeDOF nodes (k @ ''-r'') = None"
  using initializeDOF_lookup [of nodes k] assms by simp


section \<open>Facts about the element formulator\<close>

lemma calculateLocalFixedEndForces_reference:
  "calculateLocalFixedEndForces member load (Some sn) (Some en) =
     Inr (referenceFixedEndForces (startRelease member) (endRelease member)
            (magnitude load) (position load) (memberLength sn en))"
proof -
  define L where "L = memberLength sn en"
  have L: "sqrt ((node_x en - node_x sn) * (node_x en - node_x sn)
                 + (node_y en - node_y sn) * (node_y en - node_y sn)) = L"
    by (simp add: L_def memberLength_def Let_def)
  show ?thesis
    unfolding calculateLocalFixedEndForces_def referenceFixedEndForces_def Let_def
      L_def [symmetric]
    by (cases "startRelease member"; cases "endRelease member")
       (simp_all add: L power2_eq_square power3_eq_cube mult_ac)
qed

lemma memberLength_nonzero_iff:
  "memberLength sn en \<noteq> 0 \<longleftrightarrow> node_x en - node_x sn \<noteq> 0 \<or> node_y en - node_y sn \<noteq> 0"
  by (simp add: memberLength_def Let_def)

lemma getGlobalFixedEndForces_rotation:
  assumes "memberLength sn en \<noteq> 0"
  shows "getGlobalFixedEndForces member load (Some sn) (Some en) =
     Inr (multiplyVec
            (transpose (rotationMatrix ((node_x en - node_x sn) / memberLength sn en)
                                       ((node_y en - node_y sn) / memberLength sn en)))
            (referenceFixedEndForces (startRelease member) (endRelease member)
               (magnitude load) (position load) (memberLength sn en)))"
proof -
  have nz: "node_x en - node_x sn \<noteq> 0 \<or> node_y en - node_y sn \<noteq> 0"
    using assms by (simp only: memberLength_nonzero_iff)
  show ?thesis
    unfolding getGlobalFixedEndForces_def
    by (simp add: Let_def calculateLocalFixedEndForces_reference cos_atan2 [OF nz] sin_atan2 [OF nz]
          memberLength_def)
qed

lemma fold_subtract_at:
  "fold (\<lambda>i F. F(idx ! i := F (idx ! i) - v ! i)) js (F :: nat \<Rightarrow> real) r =
     F r - (\<Sum>i\<leftarrow>js. if idx ! i = r then v ! i else 0)"
  by (induction js arbitrary: F) (auto simp: diff_diff_eq)

lemma sum_list_indicator_nth:
  assumes "distinct idx" "i < length idx" "n = length idx"
  shows "(\<Sum>j\<leftarrow>[0..<n]. if idx ! j = idx ! i then (v ! j :: real) else 0) = v ! i"
proof -
  have "(\<Sum>j\<leftarrow>[0..<n]. if idx ! j = idx ! i then v ! j else 0) =
        (\<Sum>j\<leftarrow>[0..<n]. if j = i then v ! j else 0)"
    using assms by (intro arg_cong[where f=sum_list] map_cong) (auto simp: nth_eq_iff_index_eq)
  also have "\<dots> = (\<Sum>j \<in> {0..<n}. if j = i then v ! j else 0)"
    by (simp add: interv_sum_list_conv_sum_set_nat)
  also have "\<dots> = v ! i"
    using assms by simp
  finally show ?thesis .
qed

lemma sum_list_indicator_none:
  assumes "r \<notin> set idx" "n = length idx"
  shows "(\<Sum>j\<leftarrow>[0..<n]. if idx ! j = r then (v ! j :: real) else 0) = 0"
proof -
  have "(\<Sum>j\<leftarrow>[0..<n]. if idx ! j = r then v ! j else 0) = (\<Sum>j\<leftarrow>[0..<n]. 0)"
    using assms by (intro arg_cong[where f=sum_list] map_cong) auto
  then show ?thesis by simp
qed

lemma dofIndices_length: "those (dofIndices dofMap sn en) = Some idx \<Longrightarrow> length idx = 6"
  by (auto simp: dofIndices_def split: option.splits)


lemma dofIndices_initializeDOF:
  assumes "findNode nodes a = Some sn" and "findNode nodes b = Some en" and "a \<noteq> b"
  shows "\<exists>i j. i < length nodes \<and> j < length nodes \<and> i \<noteq> j \<and>
           node_id (nodes ! i) = a \<and> node_id (nodes ! j) = b \<and>
           (\<forall>k<length nodes. node_id (nodes ! k) = a \<longrightarrow> k \<le> i) \<and>
           (\<forall>k<length nodes. node_id (nodes ! k) = b \<longrightarrow> k \<le> j) \<and>
           initializeDOF nodes (a @ ''-x'') = Some (i * 3) \<and>
           initializeDOF nodes (b @ ''-x'') = Some (j * 3) \<and>
           those (dofIndices (initializeDOF nodes) sn en) =
             Some [i * 3, i * 3 + 1, i * 3 + 2, j * 3, j * 3 + 1, j * 3 + 2]"
proof -
  from initializeDOF_found [OF assms(1)] obtain i where i: "i < length nodes"
    "node_id (nodes ! i) = a" "\<forall>k<length nodes. node_id (nodes ! k) = a \<longrightarrow> k \<le> i"
    "initializeDOF nodes (a @ ''-x'') = Some (i * 3)"
    "initializeDOF nodes (a @ ''-y'') = Some (i * 3 + 1)"
    "initializeDOF nodes (a @ ''-r'') = Some (i * 3 + 2)"
    by blast
  from initializeDOF_found [OF assms(2)] obtain j where j: "j < length nodes"
    "node_id (nodes ! j) = b" "\<forall>k<length nodes. node_id (nodes ! k) = b \<longrightarrow> k \<le> j"
    "initializeDOF nodes (b @ ''-x'') = Some (j * 3)"
    "initializeDOF nodes (b @ ''-y'') = Some (j * 3 + 1)"
    "initializeDOF nodes (b @ ''-r'') = Some (j * 3 + 2)"
    by blast
  have ids: "node_id sn = a" "node_id en = b"
    using assms findNode_Some_id by blast+
  have "i \<noteq> j" using i(2) j(2) assms(3) by auto
  moreover have "those (dofIndices (initializeDOF nodes) sn en) =
             Some [i * 3, i * 3 + 1, i * 3 + 2, j * 3, j * 3 + 1, j * 3 + 2]"
    by (simp add: dofIndices_def ids i j)
  ultimately show ?thesis
    using i j by blast
qed

lemma distinct_dof_list:
  "i \<noteq> j \<Longrightarrow> distinct [i * 3, i * 3 + 1, i * 3 + 2, j * 3, j * 3 + 1, j * (3::nat) + 2]"
  by (simp; arith)

lemma memberLength_same: "memberLength n n = 0"
  by (simp add: memberLength_def)

lemma valid_ends_differ:
  assumes "findNode nodes (startNodeId member) = Some sn"
    and "findNode nodes (endNodeId member) = Some en"
    and "memberLength sn en \<noteq> 0"
  shows "startNodeId member \<noteq> endNodeId member"
  using assms memberLength_same by force

lemma assembleLoad_subtracts:
  assumes "findMember members (memberId load) = Some member"
    and "findNode nodes (startNodeId member) = Some sn"
    and "findNode nodes (endNodeId member) = Some en"
    and "memberLength sn en \<noteq> 0"
  shows "\<exists>idx F'. those (dofIndices (initializeDOF nodes) sn en) = Some idx \<and>
           distinct idx \<and> length idx = 6 \<and>
           assembleLoad nodes members (initializeDOF nodes) load F = Inr F' \<and>
           (\<forall>i<6. F' (idx ! i) = F (idx ! i) -
              multiplyVec
                (transpose (rotationMatrix ((node_x en - node_x sn) / memberLength sn en)
                                           ((node_y en - node_y sn) / memberLength sn en)))
                (referenceFixedEndForces (startRelease member) (endRelease member)
                   (magnitude load) (position load) (memberLength sn en)) ! i) \<and>
           (\<forall>r. r \<notin> set idx \<longrightarrow> F' r = F r)"
proof -
  from dofIndices_initializeDOF [OF assms(2,3) valid_ends_differ [OF assms(2,3,4)]]
  obtain i j where ij: "i \<noteq> j"
    "those (dofIndices (initializeDOF nodes) sn en) =
       Some [i * 3, i * 3 + 1, i * 3 + 2, j * 3, j * 3 + 1, j * 3 + 2]"
    by blast
  define idx where "idx = [i * 3, i * 3 + 1, i * 3 + 2, j * 3, j * 3 + 1, j * 3 + 2]"
  have idx: "those (dofIndices (initializeDOF nodes) sn en) = Some idx" "distinct idx"
    "length idx = 6"
    using ij distinct_dof_list [OF ij(1)] by (simp_all add: idx_def)
  show ?thesis
    using assms idx
    by (simp add: getGlobalFixedEndForces_rotation assembleLoad_def fold_subtract_at
          sum_list_indicator_nth sum_list_indicator_none)
qed

lemma k_local_vals_reference:
  "k_local_vals member L =
     referenceLocalStiffness (startRelease member) (endRelease member)
       (prop_E (properties member)) (prop_I (properties member)) (prop_A (properties member)) L"
  by (cases "startRelease member"; cases "endRelease member")
     (simp_all add: k_local_vals_def referenceLocalStiffness_def beamColumnPattern_def
        zeroRowColumn_def upt_6 Let_def)


section \<open>Facts about the diagrams\<close>

lemma diagram_fold_closed:
  "fold (\<lambda>load (V, M, loadTerms).
           (let a = position load;
                P = magnitude load;
                theta = atan2 dy dx;
                Py_local = P * cos theta
            in if x > a then
                 (V + Py_local, M + Py_local * (x - a),
                  loadTerms + (Py_local / 6) * (x - a) ^ 3)
               else (V, M, loadTerms)))
        memberLoads (V0, M0, T0) =
     (V0 + (\<Sum>l\<leftarrow>filter (\<lambda>l. position l < x) memberLoads. transverseLoad dx dy l),
      M0 + (\<Sum>l\<leftarrow>filter (\<lambda>l. position l < x) memberLoads.
               transverseLoad dx dy l * (x - position l)),
      T0 + (\<Sum>l\<leftarrow>filter (\<lambda>l. position l < x) memberLoads.
               (transverseLoad dx dy l / 6) * (x - position l) ^ 3))"
  by (induction memberLoads arbitrary: V0 M0 T0) (simp_all add: Let_def transverseLoad_def)

lemma loadTerms_fold_closed:
  "fold (\<lambda>load loadTerms_L.
           (let a = position load;
                P = magnitude load;
                theta = atan2 dy dx;
                Py_local = P * cos theta
            in if x > a then loadTerms_L + (Py_local / 6) * (x - a) ^ 3
               else loadTerms_L))
        memberLoads T0 =
     T0 + (\<Sum>l\<leftarrow>filter (\<lambda>l. position l < x) memberLoads.
               (transverseLoad dx dy l / 6) * (x - position l) ^ 3)"
  by (induction memberLoads arbitrary: T0) (simp_all add: Let_def transverseLoad_def)

lemma diagramAt_closed:
  "diagramAt member dx dy f_local v1 theta_start memberLoads x =
     (f_local ! 1 + (\<Sum>l\<leftarrow>filter (\<lambda>l. position l < x) memberLoads. transverseLoad dx dy l),
      - (f_local ! 2) + f_local ! 1 * x
        + (\<Sum>l\<leftarrow>filter (\<lambda>l. position l < x) memberLoads.
               transverseLoad dx dy l * (x - position l)),
      (1 / (prop_E (properties member) * prop_I (properties member)))
        * (- (f_local ! 2) * x * x / 2 + f_local ! 1 * x * x * x / 6
           + (\<Sum>l\<leftarrow>filter (\<lambda>l. position l < x) memberLoads.
                 (transverseLoad dx dy l / 6) * (x - position l) ^ 3))
      + theta_start * x + v1)"
  unfolding diagramAt_def diagram_fold_closed by (simp add: Let_def)

lemma thetaStart_pinned:
  "startRelease member = Pinned \<Longrightarrow>
   thetaStart member dx dy L f_local d_member_local memberLoads =
     (d_member_local ! 4 - d_member_local ! 1
      - (1 / (prop_E (properties member) * prop_I (properties member)))
        * (- (f_local ! 2) * L * L / 2 + f_local ! 1 * L * L * L / 6
           + (\<Sum>l\<leftarrow>filter (\<lambda>l. position l < L) memberLoads.
                 (transverseLoad dx dy l / 6) * (L - position l) ^ 3))) / L"
  unfolding thetaStart_def loadTerms_fold_closed by (simp add: Let_def)

lemma thetaStart_fixed:
  "startRelease member = FixedRelease \<Longrightarrow>
   thetaStart member dx dy L f_local d_member_local memberLoads = d_member_local ! 2"
  unfolding thetaStart_def by (simp add: Let_def)

lemma L_in_evaluationPoints: "L \<in> set (evaluationPoints L memberLoads)"
proof -
  have "numPoints \<in> set [0..<Suc numPoints]" by simp
  then have "(real numPoints / real numPoints) * L
      \<in> (\<lambda>i. (real i / real numPoints) * L) ` set [0..<Suc numPoints]"
    by (rule imageI)
  then show ?thesis
    by (simp add: evaluationPoints_def numPoints_def)
qed

lemma diagram_lists:
  "shear (memberDiagram member dx dy L f_local d_member_local memberLoads) =
     map (\<lambda>x. fst (diagramAt member dx dy f_local (d_member_local ! 1)
                      (thetaStart member dx dy L f_local d_member_local memberLoads) memberLoads x))
         (evaluationPoints L memberLoads)"
  "moment (memberDiagram member dx dy L f_local d_member_local memberLoads) =
     map (\<lambda>x. fst (snd (diagramAt member dx dy f_local (d_member_local ! 1)
                      (thetaStart member dx dy L f_local d_member_local memberLoads) memberLoads x)))
         (evaluationPoints L memberLoads)"
  "displacement (memberDiagram member dx dy L f_local d_member_local memberLoads) =
     map (\<lambda>x. snd (snd (diagramAt member dx dy f_local (d_member_local ! 1)
                      (thetaStart member dx dy L f_local d_member_local memberLoads) memberLoads x)))
         (evaluationPoints L memberLoads)"
  "diagram_x (memberDiagram member dx dy L f_local d_member_local memberLoads) =
     evaluationPoints L memberLoads"
  by (simp_all add: memberDiagram_def Let_def case_prod_beta)

lemma evaluationPoints_set:
  "set (evaluationPoints L memberLoads) =
     (\<lambda>i. (real i / real numPoints) * L) ` {0..numPoints}
     \<union> position ` {l \<in> set memberLoads. 0 \<le> position l \<and> position l \<le> L}"
  unfolding evaluationPoints_def
  by (simp only: set_sort set_remdups set_append set_map set_upt set_filter
        atLeastLessThanSuc_atLeastAtMost)

lemma evaluationPoints_range:
  assumes "0 \<le> L" and "x \<in> set (evaluationPoints L memberLoads)"
  shows "0 \<le> x \<and> x \<le> L"
proof -
  have "0 \<le> (real i / real numPoints) * L \<and> (real i / real numPoints) * L \<le> L"
    if "i \<le> numPoints" for i
  proof -
    have "real i / real numPoints \<le> 1" and nn: "0 \<le> real i / real numPoints"
      using that by (simp_all add: numPoints_def)
    then have "(real i / real numPoints) * L \<le> 1 * L"
      using assms(1) by (intro mult_right_mono)
    moreover have "0 \<le> (real i / real numPoints) * L"
      using nn assms(1) by (intro mult_nonneg_nonneg)
    ultimately show ?thesis by simp
  qed
  then show ?thesis
    using assms(2) unfolding evaluationPoints_set by auto
qed

lemma position_in_evaluationPoints:
  assumes "0 \<le> L" and "l \<in> set memberLoads"
  shows "position l \<in> set (evaluationPoints L memberLoads) \<longleftrightarrow> 0 \<le> position l \<and> position l \<le> L"
proof
  assume "position l \<in> set (evaluationPoints L memberLoads)"
  then show "0 \<le> position l \<and> position l \<le> L"
    using evaluationPoints_range [OF assms(1)] by blast
next
  assume "0 \<le> position l \<and> position l \<le> L"
  then show "position l \<in> set (evaluationPoints L memberLoads)"
    using assms(2) unfolding evaluationPoints_set by blast
qed


section \<open>Facts about the phases of solve\<close>

lemma forEachE_ok:
  assumes "\<And>x s. x \<in> set xs \<Longrightarrow> \<exists>s'. f x s = Inr s'"
  shows "\<exists>s'. forEachE f xs s = Inr s'"
  using assms
proof (induction xs arbitrary: s)
  case Nil
  then show ?case by simp
next
  case (Cons x xs)
  from Cons.prems [of x s] obtain s1 where "f x s = Inr s1" by auto
  moreover from Cons.IH [of s1] Cons.prems obtain s2 where "forEachE f xs s1 = Inr s2"
    by auto
  ultimately show ?case by simp
qed

lemma forEachE_fail:
  assumes "\<And>x s. x \<in> set xs \<Longrightarrow> ok x \<Longrightarrow> \<exists>s'. f x s = Inr s'"
    and "\<And>x s. x \<in> set xs \<Longrightarrow> \<not> ok x \<Longrightarrow> \<exists>e. f x s = Inl e \<and> Q e"
    and "\<exists>x\<in>set xs. \<not> ok x"
  shows "\<exists>e. forEachE f xs s = Inl e \<and> Q e"
  using assms
proof (induction xs arbitrary: s)
  case Nil
  then show ?case by simp
next
  case (Cons x xs)
  show ?case
  proof (cases "ok x")
    case True
    with Cons.prems(1) [of x s] obtain s1 where s1: "f x s = Inr s1" by auto
    from True Cons.prems(3) have "\<exists>x\<in>set xs. \<not> ok x" by auto
    with Cons.IH [of s1] Cons.prems(1,2) obtain e where "forEachE f xs s1 = Inl e \<and> Q e"
      by (metis list.set_intros(2))
    with s1 show ?thesis by simp
  next
    case False
    with Cons.prems(2) [of x s] obtain e where "f x s = Inl e \<and> Q e" by auto
    then show ?thesis by simp
  qed
qed

lemma validMember_nodes:
  assumes "validMember nodes member"
  obtains sn en where "findNode nodes (startNodeId member) = Some sn"
    and "findNode nodes (endNodeId member) = Some en" and "memberLength sn en \<noteq> 0"
  using assms by (auto simp: validMember_def split: option.splits)

lemma getMember_Inr:
  assumes "memberLength sn en \<noteq> 0"
  shows "getMemberGlobalStiffnessMatrix member (Some sn) (Some en) =
     Inr (multiply (multiply
            (transpose (rotationMatrix ((node_x en - node_x sn) / memberLength sn en)
                                       ((node_y en - node_y sn) / memberLength sn en)))
            (k_local_vals member (memberLength sn en)))
          (rotationMatrix ((node_x en - node_x sn) / memberLength sn en)
                          ((node_y en - node_y sn) / memberLength sn en)))"
  using assms by (simp add: getMemberGlobalStiffnessMatrix_def memberLength_def Let_def)

lemma getMember_invalid:
  assumes "\<not> validMember nodes member"
  shows "\<exists>e. getMemberGlobalStiffnessMatrix member (findNode nodes (startNodeId member))
                (findNode nodes (endNodeId member)) = Inl e \<and> configurationFault e"
  using assms
  by (auto simp: validMember_def getMemberGlobalStiffnessMatrix_def memberLength_def Let_def
        configurationFault_def split: option.splits)

lemma assembleMemberStiffness_invalid:
  assumes "\<not> validMember nodes member"
  shows "\<exists>e. assembleMemberStiffness nodes dofMap member K = Inl e \<and> configurationFault e"
  using getMember_invalid [OF assms]
  by (auto simp: assembleMemberStiffness_def Let_def)

lemma assembleMemberStiffness_valid:
  assumes "validMember nodes member"
  shows "\<exists>K'. assembleMemberStiffness nodes (initializeDOF nodes) member K = Inr K'"
proof -
  from assms obtain sn en where n: "findNode nodes (startNodeId member) = Some sn"
    "findNode nodes (endNodeId member) = Some en" "memberLength sn en \<noteq> 0"
    by (rule validMember_nodes)
  from dofIndices_initializeDOF [OF n(1,2) valid_ends_differ [OF n]]
  obtain idx where "those (dofIndices (initializeDOF nodes) sn en) = Some idx" by blast
  then show ?thesis
    by (simp add: assembleMemberStiffness_def Let_def n getMember_Inr)
qed

lemma findMember_Some: "findMember members k = Some m \<Longrightarrow> m \<in> set members \<and> member_id m = k"
  unfolding findMember_def by (induction members) (auto split: if_splits)

lemma findMember_None_iff: "findMember members k = None \<longleftrightarrow> k \<notin> member_id ` set members"
  unfolding findMember_def by (induction members) auto

lemma assembleLoad_resolved:
  assumes "findMember members (memberId load) = Some member" and "validMember nodes member"
  shows "\<exists>F'. assembleLoad nodes members (initializeDOF nodes) load F = Inr F'"
proof -
  from assms(2) obtain sn en where n: "findNode nodes (startNodeId member) = Some sn"
    "findNode nodes (endNodeId member) = Some en" "memberLength sn en \<noteq> 0"
    by (rule validMember_nodes)
  from dofIndices_initializeDOF [OF n(1,2) valid_ends_differ [OF n]]
  obtain idx where "those (dofIndices (initializeDOF nodes) sn en) = Some idx" by blast
  then show ?thesis
    by (simp add: assembleLoad_def Let_def n assms(1) getGlobalFixedEndForces_rotation)
qed

lemma assembleLoad_unresolved:
  assumes "findMember members (memberId load) = None"
  shows "assembleLoad nodes members dofMap load F = Inl TypeError"
  using assms by (simp add: assembleLoad_def)

lemma fixedEndForceSum_Inr:
  "\<exists>f. fixedEndForceSum member loads (Some sn) (Some en) = Inr f"
  unfolding fixedEndForceSum_def
  by (rule forEachE_ok)
     (simp add: getGlobalFixedEndForces_def calculateLocalFixedEndForces_reference Let_def)

lemma memberDisplacements_Inr:
  assumes "findNode nodes a = Some sn" and "findNode nodes b = Some en"
  shows "\<exists>d. memberDisplacements (initializeDOF nodes) d_global sn en = Inr d"
proof -
  from initializeDOF_found [OF assms(1)] obtain i
    where "initializeDOF nodes (a @ ''-x'') = Some (i * 3)" by blast
  moreover from initializeDOF_found [OF assms(2)] obtain j
    where "initializeDOF nodes (b @ ''-x'') = Some (j * 3)" by blast
  moreover have "node_id sn = a" "node_id en = b"
    using assms findNode_Some_id by blast+
  ultimately show ?thesis
    by (simp add: memberDisplacements_def)
qed

lemma memberGlobalForces_Inr:
  assumes "validMember nodes member"
  shows "\<exists>f. memberGlobalForces (initializeDOF nodes) loads d_global member
               (findNode nodes (startNodeId member)) (findNode nodes (endNodeId member)) = Inr f"
proof -
  from assms obtain sn en where n: "findNode nodes (startNodeId member) = Some sn"
    "findNode nodes (endNodeId member) = Some en" "memberLength sn en \<noteq> 0"
    by (rule validMember_nodes)
  from memberDisplacements_Inr [OF n(1,2)] obtain d
    where d: "memberDisplacements (initializeDOF nodes) d_global sn en = Inr d" by blast
  from fixedEndForceSum_Inr obtain f
    where f: "fixedEndForceSum member loads (Some sn) (Some en) = Inr f" by blast
  show ?thesis
    by (simp add: memberGlobalForces_def n d f getMember_Inr)
qed

lemma memberResult_Inr:
  assumes "validMember nodes member"
  shows "\<exists>r. memberResult nodes (initializeDOF nodes) loads d_global member = Inr r"
proof -
  from assms obtain sn en where n: "findNode nodes (startNodeId member) = Some sn"
    "findNode nodes (endNodeId member) = Some en" "memberLength sn en \<noteq> 0"
    by (rule validMember_nodes)
  from memberDisplacements_Inr [OF n(1,2)] obtain d
    where d: "memberDisplacements (initializeDOF nodes) d_global sn en = Inr d" by blast
  from memberGlobalForces_Inr [OF assms] obtain f
    where f: "memberGlobalForces (initializeDOF nodes) loads d_global member
               (Some sn) (Some en) = Inr f"
    unfolding n by blast
  show ?thesis
    by (simp add: memberResult_def n d f Let_def)
qed

lemma nodeReaction_Inr:
  assumes "list_all (validMember nodes) members"
  shows "\<exists>r. nodeReaction nodes members (initializeDOF nodes) loads d_global node = Inr r"
  unfolding nodeReaction_def
proof (rule forEachE_ok)
  fix m and s :: Reaction
  assume "m \<in> set (filter (\<lambda>m. startNodeId m = node_id node \<or> endNodeId m = node_id node) members)"
  then have "validMember nodes m"
    using assms by (auto simp: list_all_iff)
  from memberGlobalForces_Inr [OF this] obtain f
    where "memberGlobalForces (initializeDOF nodes) loads d_global m
               (findNode nodes (startNodeId m)) (findNode nodes (endNodeId m)) = Inr f"
    by blast
  then show "\<exists>s'. (case memberGlobalForces (initializeDOF nodes) loads d_global m
                      (findNode nodes (startNodeId m)) (findNode nodes (endNodeId m)) of
                 Inl e \<Rightarrow> Inl e
               | Inr f_global \<Rightarrow>
                   if startNodeId m = node_id node
                   then Inr \<lparr>Fx = Fx s + f_global ! 0, Fy = Fy s + f_global ! 1,
                             Mz = Mz s + f_global ! 2\<rparr>
                   else Inr \<lparr>Fx = Fx s + f_global ! 3, Fy = Fy s + f_global ! 4,
                             Mz = Mz s + f_global ! 5\<rparr>) = Inr s'"
    by simp
qed

lemma reactionTable_Inr:
  assumes "list_all (validMember nodes) members"
  shows "\<exists>t. reactionTable nodes members supports (initializeDOF nodes) loads d_global = Inr t"
  unfolding reactionTable_def
proof (rule forEachE_ok)
  fix x :: Support and s :: "string \<rightharpoonup> Reaction"
  show "\<exists>s'. (case findNode nodes (support_nodeId x) of None \<Rightarrow> Inr s
        | Some node \<Rightarrow>
            (case nodeReaction nodes members (initializeDOF nodes) loads d_global node of
               Inl e \<Rightarrow> Inl e
             | Inr r \<Rightarrow> Inr (s(node_id node \<mapsto> r)))) = Inr s'"
  proof (cases "findNode nodes (support_nodeId x)")
    case None
    then show ?thesis by simp
  next
    case (Some node)
    from nodeReaction_Inr [OF assms] obtain r
      where "nodeReaction nodes members (initializeDOF nodes) loads d_global node = Inr r"
      by blast
    with Some show ?thesis by simp
  qed
qed

lemma calculateResults_Inr:
  assumes "list_all (validMember nodes) members"
  shows "\<exists>res. calculateResults nodes members supports loads (initializeDOF nodes) d_global = Inr res"
proof -
  have "\<exists>s'. forEachE (\<lambda>member (forces, diags).
                   case memberResult nodes (initializeDOF nodes) loads d_global member of
                     Inl e \<Rightarrow> Inl e
                   | Inr (mf, dg) \<Rightarrow>
                       Inr (forces(member_id member \<mapsto> mf), diags(member_id member \<mapsto> dg)))
                members (Map.empty, Map.empty) = Inr s'"
  proof (rule forEachE_ok)
    fix m and s :: "(string \<rightharpoonup> MemberForces) \<times> (string \<rightharpoonup> Diagram)"
    assume "m \<in> set members"
    then have "validMember nodes m" using assms by (simp add: list_all_iff)
    from memberResult_Inr [OF this] obtain r
      where "memberResult nodes (initializeDOF nodes) loads d_global m = Inr r" by blast
    then show "\<exists>s'. (case s of (forces, diags) \<Rightarrow>
                   (case memberResult nodes (initializeDOF nodes) loads d_global m of
                      Inl e \<Rightarrow> Inl e
                    | Inr (mf, dg) \<Rightarrow>
                        Inr (forces(member_id m \<mapsto> mf), diags(member_id m \<mapsto> dg)))) = Inr s'"
      by (cases s; cases r) simp
  qed
  then obtain fd where fd: "forEachE (\<lambda>member (forces, diags).
                   case memberResult nodes (initializeDOF nodes) loads d_global member of
                     Inl e \<Rightarrow> Inl e
                   | Inr (mf, dg) \<Rightarrow>
                       Inr (forces(member_id member \<mapsto> mf), diags(member_id member \<mapsto> dg)))
                members (Map.empty, Map.empty) = Inr fd" by blast
  from reactionTable_Inr [OF assms] obtain t
    where t: "reactionTable nodes members supports (initializeDOF nodes) loads d_global = Inr t"
    by blast
  show ?thesis
    unfolding calculateResults_def fd t by (cases fd) simp
qed

lemma assembleK_valid:
  assumes "list_all (validMember nodes) members"
  shows "\<exists>K. assembleK nodes (initializeDOF nodes) members = Inr K"
  unfolding assembleK_def
  by (rule forEachE_ok) (use assms assembleMemberStiffness_valid in \<open>auto simp: list_all_iff\<close>)

lemma assembleK_assembledStiffness:
  assumes "list_all (validMember nodes) members"
  shows "assembleK nodes (initializeDOF nodes) members = Inr (assembledStiffness nodes members)"
  using assembleK_valid [OF assms] by (auto simp: assembledStiffness_def)

lemma assembleK_invalid:
  assumes "\<not> list_all (validMember nodes) members"
  shows "\<exists>e. assembleK nodes (initializeDOF nodes) members = Inl e \<and> configurationFault e"
  unfolding assembleK_def
proof (rule forEachE_fail [where ok = "validMember nodes"])
  show "\<exists>x\<in>set members. \<not> validMember nodes x"
    using assms by (simp add: list_all_iff)
qed (use assembleMemberStiffness_valid assembleMemberStiffness_invalid in auto)

lemma assembleF_resolved:
  assumes "list_all (validMember nodes) members" and "list_all (resolvedLoad members) loads"
  shows "\<exists>F. assembleF nodes members (initializeDOF nodes) loads = Inr F"
  unfolding assembleF_def
proof (rule forEachE_ok)
  fix l F
  assume "l \<in> set loads"
  then obtain m where m: "findMember members (memberId l) = Some m"
    using assms(2) by (auto simp: list_all_iff resolvedLoad_def)
  then have "validMember nodes m"
    using assms(1) findMember_Some by (auto simp: list_all_iff)
  from assembleLoad_resolved [OF m this]
  show "\<exists>s'. assembleLoad nodes members (initializeDOF nodes) l F = Inr s'" .
qed

lemma assembleF_unresolved:
  assumes "list_all (validMember nodes) members" and "\<not> list_all (resolvedLoad members) loads"
  shows "assembleF nodes members (initializeDOF nodes) loads = Inl TypeError"
proof -
  have "\<exists>e. forEachE (assembleLoad nodes members (initializeDOF nodes)) loads (\<lambda>_. 0) = Inl e
          \<and> e = TypeError"
  proof (rule forEachE_fail [where ok = "resolvedLoad members"])
    show "\<exists>x\<in>set loads. \<not> resolvedLoad members x"
      using assms(2) by (simp add: list_all_iff)
  next
    fix l F
    assume "l \<in> set loads" "resolvedLoad members l"
    then obtain m where m: "findMember members (memberId l) = Some m"
      by (auto simp: resolvedLoad_def)
    then have "validMember nodes m"
      using assms(1) findMember_Some by (auto simp: list_all_iff)
    from assembleLoad_resolved [OF m this]
    show "\<exists>s'. assembleLoad nodes members (initializeDOF nodes) l F = Inr s'" .
  next
    fix l F
    assume "\<not> resolvedLoad members l"
    then show "\<exists>e. assembleLoad nodes members (initializeDOF nodes) l F = Inl e \<and> e = TypeError"
      by (simp add: resolvedLoad_def assembleLoad_unresolved)
  qed
  then show ?thesis by (simp add: assembleF_def)
qed

lemma solve_invalid_member:
  assumes "nodes \<noteq> []" and "\<not> list_all (validMember nodes) members"
  shows "\<exists>e. solve mathInv nodes members supports loads = Inl e \<and> configurationFault e"
  using assembleK_invalid [OF assms(2)] assms(1) by (auto simp: solve_def Let_def)

lemma solve_unresolved_load:
  assumes "nodes \<noteq> []" and "list_all (validMember nodes) members"
    and "\<not> list_all (resolvedLoad members) loads"
  shows "solve mathInv nodes members supports loads = Inl TypeError"
  using assms(1) assembleK_assembledStiffness [OF assms(2)] assembleF_unresolved [OF assms(2,3)]
  by (simp add: solve_def Let_def)


lemma solve_succeeds:
  assumes "nodes \<noteq> []" and "list_all (validMember nodes) members"
    and "list_all (resolvedLoad members) loads"
    and "finalFreeDOFs (initializeDOF nodes) (totalDOF nodes) supports = [] \<or>
         mathInv (freeStiffness nodes members supports) \<noteq> None"
  shows "\<exists>res. solve mathInv nodes members supports loads = Inr res"
proof -
  from assembleF_resolved [OF assms(2,3)] obtain F
    where "assembleF nodes members (initializeDOF nodes) loads = Inr F" by blast
  then show ?thesis
    using assms(1,4) assembleK_assembledStiffness [OF assms(2)] calculateResults_Inr [OF assms(2)]
    by (auto simp: solve_def Let_def freeStiffness_def)
qed


lemma forEachE_filter_skip:
  assumes "\<And>x s. x \<in> set xs \<Longrightarrow> \<not> P x \<Longrightarrow> f x s = Inr s"
  shows "forEachE f (filter P xs) s = forEachE f xs s"
  using assms
proof (induction xs arbitrary: s)
  case Nil
  then show ?case by simp
next
  case (Cons x xs)
  show ?case
  proof (cases "P x")
    case True
    then show ?thesis
      using Cons by (auto split: sum.splits)
  next
    case False
    then have "f x s = Inr s" using Cons.prems by simp
    with False Cons show ?thesis by simp
  qed
qed

lemma supportDOFs_unresolved:
  assumes "\<not> resolvedSupport nodes support"
  shows "Some d \<notin> set (supportDOFs (initializeDOF nodes) support)"
proof -
  from assms have "findNode nodes (support_nodeId support) = None"
    by (simp add: resolvedSupport_def)
  from initializeDOF_missing [OF this] show ?thesis
    by (cases "support_type support") (simp_all add: supportDOFs_def Let_def)
qed

lemma constrainedDOFs_resolved:
  "Some d \<in> set (constrainedDOFs (initializeDOF nodes) (filter (resolvedSupport nodes) supports))
   \<longleftrightarrow> Some d \<in> set (constrainedDOFs (initializeDOF nodes) supports)"
  using supportDOFs_unresolved by (induction supports) (auto simp: constrainedDOFs_def)

lemma finalFreeDOFs_resolved:
  "finalFreeDOFs (initializeDOF nodes) n (filter (resolvedSupport nodes) supports) =
   finalFreeDOFs (initializeDOF nodes) n supports"
  by (simp add: finalFreeDOFs_def constrainedDOFs_resolved)

lemma reactionTable_resolved:
  "reactionTable nodes members (filter (resolvedSupport nodes) supports) dofMap loads d_global =
   reactionTable nodes members supports dofMap loads d_global"
  unfolding reactionTable_def
  by (rule forEachE_filter_skip) (simp add: resolvedSupport_def)

lemma calculateResults_resolved:
  "calculateResults nodes members (filter (resolvedSupport nodes) supports) loads dofMap d_global =
   calculateResults nodes members supports loads dofMap d_global"
  unfolding calculateResults_def reactionTable_resolved ..

lemma solve_resolved_supports:
  "solve mathInv nodes members (filter (resolvedSupport nodes) supports) loads =
   solve mathInv nodes members supports loads"
  unfolding solve_def Let_def finalFreeDOFs_resolved calculateResults_resolved ..

lemma nodeDisplacementTable_snoc:
  "nodeDisplacementTable (nodes @ [n]) d =
     (nodeDisplacementTable nodes d)
       (node_id n \<mapsto> \<lparr>disp_dx = d (length nodes * 3), disp_dy = d (length nodes * 3 + 1),
                        disp_rotation = d (length nodes * 3 + 2)\<rparr>)"
  by (simp add: nodeDisplacementTable_def enumerate_append_eq)

text \<open>The displacement table and the degree-of-freedom map pick the same node of an identity.\<close>

lemma nodeDisplacementTable_lookup:
  "(case initializeDOF nodes (k @ ''-x'') of
      None \<Rightarrow> nodeDisplacementTable nodes d k = None
    | Some b \<Rightarrow> nodeDisplacementTable nodes d k =
        Some \<lparr>disp_dx = d b, disp_dy = d (b + 1), disp_rotation = d (b + 2)\<rparr>)"
proof (induction nodes rule: rev_induct)
  case Nil
  then show ?case by (simp add: initializeDOF_Nil nodeDisplacementTable_def)
next
  case (snoc n nodes)
  then show ?case
    by (cases "node_id n = k")
       (simp_all add: initializeDOF_snoc nodeDisplacementTable_snoc split: option.splits)
qed

lemma fold_update_outside:
  "r \<notin> snd ` set ps \<Longrightarrow> fold (\<lambda>(i, dof) d. d(dof := g i)) ps d r = d r"
  by (induction ps arbitrary: d) (auto split: prod.splits)

lemma scatter_outside:
  assumes "r \<notin> set dofs"
  shows "scatter dofs d_f r = 0"
proof -
  have "snd ` set (enumerate 0 dofs) = set dofs"
    by (metis list.set_map map_snd_enumerate)
  with assms show ?thesis
    unfolding scatter_def by (subst fold_update_outside) simp_all
qed

lemma finalFreeDOFs_set:
  "set (finalFreeDOFs dofMap n supports) =
     {dof. dof < n \<and> Some dof \<notin> set (constrainedDOFs dofMap supports)}"
  by (auto simp: finalFreeDOFs_def)

lemma supportDOFs_constrained:
  "support \<in> set supports \<Longrightarrow>
   set (supportDOFs dofMap support) \<subseteq> set (constrainedDOFs dofMap supports)"
  by (auto simp: constrainedDOFs_def)

lemma solve_displacements:
  assumes "solve mathInv nodes members supports loads = Inr res" and "nodes \<noteq> []"
  shows "\<exists>d. nodeDisplacements res = nodeDisplacementTable nodes d \<and>
             (\<forall>r. r \<notin> set (finalFreeDOFs (initializeDOF nodes) (totalDOF nodes) supports)
                   \<longrightarrow> d r = 0)"
proof -
  have cr: "nodeDisplacements r = nodeDisplacementTable nodes d"
    if "calculateResults nodes members supports loads (initializeDOF nodes) d = Inr r" for d r
    using that by (auto simp: calculateResults_def split: sum.splits prod.splits)
  show ?thesis
  proof (cases "finalFreeDOFs (initializeDOF nodes) (totalDOF nodes) supports = []")
    case True
    with assms have "calculateResults nodes members supports loads (initializeDOF nodes) (\<lambda>_. 0)
        = Inr res"
      by (auto simp: solve_def Let_def split: sum.splits)
    from cr [OF this] show ?thesis by auto
  next
    case False
    with assms obtain K_ff_inv F where
      "calculateResults nodes members supports loads (initializeDOF nodes)
         (scatter (finalFreeDOFs (initializeDOF nodes) (totalDOF nodes) supports)
            (multiplyVec K_ff_inv
               (subsetVector F (finalFreeDOFs (initializeDOF nodes) (totalDOF nodes) supports))))
        = Inr res"
      by (auto simp: solve_def Let_def split: sum.splits option.splits)
    from cr [OF this] show ?thesis
      using scatter_outside by blast
  qed
qed


section \<open>Global vertical equilibrium\<close>

subsection \<open>Well-formed members\<close>

lemma validMember_dofs:
  assumes "validMember nodes member"
  obtains sn en i j where "findNode nodes (startNodeId member) = Some sn"
    and "findNode nodes (endNodeId member) = Some en"
    and "memberLength sn en \<noteq> 0"
    and "i < length nodes" and "j < length nodes" and "i \<noteq> j"
    and "node_id (nodes ! i) = startNodeId member" and "node_id (nodes ! j) = endNodeId member"
    and "initializeDOF nodes (node_id sn @ ''-x'') = Some (i * 3)"
    and "initializeDOF nodes (node_id en @ ''-x'') = Some (j * 3)"
    and "memberDofs nodes member = [i * 3, i * 3 + 1, i * 3 + 2, j * 3, j * 3 + 1, j * 3 + 2]"
proof -
  from assms obtain sn en where n: "findNode nodes (startNodeId member) = Some sn"
    "findNode nodes (endNodeId member) = Some en" "memberLength sn en \<noteq> 0"
    by (rule validMember_nodes)
  from dofIndices_initializeDOF [OF n(1,2) valid_ends_differ [OF n]]
  obtain i j where ij: "i < length nodes" "j < length nodes" "i \<noteq> j"
    "node_id (nodes ! i) = startNodeId member" "node_id (nodes ! j) = endNodeId member"
    "initializeDOF nodes (startNodeId member @ ''-x'') = Some (i * 3)"
    "initializeDOF nodes (endNodeId member @ ''-x'') = Some (j * 3)"
    "those (dofIndices (initializeDOF nodes) sn en) =
       Some [i * 3, i * 3 + 1, i * 3 + 2, j * 3, j * 3 + 1, j * 3 + 2]"
    by blast
  have ids: "node_id sn = startNodeId member" "node_id en = endNodeId member"
    using n findNode_Some_id by blast+
  have "memberDofs nodes member = [i * 3, i * 3 + 1, i * 3 + 2, j * 3, j * 3 + 1, j * 3 + 2]"
    by (simp add: memberDofs_def n ij)
  with n ij ids show ?thesis
    by (intro that [of sn en i j]) simp_all
qed

lemma memberStiffness_valid:
  assumes "findNode nodes (startNodeId member) = Some sn"
    and "findNode nodes (endNodeId member) = Some en" and "memberLength sn en \<noteq> 0"
  shows "getMemberGlobalStiffnessMatrix member (Some sn) (Some en) =
           Inr (memberStiffness nodes member)"
  using assms by (simp add: memberStiffness_def getMember_Inr)

lemma memberLoadForces_valid:
  assumes "findNode nodes (startNodeId member) = Some sn"
    and "findNode nodes (endNodeId member) = Some en"
  shows "getGlobalFixedEndForces member load (Some sn) (Some en) =
           Inr (memberLoadForces nodes member load)"
  using assms
  by (simp add: memberLoadForces_def getGlobalFixedEndForces_def
        calculateLocalFixedEndForces_reference Let_def)

subsection \<open>The assembled stiffness matrix and load vector in closed form\<close>

lemma fold_add_at:
  "fold (\<lambda>(i, j) K. K((idx ! i, idx ! j) := K (idx ! i, idx ! j) + k ! i ! j)) ps
        (K :: nat \<times> nat \<Rightarrow> real) rc =
     K rc + (\<Sum>(i, j)\<leftarrow>ps. if (idx ! i, idx ! j) = rc then k ! i ! j else 0)"
  by (induction ps arbitrary: K) (auto simp: algebra_simps)

lemma assembleMemberStiffness_closed:
  assumes "validMember nodes member"
  shows "assembleMemberStiffness nodes (initializeDOF nodes) member K =
     Inr (\<lambda>rc. K rc + (\<Sum>(i, j)\<leftarrow>List.product [0..<6] [0..<6].
                  if (memberDofs nodes member ! i, memberDofs nodes member ! j) = rc
                  then memberStiffness nodes member ! i ! j else 0))"
proof -
  from assms obtain sn en where n: "findNode nodes (startNodeId member) = Some sn"
    "findNode nodes (endNodeId member) = Some en" "memberLength sn en \<noteq> 0"
    by (rule validMember_nodes)
  from dofIndices_initializeDOF [OF n(1,2) valid_ends_differ [OF n]]
  obtain idx where idx: "those (dofIndices (initializeDOF nodes) sn en) = Some idx" by blast
  then have D: "memberDofs nodes member = idx"
    by (simp add: memberDofs_def n)
  show ?thesis
    unfolding assembleMemberStiffness_def Let_def n memberStiffness_valid [OF n] D
    by (simp add: idx fold_add_at fun_eq_iff)
qed

lemma forEachE_stiffness_closed:
  assumes "list_all (validMember nodes) ms"
  shows "forEachE (assembleMemberStiffness nodes (initializeDOF nodes)) ms K =
     Inr (\<lambda>rc. K rc + (\<Sum>m\<leftarrow>ms. \<Sum>(i, j)\<leftarrow>List.product [0..<6] [0..<6].
                  if (memberDofs nodes m ! i, memberDofs nodes m ! j) = rc
                  then memberStiffness nodes m ! i ! j else 0))"
  using assms
proof (induction ms arbitrary: K)
  case Nil
  then show ?case by simp
next
  case (Cons m ms)
  then show ?case
    by (simp add: assembleMemberStiffness_closed fun_eq_iff algebra_simps)
qed

lemma assembledStiffness_closed:
  assumes "list_all (validMember nodes) members"
  shows "assembledStiffness nodes members rc =
     (\<Sum>m\<leftarrow>members. \<Sum>(i, j)\<leftarrow>List.product [0..<6] [0..<6].
         if (memberDofs nodes m ! i, memberDofs nodes m ! j) = rc
         then memberStiffness nodes m ! i ! j else 0)"
  by (simp add: assembledStiffness_def assembleK_def forEachE_stiffness_closed [OF assms])

lemma assembleLoad_closed:
  assumes "findMember members (memberId load) = Some member" and "validMember nodes member"
  shows "assembleLoad nodes members (initializeDOF nodes) load F =
     Inr (\<lambda>r. F r - (\<Sum>i\<leftarrow>[0..<6]. if memberDofs nodes member ! i = r
                                     then memberLoadForces nodes member load ! i else 0))"
proof -
  from assms(2) obtain sn en where n: "findNode nodes (startNodeId member) = Some sn"
    "findNode nodes (endNodeId member) = Some en" "memberLength sn en \<noteq> 0"
    by (rule validMember_nodes)
  from dofIndices_initializeDOF [OF n(1,2) valid_ends_differ [OF n]]
  obtain idx where idx: "those (dofIndices (initializeDOF nodes) sn en) = Some idx" by blast
  then have D: "memberDofs nodes member = idx"
    by (simp add: memberDofs_def n)
  show ?thesis
    unfolding assembleLoad_def assms(1) option.case Let_def n
      memberLoadForces_valid [OF n(1,2)] D
    by (simp add: idx fold_subtract_at fun_eq_iff)
qed



lemma forEachE_load_closed:
  assumes "list_all (validMember nodes) members" and "list_all (resolvedLoad members) ls"
  shows "forEachE (assembleLoad nodes members (initializeDOF nodes)) ls F =
     Inr (\<lambda>r. F r - (\<Sum>l\<leftarrow>ls. \<Sum>m\<leftarrow>loadMembers members l. \<Sum>i\<leftarrow>[0..<6].
                        if memberDofs nodes m ! i = r
                        then memberLoadForces nodes m l ! i else 0))"
  using assms(2)
proof (induction ls arbitrary: F)
  case Nil
  then show ?case by simp
next
  case (Cons l ls)
  then obtain m where m: "findMember members (memberId l) = Some m"
    by (auto simp: resolvedLoad_def)
  then have v: "validMember nodes m"
    using assms(1) findMember_Some by (auto simp: list_all_iff)
  have lm: "loadMembers members l = [m]"
    by (simp add: loadMembers_def m)
  from Cons show ?case
    by (simp add: assembleLoad_closed [OF m v] lm fun_eq_iff algebra_simps)
qed

lemma assembleF_closed:
  assumes "list_all (validMember nodes) members" and "list_all (resolvedLoad members) loads"
  shows "assembleF nodes members (initializeDOF nodes) loads =
     Inr (\<lambda>r. - (\<Sum>l\<leftarrow>loads. \<Sum>m\<leftarrow>loadMembers members l. \<Sum>i\<leftarrow>[0..<6].
                        if memberDofs nodes m ! i = r
                        then memberLoadForces nodes m l ! i else 0))"
  by (simp add: assembleF_def forEachE_load_closed [OF assms])

subsection \<open>Regularization and scatter in closed form\<close>

lemma fold_stabilize:
  assumes "distinct js"
  shows "fold (\<lambda>i K. if \<bar>K (i, i)\<bar> < 1 / 10 ^ 9 then K((i, i) := 1) else K) js
           (K :: nat \<times> nat \<Rightarrow> real) (r, c) =
         (if r = c \<and> r \<in> set js \<and> \<bar>K (r, c)\<bar> < 1 / 10 ^ 9 then 1 else K (r, c))"
  using assms by (induction js arbitrary: K) auto

lemma stabilize_closed:
  "stabilize n K (r, c) = (if r = c \<and> r < n \<and> \<bar>K (r, c)\<bar> < 1 / 10 ^ 9 then 1 else K (r, c))"
  unfolding stabilize_def by (subst fold_stabilize) simp_all

lemma fold_update_inside:
  assumes "distinct (map snd ps)" and "(i, dof) \<in> set ps"
  shows "fold (\<lambda>(i, dof) d. d(dof := g i)) ps d dof = g i"
  using assms
proof (induction ps arbitrary: d)
  case Nil
  then show ?case by simp
next
  case (Cons p ps)
  show ?case
  proof (cases "p = (i, dof)")
    case True
    with Cons.prems(1) have out: "dof \<notin> snd ` set ps" by auto
    have "fold (\<lambda>(i, dof) d. d(dof := g i)) (p # ps) d dof =
          fold (\<lambda>(i, dof) d. d(dof := g i)) ps (d(dof := g i)) dof"
      unfolding True by simp
    also have "\<dots> = (d(dof := g i)) dof"
      using out by (rule fold_update_outside)
    also have "\<dots> = g i" by simp
    finally show ?thesis .
  next
    case False
    with Cons show ?thesis by (auto split: prod.splits)
  qed
qed

lemma scatter_inside:
  assumes "distinct dofs" and "a < length dofs"
  shows "scatter dofs d_f (dofs ! a) = d_f ! a"
proof -
  have "(a, dofs ! a) \<in> set (enumerate 0 dofs)"
    using assms(2) by (simp add: in_set_enumerate_eq)
  moreover have "distinct (map snd (enumerate 0 dofs))"
    using assms(1) by simp
  ultimately show ?thesis
    unfolding scatter_def by (rule fold_update_inside [rotated])
qed

lemma finalFreeDOFs_distinct: "distinct (finalFreeDOFs dofMap n supports)"
  by (simp add: finalFreeDOFs_def)

subsection \<open>A right inverse solves the linear system\<close>

lemma dot_sum:
  assumes "length u = length v"
  shows "dot u v = (\<Sum>k<length u. u ! k * v ! k)"
proof -
  have "dot u v = (\<Sum>k = 0..<length (map2 (*) u v). map2 (*) u v ! k)"
    unfolding dot_def by (rule sum_list_sum_nth)
  also have "\<dots> = (\<Sum>k<length u. u ! k * v ! k)"
    using assms by (intro sum.cong) (auto simp: lessThan_atLeast0)
  finally show ?thesis .
qed

lemma multiplyVec_nth:
  assumes "i < length A" and "length (A ! i) = length v"
  shows "multiplyVec A v ! i = (\<Sum>k<length v. A ! i ! k * v ! k)"
  using assms by (simp add: multiplyVec_def dot_sum)

lemma multiply_nth:
  assumes "i < length A" and "j < n" and "length (A ! i) = length B" and "B \<noteq> []"
    and "\<And>k. k < length B \<Longrightarrow> length (B ! k) = n"
  shows "multiply A B ! i ! j = (\<Sum>k<length B. A ! i ! k * B ! k ! j)"
proof -
  have t: "transpose B = map (\<lambda>j. map (\<lambda>k. B ! k ! j) [0..<length B]) [0..<n]"
    by (rule transpose_rectangle) (use assms in auto)
  have "multiply A B ! i ! j = dot (A ! i) (map (\<lambda>k. B ! k ! j) [0..<length B])"
    using assms(1,2) by (simp add: multiply_def t)
  also have "\<dots> = (\<Sum>k<length B. A ! i ! k * B ! k ! j)"
    using assms(3) by (subst dot_sum) auto
  finally show ?thesis .
qed

lemma identityMatrix_nth:
  "i < n \<Longrightarrow> j < n \<Longrightarrow> identityMatrix n ! i ! j = (if i = j then 1 else 0)"
  by (simp add: identityMatrix_def)

lemma inverse_solves:
  assumes inv: "inverseOf M Mi" and sq: "\<And>i. i < length M \<Longrightarrow> length (M ! i) = length M"
    and v: "length v = length M" and i: "i < length M"
  shows "(\<Sum>k<length M. M ! i ! k * multiplyVec Mi v ! k) = v ! i"
proof -
  let ?n = "length M"
  have len: "length Mi = ?n" and rows: "\<And>k. k < ?n \<Longrightarrow> length (Mi ! k) = ?n"
    and prod: "multiply M Mi = identityMatrix ?n"
    using inv by (auto simp: inverseOf_def list_all_length)
  have ne: "Mi \<noteq> []" using len i by auto
  have w: "multiplyVec Mi v ! k = (\<Sum>j<?n. Mi ! k ! j * v ! j)" if "k < ?n" for k
    using that multiplyVec_nth [of k Mi v] len rows v by simp
  have "(\<Sum>k<?n. M ! i ! k * multiplyVec Mi v ! k) =
        (\<Sum>k<?n. \<Sum>j<?n. M ! i ! k * Mi ! k ! j * v ! j)"
    by (intro sum.cong refl) (simp add: w sum_distrib_left mult.assoc)
  also have "\<dots> = (\<Sum>j<?n. \<Sum>k<?n. M ! i ! k * Mi ! k ! j * v ! j)"
    by (rule sum.swap)
  also have "\<dots> = (\<Sum>j<?n. multiply M Mi ! i ! j * v ! j)"
  proof (intro sum.cong refl)
    fix j assume "j \<in> {..<?n}"
    then have j: "j < ?n" by simp
    have "multiply M Mi ! i ! j = (\<Sum>k<length Mi. M ! i ! k * Mi ! k ! j)"
      by (rule multiply_nth [OF i j]) (use sq i len rows ne in auto)
    then show "(\<Sum>k<?n. M ! i ! k * Mi ! k ! j * v ! j) = multiply M Mi ! i ! j * v ! j"
      by (simp add: len sum_distrib_right)
  qed
  also have "\<dots> = (\<Sum>j<?n. (if i = j then 1 else 0) * v ! j)"
    using i by (intro sum.cong refl) (simp add: prod identityMatrix_nth)
  also have "\<dots> = v ! i"
    using i by (simp add: if_distrib [of "\<lambda>x. x * _"] cong: if_cong)
  finally show ?thesis .
qed

subsection \<open>What a successful solve has computed\<close>

lemma solve_Inr_wellformed:
  assumes "solve mathInv nodes members supports loads = Inr res" and "nodes \<noteq> []"
  shows "list_all (validMember nodes) members \<and> list_all (resolvedLoad members) loads"
proof -
  have v: "list_all (validMember nodes) members"
    using assms solve_invalid_member [of nodes members mathInv supports loads] by auto
  moreover have "list_all (resolvedLoad members) loads"
    using assms v solve_unresolved_load [of nodes members loads mathInv supports] by auto
  ultimately show ?thesis by simp
qed

lemma free_system_solution:
  assumes inv: "inverseOf (subsetMatrix K' free) Ki" and dist: "distinct free"
    and bound: "\<And>r. r \<in> set free \<Longrightarrow> r < n" and r: "r \<in> set free"
  shows "(\<Sum>c<n. K' (r, c) * scatter free (multiplyVec Ki (subsetVector F free)) c) = F r"
proof -
  let ?m = "length free"
  let ?d_f = "multiplyVec Ki (subsetVector F free)"
  let ?d = "scatter free ?d_f"
  from r obtain a where a: "a < ?m" "free ! a = r"
    by (auto simp: in_set_conv_nth)
  have "(\<Sum>c<n. K' (r, c) * ?d c) = (\<Sum>c\<in>set free. K' (r, c) * ?d c)"
  proof (rule sum.mono_neutral_right)
    show "set free \<subseteq> {..<n}" using bound by auto
    show "\<forall>c\<in>{..<n} - set free. K' (r, c) * ?d c = 0"
      by (simp add: scatter_outside)
  qed simp
  also have "\<dots> = (\<Sum>b<?m. K' (r, free ! b) * ?d (free ! b))"
  proof -
    have "inj_on ((!) free) {..<?m}"
      using dist by (auto simp: inj_on_def nth_eq_iff_index_eq)
    moreover have "(!) free ` {..<?m} = set free"
      by (auto simp: in_set_conv_nth)
    ultimately show ?thesis
      using sum.reindex [of "(!) free" "{..<?m}" "\<lambda>c. K' (r, c) * ?d c"] by simp
  qed
  also have "\<dots> = (\<Sum>b<?m. subsetMatrix K' free ! a ! b * ?d_f ! b)"
    using a by (intro sum.cong refl) (simp add: subsetMatrix_def scatter_inside [OF dist])
  also have "\<dots> = subsetVector F free ! a"
    using inverse_solves [OF inv, of "subsetVector F free" a] a(1)
    by (simp add: subsetMatrix_def subsetVector_def)
  also have "\<dots> = F r"
    using a by (simp add: subsetVector_def)
  finally show ?thesis .
qed

lemma finalFreeDOFs_bound: "r \<in> set (finalFreeDOFs dofMap n supports) \<Longrightarrow> r < n"
  by (simp add: finalFreeDOFs_def)

lemma solve_system:
  assumes res: "solve mathInv nodes members supports loads = Inr res" and ne: "nodes \<noteq> []"
    and inv: "\<And>Mi. mathInv (freeStiffness nodes members supports) = Some Mi \<Longrightarrow>
                   inverseOf (freeStiffness nodes members supports) Mi"
  shows "\<exists>d F. assembleF nodes members (initializeDOF nodes) loads = Inr F \<and>
           calculateResults nodes members supports loads (initializeDOF nodes) d = Inr res \<and>
           (\<forall>r\<in>set (finalFreeDOFs (initializeDOF nodes) (totalDOF nodes) supports).
              (\<Sum>c<totalDOF nodes.
                 stabilize (totalDOF nodes) (assembledStiffness nodes members) (r, c) * d c) = F r)"
proof -
  let ?free = "finalFreeDOFs (initializeDOF nodes) (totalDOF nodes) supports"
  let ?K' = "stabilize (totalDOF nodes) (assembledStiffness nodes members)"
  from solve_Inr_wellformed [OF res ne]
  have wf: "list_all (validMember nodes) members" "list_all (resolvedLoad members) loads"
    by simp_all
  note K = assembleK_assembledStiffness [OF wf(1)]
  from assembleF_resolved [OF wf] obtain F
    where F: "assembleF nodes members (initializeDOF nodes) loads = Inr F" by blast
  show ?thesis
  proof (cases "?free = []")
    case True
    with res ne K F
    have "calculateResults nodes members supports loads (initializeDOF nodes) (\<lambda>_. 0) = Inr res"
      by (simp add: solve_def Let_def)
    with F True show ?thesis by auto
  next
    case False
    with res ne K F obtain Ki where Ki: "mathInv (freeStiffness nodes members supports) = Some Ki"
      and cr: "calculateResults nodes members supports loads (initializeDOF nodes)
                 (scatter ?free (multiplyVec Ki (subsetVector F ?free))) = Inr res"
      by (auto simp: solve_def Let_def freeStiffness_def split: option.splits)
    from inv [OF Ki] have "inverseOf (subsetMatrix ?K' ?free) Ki"
      by (simp add: freeStiffness_def)
    then have "\<forall>r\<in>set ?free.
            (\<Sum>c<totalDOF nodes. ?K' (r, c) * scatter ?free (multiplyVec Ki (subsetVector F ?free)) c)
            = F r"
      using free_system_solution [where K' = ?K' and free = ?free and Ki = Ki
          and n = "totalDOF nodes" and F = F]
        finalFreeDOFs_distinct [of "initializeDOF nodes" "totalDOF nodes" supports]
        finalFreeDOFs_bound [of _ "initializeDOF nodes" "totalDOF nodes" supports]
      by blast
    with F cr show ?thesis by blast
  qed
qed

subsection \<open>Element matrices and vectors of a well-formed member\<close>

lemma lt_6_cases:
  assumes "b < (6::nat)"
  obtains "b = 0" | "b = 1" | "b = 2" | "b = 3" | "b = 4" | "b = 5"
  using assms by linarith

lemma memberStiffness_eq:
  assumes "findNode nodes (startNodeId member) = Some sn"
    and "findNode nodes (endNodeId member) = Some en" and "memberLength sn en \<noteq> 0"
  shows "memberStiffness nodes member =
     multiply (multiply
        (transpose (rotationMatrix ((node_x en - node_x sn) / memberLength sn en)
                                   ((node_y en - node_y sn) / memberLength sn en)))
        (k_local_vals member (memberLength sn en)))
      (rotationMatrix ((node_x en - node_x sn) / memberLength sn en)
                      ((node_y en - node_y sn) / memberLength sn en))"
  using assms by (simp add: memberStiffness_def getMember_Inr)

lemma transpose_rotationMatrix:
  "transpose (rotationMatrix c s) =
     [[c, - s, 0, 0, 0, 0],
      [s, c, 0, 0, 0, 0],
      [0, 0, 1, 0, 0, 0],
      [0, 0, 0, c, - s, 0],
      [0, 0, 0, s, c, 0],
      [0, 0, 0, 0, 0, 1]]"
  by (simp add: rotationMatrix_def)

lemma k_local_vals_length: "length (k_local_vals member L) = 6"
  by (simp add: k_local_vals_def Let_def)

lemma multiply_length: "length (multiply A B) = length A"
  by (simp add: multiply_def)

lemma multiply_row_length: "a < length A \<Longrightarrow> length (multiply A B ! a) = length (transpose B)"
  by (simp add: multiply_def)

lemma rotated_stiffness_dims:
  "length (multiply (multiply (transpose (rotationMatrix c s)) K) (rotationMatrix c s)) = 6"
  "a < 6 \<Longrightarrow>
   length (multiply (multiply (transpose (rotationMatrix c s)) K) (rotationMatrix c s) ! a) = 6"
  by (simp_all add: multiply_length multiply_row_length transpose_rotationMatrix)

lemma rotated_pattern_rows_cancel:
  assumes "b < 6"
  shows "multiply (multiply (transpose (rotationMatrix c s)) (beamColumnPattern w1 w2 w3 w4 w5))
           (rotationMatrix c s) ! 1 ! b
       + multiply (multiply (transpose (rotationMatrix c s)) (beamColumnPattern w1 w2 w3 w4 w5))
           (rotationMatrix c s) ! 4 ! b = 0"
    and "multiply (multiply (transpose (rotationMatrix c s))
                     (zeroRowColumn 2 (beamColumnPattern w1 w2 w3 w4 w5)))
           (rotationMatrix c s) ! 1 ! b
       + multiply (multiply (transpose (rotationMatrix c s))
                     (zeroRowColumn 2 (beamColumnPattern w1 w2 w3 w4 w5)))
           (rotationMatrix c s) ! 4 ! b = 0"
    and "multiply (multiply (transpose (rotationMatrix c s))
                     (zeroRowColumn 5 (beamColumnPattern w1 w2 w3 w4 w5)))
           (rotationMatrix c s) ! 1 ! b
       + multiply (multiply (transpose (rotationMatrix c s))
                     (zeroRowColumn 5 (beamColumnPattern w1 w2 w3 w4 w5)))
           (rotationMatrix c s) ! 4 ! b = 0"
  using assms
  by (elim lt_6_cases;
      simp add: transpose_rotationMatrix multiply_def dot_def beamColumnPattern_def
        zeroRowColumn_def upt_6 rotationMatrix_def)+

lemma rotated_stiffness_rows_cancel:
  assumes "b < 6"
  shows "multiply (multiply (transpose (rotationMatrix c s)) (k_local_vals member L))
           (rotationMatrix c s) ! 1 ! b
       + multiply (multiply (transpose (rotationMatrix c s)) (k_local_vals member L))
           (rotationMatrix c s) ! 4 ! b = 0"
  unfolding k_local_vals_reference referenceLocalStiffness_def
  by (cases "startRelease member"; cases "endRelease member")
     (simp_all only: rotated_pattern_rows_cancel [OF assms] prod.case MemberRelease.case)

lemma memberStiffness_dims:
  assumes "validMember nodes member"
  shows "length (memberStiffness nodes member) = 6"
    and "a < 6 \<Longrightarrow> length (memberStiffness nodes member ! a) = 6"
    and "b < 6 \<Longrightarrow> memberStiffness nodes member ! 1 ! b + memberStiffness nodes member ! 4 ! b = 0"
proof -
  from assms obtain sn en where n: "findNode nodes (startNodeId member) = Some sn"
    "findNode nodes (endNodeId member) = Some en" "memberLength sn en \<noteq> 0"
    by (rule validMember_nodes)
  note eq = memberStiffness_eq [OF n]
  show "length (memberStiffness nodes member) = 6"
    unfolding eq by (rule rotated_stiffness_dims)
  show "a < 6 \<Longrightarrow> length (memberStiffness nodes member ! a) = 6"
    unfolding eq by (rule rotated_stiffness_dims)
  show "b < 6 \<Longrightarrow> memberStiffness nodes member ! 1 ! b + memberStiffness nodes member ! 4 ! b = 0"
    unfolding eq by (rule rotated_stiffness_rows_cancel)
qed

lemma referenceFixedEndForces_shape:
  "length (referenceFixedEndForces sr er P a L) = 6"
  "referenceFixedEndForces sr er P a L ! 0 = 0"
  "referenceFixedEndForces sr er P a L ! 3 = 0"
  by (cases sr; cases er; simp add: referenceFixedEndForces_def Let_def)+

lemma referenceFixedEndForces_shear_sum:
  assumes "L \<noteq> 0"
  shows "referenceFixedEndForces sr er P a L ! 1 + referenceFixedEndForces sr er P a L ! 4 = - P"
proof -
  define Vs where "Vs = - (P * (L - a)\<^sup>2 * (3 * a + (L - a))) / L ^ 3"
  define Ve where "Ve = - (P * a\<^sup>2 * (a + 3 * (L - a))) / L ^ 3"
  define Ms where "Ms = - (P * a * (L - a)\<^sup>2) / L\<^sup>2"
  define Me where "Me = P * a\<^sup>2 * (L - a) / L\<^sup>2"
  have cube: "Vs + Ve = - P"
  proof -
    define X where "X = P * (L - a)\<^sup>2 * (3 * a + (L - a))"
    define Y where "Y = P * a\<^sup>2 * (a + 3 * (L - a))"
    have sum: "X + Y = P * L ^ 3"
      by (simp add: X_def Y_def power2_eq_square power3_eq_cube algebra_simps)
    have "- X / L ^ 3 + - Y / L ^ 3 = - ((X + Y) / L ^ 3)"
      by (simp add: add_divide_distrib)
    also have "\<dots> = - P"
      using sum assms by simp
    finally show ?thesis
      by (simp add: X_def Y_def Vs_def Ve_def)
  qed
  have lin: "- (P * (L - a)) / L + - (P * a) / L = - P"
  proof -
    have "- (P * (L - a)) / L + - (P * a) / L = - ((P * (L - a) + P * a) / L)"
      by (simp add: add_divide_distrib)
    also have "P * (L - a) + P * a = P * L"
      by (simp add: algebra_simps)
    finally show ?thesis using assms by simp
  qed
  have ref: "referenceFixedEndForces sr er P a L =
     (case (sr, er) of
        (FixedRelease, FixedRelease) \<Rightarrow> [0, Vs, Ms, 0, Ve, Me]
      | (Pinned, Pinned) \<Rightarrow> [0, - (P * (L - a)) / L, 0, 0, - (P * a) / L, 0]
      | (Pinned, FixedRelease) \<Rightarrow>
          [0, Vs + 1.5 * (- Ms) / L, 0, 0, Ve - 1.5 * (- Ms) / L, Me + (- Ms) / 2]
      | (FixedRelease, Pinned) \<Rightarrow>
          [0, Vs + 1.5 * (- Me) / L, Ms + (- Me) / 2, 0, Ve - 1.5 * (- Me) / L, 0])"
    unfolding referenceFixedEndForces_def Let_def Vs_def Ve_def Ms_def Me_def ..
  show ?thesis
    unfolding ref
    by (cases sr; cases er) (use cube lin in simp_all)
qed

lemma memberLoadForces_eq:
  assumes "findNode nodes (startNodeId member) = Some sn"
    and "findNode nodes (endNodeId member) = Some en" and "memberLength sn en \<noteq> 0"
  shows "memberLoadForces nodes member load =
     multiplyVec
       (transpose (rotationMatrix ((node_x en - node_x sn) / memberLength sn en)
                                  ((node_y en - node_y sn) / memberLength sn en)))
       (referenceFixedEndForces (startRelease member) (endRelease member)
          (magnitude load) (position load) (memberLength sn en))"
  using assms by (simp add: memberLoadForces_def getGlobalFixedEndForces_rotation)

lemma rotated_forces:
  assumes "length f = 6" and "f ! 0 = 0" and "f ! 3 = 0"
  shows "length (multiplyVec (transpose (rotationMatrix c s)) f) = 6"
    and "multiplyVec (transpose (rotationMatrix c s)) f ! 1
         + multiplyVec (transpose (rotationMatrix c s)) f ! 4 = c * (f ! 1 + f ! 4)"
proof -
  from assms(1) obtain f0 f1 f2 f3 f4 f5 where f: "f = [f0, f1, f2, f3, f4, f5]"
    by (auto simp: length_Suc_conv eval_nat_numeral)
  show "length (multiplyVec (transpose (rotationMatrix c s)) f) = 6"
    by (simp add: multiplyVec_def transpose_rotationMatrix)
  show "multiplyVec (transpose (rotationMatrix c s)) f ! 1
         + multiplyVec (transpose (rotationMatrix c s)) f ! 4 = c * (f ! 1 + f ! 4)"
    using assms(2,3) unfolding f
    by (simp add: multiplyVec_def transpose_rotationMatrix dot_def algebra_simps)
qed

lemma memberLoadForces_props:
  assumes "findNode nodes (startNodeId member) = Some sn"
    and "findNode nodes (endNodeId member) = Some en" and "memberLength sn en \<noteq> 0"
  shows "length (memberLoadForces nodes member load) = 6"
    and "memberLoadForces nodes member load ! 1 + memberLoadForces nodes member load ! 4 =
           - (magnitude load * ((node_x en - node_x sn) / memberLength sn en))"
proof -
  note eq = memberLoadForces_eq [OF assms]
  note shape = referenceFixedEndForces_shape
  show "length (memberLoadForces nodes member load) = 6"
    unfolding eq by (rule rotated_forces(1) [OF shape])
  show "memberLoadForces nodes member load ! 1 + memberLoadForces nodes member load ! 4 =
           - (magnitude load * ((node_x en - node_x sn) / memberLength sn en))"
    unfolding eq rotated_forces(2) [OF shape] referenceFixedEndForces_shear_sum [OF assms(3)]
    by simp
qed

subsection \<open>The end forces of a member in closed form\<close>

lemma forEachE_addVec:
  assumes "length f0 = 6" and "\<And>l. l \<in> set ls \<Longrightarrow> step l = Inr (fef l) \<and> length (fef l) = 6"
  shows "\<exists>f. forEachE (\<lambda>l f. case step l of Inl e \<Rightarrow> Inl e | Inr v \<Rightarrow> Inr (addVec f v)) ls f0 = Inr f
           \<and> length f = 6 \<and> (\<forall>a<6. f ! a = f0 ! a + (\<Sum>l\<leftarrow>ls. fef l ! a))"
  using assms
proof (induction ls arbitrary: f0)
  case Nil
  then show ?case by simp
next
  case (Cons l ls)
  have l: "step l = Inr (fef l)" "length (fef l) = 6"
    using Cons.prems(2) by simp_all
  have len: "length (addVec f0 (fef l)) = 6"
    using Cons.prems(1) l(2) by (simp add: addVec_def)
  from Cons.IH [OF len] Cons.prems(2) obtain f where
    f: "forEachE (\<lambda>l f. case step l of Inl e \<Rightarrow> Inl e | Inr v \<Rightarrow> Inr (addVec f v)) ls
          (addVec f0 (fef l)) = Inr f"
      "length f = 6" "\<forall>a<6. f ! a = addVec f0 (fef l) ! a + (\<Sum>l\<leftarrow>ls. fef l ! a)"
    by auto
  have "addVec f0 (fef l) ! a = f0 ! a + fef l ! a" if "a < 6" for a
    using that Cons.prems(1) l(2) by (simp add: addVec_def)
  with f show ?case
    by (simp add: l(1) add.assoc)
qed

lemma fixedEndForceSum_closed:
  assumes "findNode nodes (startNodeId member) = Some sn"
    and "findNode nodes (endNodeId member) = Some en" and "memberLength sn en \<noteq> 0"
  shows "\<exists>f. fixedEndForceSum member loads (Some sn) (Some en) = Inr f \<and> length f = 6 \<and>
           (\<forall>a<6. f ! a = (\<Sum>l\<leftarrow>filter (\<lambda>l. memberId l = member_id member) loads.
                              memberLoadForces nodes member l ! a))"
proof -
  have "\<exists>f. forEachE (\<lambda>l f. case getGlobalFixedEndForces member l (Some sn) (Some en) of
                              Inl e \<Rightarrow> Inl e | Inr v \<Rightarrow> Inr (addVec f v))
               (filter (\<lambda>l. memberId l = member_id member) loads) [0, 0, 0, 0, 0, 0] = Inr f
           \<and> length f = 6
           \<and> (\<forall>a<6. f ! a = [0, 0, 0, 0, 0, 0] ! a
                 + (\<Sum>l\<leftarrow>filter (\<lambda>l. memberId l = member_id member) loads.
                       memberLoadForces nodes member l ! a))"
    by (rule forEachE_addVec)
       (simp_all add: memberLoadForces_valid [OF assms(1,2)] memberLoadForces_props(1) [OF assms])
  moreover have "[0, 0, 0, 0, 0, 0 :: real] ! a = 0" if "a < 6" for a
    using that by (elim lt_6_cases) simp_all
  ultimately show ?thesis
    unfolding fixedEndForceSum_def by auto
qed

lemma sum_list_upt_6: "(\<Sum>b\<leftarrow>[0..<6]. f b) = (\<Sum>b<6. (f b :: real))"
  by (simp add: interv_sum_list_conv_sum_set_nat lessThan_atLeast0)

lemma memberEndForces_closed:
  assumes "validMember nodes member" and "a < 6"
  shows "memberEndForces nodes loads d member ! a =
           (\<Sum>b<6. memberStiffness nodes member ! a ! b * d (memberDofs nodes member ! b))
           + (\<Sum>l\<leftarrow>filter (\<lambda>l. memberId l = member_id member) loads.
                 memberLoadForces nodes member l ! a)"
proof -
  from assms(1) obtain sn en i j where n: "findNode nodes (startNodeId member) = Some sn"
    "findNode nodes (endNodeId member) = Some en" "memberLength sn en \<noteq> 0"
    and ix: "initializeDOF nodes (node_id sn @ ''-x'') = Some (i * 3)"
    "initializeDOF nodes (node_id en @ ''-x'') = Some (j * 3)"
    and D: "memberDofs nodes member = [i * 3, i * 3 + 1, i * 3 + 2, j * 3, j * 3 + 1, j * 3 + 2]"
    by (rule validMember_dofs)
  have dv: "memberDisplacements (initializeDOF nodes) d sn en =
              Inr (map d (memberDofs nodes member))"
    by (simp add: memberDisplacements_def ix D)
  from fixedEndForceSum_closed [OF n] obtain f where
    f: "fixedEndForceSum member loads (Some sn) (Some en) = Inr f" "length f = 6"
      "\<forall>a<6. f ! a = (\<Sum>l\<leftarrow>filter (\<lambda>l. memberId l = member_id member) loads.
                              memberLoadForces nodes member l ! a)"
    by blast
  note dims = memberStiffness_dims [OF assms(1)]
  have g: "memberEndForces nodes loads d member =
             addVec (multiplyVec (memberStiffness nodes member) (map d (memberDofs nodes member))) f"
    by (simp add: memberEndForces_def memberGlobalForces_def n dv f(1) memberStiffness_valid [OF n])
  have lenD: "length (memberDofs nodes member) = 6" by (simp add: D)
  have "multiplyVec (memberStiffness nodes member) (map d (memberDofs nodes member)) ! a =
          (\<Sum>b<6. memberStiffness nodes member ! a ! b * d (memberDofs nodes member ! b))"
    using multiplyVec_nth [of a "memberStiffness nodes member" "map d (memberDofs nodes member)"]
      dims(1) dims(2) [OF assms(2)] assms(2) lenD
    by simp
  moreover have "length (multiplyVec (memberStiffness nodes member)
                   (map d (memberDofs nodes member))) = 6"
    by (simp add: multiplyVec_def dims(1))
  ultimately show ?thesis
    unfolding g using f(2,3) assms(2) by (simp add: addVec_def)
qed

subsection \<open>Reactions in closed form\<close>

lemma memberGlobalForces_memberEndForces:
  assumes "validMember nodes member"
  shows "memberGlobalForces (initializeDOF nodes) loads d member
           (findNode nodes (startNodeId member)) (findNode nodes (endNodeId member)) =
         Inr (memberEndForces nodes loads d member)"
  using memberGlobalForces_Inr [OF assms, of loads d] by (auto simp: memberEndForces_def)

lemma forEachE_reaction:
  assumes "\<And>m. m \<in> set ms \<Longrightarrow> step m = Inr (g m)"
  shows "\<exists>r. forEachE (\<lambda>member r.
                 case step member of
                   Inl e \<Rightarrow> Inl e
                 | Inr f_global \<Rightarrow>
                     if startNodeId member = k then
                       Inr \<lparr>Fx = Fx r + f_global ! 0, Fy = Fy r + f_global ! 1,
                            Mz = Mz r + f_global ! 2\<rparr>
                     else
                       Inr \<lparr>Fx = Fx r + f_global ! 3, Fy = Fy r + f_global ! 4,
                            Mz = Mz r + f_global ! 5\<rparr>) ms r0 = Inr r \<and>
          Fy r = Fy r0 + (\<Sum>m\<leftarrow>ms. if startNodeId m = k then g m ! 1 else g m ! 4)"
  using assms
proof (induction ms arbitrary: r0)
  case Nil
  then show ?case by simp
next
  case (Cons m ms)
  have m: "step m = Inr (g m)" using Cons.prems by simp
  show ?case
  proof (cases "startNodeId m = k")
    case True
    from Cons.IH [of "\<lparr>Fx = Fx r0 + g m ! 0, Fy = Fy r0 + g m ! 1, Mz = Mz r0 + g m ! 2\<rparr>"]
      Cons.prems
    show ?thesis by (auto simp: m True add.assoc)
  next
    case False
    from Cons.IH [of "\<lparr>Fx = Fx r0 + g m ! 3, Fy = Fy r0 + g m ! 4, Mz = Mz r0 + g m ! 5\<rparr>"]
      Cons.prems
    show ?thesis by (auto simp: m False add.assoc)
  qed
qed

lemma sum_list_filter_indicator:
  "(\<Sum>x\<leftarrow>filter P xs. f x) = (\<Sum>x\<leftarrow>xs. if P x then (f x :: real) else 0)"
  by (induction xs) simp_all

lemma nodeReaction_closed:
  assumes "list_all (validMember nodes) members"
  shows "\<exists>r. nodeReaction nodes members (initializeDOF nodes) loads d node = Inr r \<and>
          Fy r = (\<Sum>m\<leftarrow>members.
                    if startNodeId m = node_id node then memberEndForces nodes loads d m ! 1
                    else if endNodeId m = node_id node then memberEndForces nodes loads d m ! 4
                    else 0)"
proof -
  let ?ms = "filter (\<lambda>m. startNodeId m = node_id node \<or> endNodeId m = node_id node) members"
  have "\<exists>r. forEachE (\<lambda>member r.
                 case memberGlobalForces (initializeDOF nodes) loads d member
                        (findNode nodes (startNodeId member)) (findNode nodes (endNodeId member)) of
                   Inl e \<Rightarrow> Inl e
                 | Inr f_global \<Rightarrow>
                     if startNodeId member = node_id node then
                       Inr \<lparr>Fx = Fx r + f_global ! 0, Fy = Fy r + f_global ! 1,
                            Mz = Mz r + f_global ! 2\<rparr>
                     else
                       Inr \<lparr>Fx = Fx r + f_global ! 3, Fy = Fy r + f_global ! 4,
                            Mz = Mz r + f_global ! 5\<rparr>) ?ms \<lparr>Fx = 0, Fy = 0, Mz = 0\<rparr> = Inr r \<and>
          Fy r = Fy \<lparr>Fx = 0, Fy = 0, Mz = 0\<rparr>
                 + (\<Sum>m\<leftarrow>?ms. if startNodeId m = node_id node
                              then memberEndForces nodes loads d m ! 1
                              else memberEndForces nodes loads d m ! 4)"
  proof (rule forEachE_reaction)
    fix m assume "m \<in> set ?ms"
    then have "validMember nodes m" using assms by (auto simp: list_all_iff)
    then show "memberGlobalForces (initializeDOF nodes) loads d m
                 (findNode nodes (startNodeId m)) (findNode nodes (endNodeId m)) =
               Inr (memberEndForces nodes loads d m)"
      by (rule memberGlobalForces_memberEndForces)
  qed
  moreover have "(\<Sum>m\<leftarrow>?ms. if startNodeId m = node_id node
                              then memberEndForces nodes loads d m ! 1
                              else memberEndForces nodes loads d m ! 4) =
      (\<Sum>m\<leftarrow>members.
                    if startNodeId m = node_id node then memberEndForces nodes loads d m ! 1
                    else if endNodeId m = node_id node then memberEndForces nodes loads d m ! 4
                    else 0)"
    unfolding sum_list_filter_indicator
    by (intro arg_cong [where f = sum_list] map_cong refl) auto
  ultimately show ?thesis
    unfolding nodeReaction_def by auto
qed

lemma reactionOf_found:
  assumes "list_all (validMember nodes) members" and "findNode nodes k = Some node"
  shows "\<exists>r. reactionOf nodes members loads d k = Some r \<and>
          nodeReaction nodes members (initializeDOF nodes) loads d node = Inr r"
  using nodeReaction_closed [OF assms(1), of loads d node] assms(2)
  by (auto simp: reactionOf_def)

lemma forEachE_reactionTable:
  assumes "list_all (validMember nodes) members"
  shows "forEachE (\<lambda>support tbl.
                 case findNode nodes (support_nodeId support) of
                   None \<Rightarrow> Inr tbl
                 | Some node \<Rightarrow>
                     (case nodeReaction nodes members (initializeDOF nodes) loads d node of
                        Inl e \<Rightarrow> Inl e
                      | Inr r \<Rightarrow> Inr (tbl(node_id node \<mapsto> r))))
              supports tbl0 =
         Inr (\<lambda>k. if k \<in> support_nodeId ` set supports \<and> findNode nodes k \<noteq> None
                  then reactionOf nodes members loads d k else tbl0 k)"
proof (induction supports arbitrary: tbl0)
  case Nil
  then show ?case by simp
next
  case (Cons s supports)
  show ?case
  proof (cases "findNode nodes (support_nodeId s)")
    case None
    then show ?thesis
      by (auto simp: Cons fun_eq_iff)
  next
    case (Some node)
    from reactionOf_found [OF assms Some, of loads d] obtain r where
      r: "reactionOf nodes members loads d (support_nodeId s) = Some r"
        "nodeReaction nodes members (initializeDOF nodes) loads d node = Inr r"
      by blast
    have id: "node_id node = support_nodeId s"
      using Some findNode_Some_id by blast
    show ?thesis
      by (auto simp: Some r id Cons fun_eq_iff)
  qed
qed

lemma reactionTable_closed:
  assumes "list_all (validMember nodes) members"
  shows "reactionTable nodes members supports (initializeDOF nodes) loads d =
         Inr (\<lambda>k. if k \<in> support_nodeId ` set supports \<and> findNode nodes k \<noteq> None
                  then reactionOf nodes members loads d k else None)"
  unfolding reactionTable_def by (rule forEachE_reactionTable [OF assms])

subsection \<open>Unique identities\<close>

lemma findNode_nth:
  assumes "distinct (map node_id nodes)" and "i < length nodes"
  shows "findNode nodes (node_id (nodes ! i)) = Some (nodes ! i)"
proof -
  have "\<not> node_id (nodes ! j) = node_id (nodes ! i)" if "j < i" for j
    using that assms nth_eq_iff_index_eq [of "map node_id nodes" j i] by simp
  then show ?thesis
    unfolding findNode_def find_Some_iff using assms(2) by blast
qed

lemma node_index_unique:
  assumes "distinct (map node_id nodes)" and "i < length nodes" and "j < length nodes"
  shows "node_id (nodes ! i) = node_id (nodes ! j) \<longleftrightarrow> i = j"
  using assms nth_eq_iff_index_eq [of "map node_id nodes" i j] by auto

lemma filter_member_id:
  assumes "distinct (map member_id members)"
  shows "filter (\<lambda>m. member_id m = k) members =
           (case findMember members k of Some m \<Rightarrow> [m] | None \<Rightarrow> [])"
  using assms
proof (induction members)
  case Nil
  then show ?case by (simp add: findMember_def)
next
  case (Cons m ms)
  show ?case
  proof (cases "member_id m = k")
    case True
    have "member_id m \<notin> member_id ` set ms"
      using Cons.prems by simp
    then have "\<forall>x\<in>set ms. member_id x \<noteq> k"
      unfolding True [symmetric] by (metis imageI)
    then have "filter (\<lambda>m. member_id m = k) ms = []"
      by (simp add: filter_empty_conv)
    with True show ?thesis by (simp add: findMember_def)
  next
    case False
    with Cons show ?thesis by (simp add: findMember_def)
  qed
qed

lemma sum_list_swap:
  "(\<Sum>x\<leftarrow>xs. \<Sum>y\<leftarrow>ys. (f x y :: real)) = (\<Sum>y\<leftarrow>ys. \<Sum>x\<leftarrow>xs. f x y)"
  by (induction xs) (simp_all add: sum_list_addf)

lemma sum_list_sum_swap:
  "(\<Sum>x\<leftarrow>xs. \<Sum>i\<in>A. (f x i :: real)) = (\<Sum>i\<in>A. \<Sum>x\<leftarrow>xs. f x i)"
  by (induction xs) (simp_all add: sum.distrib)

text \<open>Summing over the members and their loads is summing over the loads and their member.\<close>

lemma members_loads_swap:
  assumes "distinct (map member_id members)"
  shows "(\<Sum>m\<leftarrow>members. \<Sum>l\<leftarrow>filter (\<lambda>l. memberId l = member_id m) loads. (X m l :: real)) =
         (\<Sum>l\<leftarrow>loads. \<Sum>m\<leftarrow>loadMembers members l. X m l)"
proof -
  have "(\<Sum>m\<leftarrow>members. \<Sum>l\<leftarrow>filter (\<lambda>l. memberId l = member_id m) loads. X m l) =
        (\<Sum>m\<leftarrow>members. \<Sum>l\<leftarrow>loads. if memberId l = member_id m then X m l else 0)"
    by (simp add: sum_list_filter_indicator)
  also have "\<dots> = (\<Sum>l\<leftarrow>loads. \<Sum>m\<leftarrow>members. if member_id m = memberId l then X m l else 0)"
    by (subst sum_list_swap) (simp add: eq_commute)
  also have "\<dots> = (\<Sum>l\<leftarrow>loads. \<Sum>m\<leftarrow>filter (\<lambda>m. member_id m = memberId l) members. X m l)"
    by (simp add: sum_list_filter_indicator)
  also have "\<dots> = (\<Sum>l\<leftarrow>loads. \<Sum>m\<leftarrow>loadMembers members l. X m l)"
    by (simp add: filter_member_id [OF assms] loadMembers_def)
  finally show ?thesis .
qed

subsection \<open>The vertical forces of one member\<close>

lemma sum_lessThan_6: "(\<Sum>a<(6::nat). f a) = f 0 + f 1 + f 2 + f 3 + f 4 + (f 5 :: real)"
  by (simp add: eval_nat_numeral lessThan_Suc)

lemma member_vertical_dofs:
  assumes "validMember nodes member"
  shows "\<exists>s e. s < length nodes \<and> e < length nodes \<and> s \<noteq> e \<and>
           node_id (nodes ! s) = startNodeId member \<and> node_id (nodes ! e) = endNodeId member \<and>
           (\<forall>b<6. memberDofs nodes member ! b < totalDOF nodes) \<and>
           (\<forall>i. \<forall>x :: nat \<Rightarrow> real.
              (\<Sum>a<6. if memberDofs nodes member ! a = i * 3 + 1 then x a else 0) =
              (if s = i then x 1 else 0) + (if e = i then x 4 else 0))"
proof -
  from assms obtain sn :: Node and en :: Node and s e
    where se: "s < length nodes" "e < length nodes" "s \<noteq> e"
    "node_id (nodes ! s) = startNodeId member" "node_id (nodes ! e) = endNodeId member"
    and D: "memberDofs nodes member = [s * 3, s * 3 + 1, s * 3 + 2, e * 3, e * 3 + 1, e * 3 + 2]"
    by (rule validMember_dofs)
  have bound: "memberDofs nodes member ! b < totalDOF nodes" if "b < 6" for b
    using that se(1,2) unfolding D totalDOF_def by (elim lt_6_cases) simp_all
  have "(\<Sum>a<6. if memberDofs nodes member ! a = i * 3 + 1 then x a else 0) =
                 (if s = i then x 1 else 0) + (if e = i then (x 4 :: real) else 0)" for i x
  proof -
    have "s * 3 \<noteq> i * 3 + 1" "s * 3 + 2 \<noteq> i * 3 + 1" "e * 3 \<noteq> i * 3 + 1"
      "e * 3 + 2 \<noteq> i * 3 + 1" by presburger+
    moreover have "s * 3 + 1 = i * 3 + 1 \<longleftrightarrow> s = i" "e * 3 + 1 = i * 3 + 1 \<longleftrightarrow> e = i"
      by auto
    ultimately show ?thesis
      unfolding sum_lessThan_6 D by simp
  qed
  with se bound show ?thesis
    by (intro exI [of _ s] exI [of _ e]) simp
qed

lemma member_vertical_total:
  assumes "validMember nodes member"
  shows "(\<Sum>i<length nodes. \<Sum>a<6. if memberDofs nodes member ! a = i * 3 + 1 then x a else 0) =
           x 1 + (x 4 :: real)"
proof -
  from member_vertical_dofs [OF assms] obtain s e where se: "s < length nodes" "e < length nodes"
    and sum: "\<forall>i. \<forall>x :: nat \<Rightarrow> real.
              (\<Sum>a<6. if memberDofs nodes member ! a = i * 3 + 1 then x a else 0) =
              (if s = i then x 1 else 0) + (if e = i then x 4 else 0)"
    by blast
  show ?thesis
    unfolding sum [rule_format] using se by (simp add: sum.distrib)
qed

lemma member_vertical_node:
  assumes "validMember nodes member" and "distinct (map node_id nodes)" and "i < length nodes"
  shows "(\<Sum>a<6. if memberDofs nodes member ! a = i * 3 + 1 then x a else 0) =
           (if startNodeId member = node_id (nodes ! i) then x 1
            else if endNodeId member = node_id (nodes ! i) then (x 4 :: real) else 0)"
proof -
  from member_vertical_dofs [OF assms(1)] obtain s e where
    se: "s < length nodes" "e < length nodes" "s \<noteq> e"
    "node_id (nodes ! s) = startNodeId member" "node_id (nodes ! e) = endNodeId member"
    and sum: "\<forall>i. \<forall>x :: nat \<Rightarrow> real.
              (\<Sum>a<6. if memberDofs nodes member ! a = i * 3 + 1 then x a else 0) =
              (if s = i then x 1 else 0) + (if e = i then x 4 else 0)"
    by blast
  have "startNodeId member = node_id (nodes ! i) \<longleftrightarrow> s = i"
    "endNodeId member = node_id (nodes ! i) \<longleftrightarrow> e = i"
    using node_index_unique [OF assms(2) se(1) assms(3)]
      node_index_unique [OF assms(2) se(2) assms(3)] se(4,5) by auto
  then show ?thesis
    unfolding sum [rule_format] using se(3) by auto
qed

lemma member_vertical_balance:
  assumes "validMember nodes member"
  shows "memberEndForces nodes loads d member ! 1 + memberEndForces nodes loads d member ! 4 =
           (\<Sum>l\<leftarrow>filter (\<lambda>l. memberId l = member_id member) loads.
               memberLoadForces nodes member l ! 1 + memberLoadForces nodes member l ! 4)"
proof -
  note dims = memberStiffness_dims [OF assms]
  have "(\<Sum>b<6. memberStiffness nodes member ! 1 ! b * d (memberDofs nodes member ! b))
        + (\<Sum>b<6. memberStiffness nodes member ! 4 ! b * d (memberDofs nodes member ! b)) =
        (\<Sum>b<6. (memberStiffness nodes member ! 1 ! b + memberStiffness nodes member ! 4 ! b)
                 * d (memberDofs nodes member ! b))"
    by (simp add: sum.distrib distrib_right)
  also have "\<dots> = 0"
    by (rule sum.neutral) (use dims(3) in auto)
  finally have k: "(\<Sum>b<6. memberStiffness nodes member ! 1 ! b * d (memberDofs nodes member ! b))
        + (\<Sum>b<6. memberStiffness nodes member ! 4 ! b * d (memberDofs nodes member ! b)) = 0" .
  show ?thesis
    using k by (simp add: memberEndForces_closed [OF assms] sum_list_addf)
qed

subsection \<open>The sum of all vertical end forces\<close>

lemma load_vertical_component:
  assumes "list_all (validMember nodes) members" and "resolvedLoad members l"
  shows "(\<Sum>m\<leftarrow>loadMembers members l.
            memberLoadForces nodes m l ! 1 + memberLoadForces nodes m l ! 4) =
         - appliedLoadFy nodes members l"
proof -
  from assms(2) obtain m where m: "findMember members (memberId l) = Some m"
    by (auto simp: resolvedLoad_def)
  then have "validMember nodes m"
    using assms(1) findMember_Some by (auto simp: list_all_iff)
  then obtain sn en where n: "findNode nodes (startNodeId m) = Some sn"
    "findNode nodes (endNodeId m) = Some en" "memberLength sn en \<noteq> 0"
    by (rule validMember_nodes)
  show ?thesis
    using memberLoadForces_props(2) [OF n, of l]
    by (simp add: loadMembers_def appliedLoadFy_def m n)
qed

lemma total_vertical_forces:
  assumes wf: "list_all (validMember nodes) members"
    and rl: "list_all (resolvedLoad members) loads"
    and dm: "distinct (map member_id members)"
  shows "(\<Sum>i<length nodes. \<Sum>m\<leftarrow>members. \<Sum>a<6.
            if memberDofs nodes m ! a = i * 3 + 1 then memberEndForces nodes loads d m ! a else 0) =
         - (\<Sum>l\<leftarrow>loads. appliedLoadFy nodes members l)"
proof -
  have total: "(\<Sum>i<length nodes. \<Sum>a<6.
            if memberDofs nodes m ! a = i * 3 + 1 then memberEndForces nodes loads d m ! a else 0) =
          memberEndForces nodes loads d m ! 1 + memberEndForces nodes loads d m ! 4"
    if "m \<in> set members" for m
    using that wf member_vertical_total [of nodes m "\<lambda>a. memberEndForces nodes loads d m ! a"]
    by (simp add: list_all_iff)
  have balance: "memberEndForces nodes loads d m ! 1 + memberEndForces nodes loads d m ! 4 =
           (\<Sum>l\<leftarrow>filter (\<lambda>l. memberId l = member_id m) loads.
               memberLoadForces nodes m l ! 1 + memberLoadForces nodes m l ! 4)"
    if "m \<in> set members" for m
    using that wf member_vertical_balance [of nodes m loads d]
    by (simp add: list_all_iff)
  have load: "(\<Sum>m\<leftarrow>loadMembers members l.
            memberLoadForces nodes m l ! 1 + memberLoadForces nodes m l ! 4) =
         - appliedLoadFy nodes members l"
    if "l \<in> set loads" for l
    using that rl load_vertical_component [OF wf, of l]
    by (simp add: list_all_iff)
  have "(\<Sum>i<length nodes. \<Sum>m\<leftarrow>members. \<Sum>a<6.
            if memberDofs nodes m ! a = i * 3 + 1 then memberEndForces nodes loads d m ! a else 0) =
        (\<Sum>m\<leftarrow>members. \<Sum>i<length nodes. \<Sum>a<6.
            if memberDofs nodes m ! a = i * 3 + 1 then memberEndForces nodes loads d m ! a else 0)"
    by (rule sum_list_sum_swap [symmetric])
  also have "\<dots> = (\<Sum>m\<leftarrow>members. memberEndForces nodes loads d m ! 1
                                + memberEndForces nodes loads d m ! 4)"
    by (intro arg_cong [where f = sum_list] map_cong refl) (rule total)
  also have "\<dots> = (\<Sum>m\<leftarrow>members. \<Sum>l\<leftarrow>filter (\<lambda>l. memberId l = member_id m) loads.
               memberLoadForces nodes m l ! 1 + memberLoadForces nodes m l ! 4)"
    by (intro arg_cong [where f = sum_list] map_cong refl) (rule balance)
  also have "\<dots> = (\<Sum>l\<leftarrow>loads. \<Sum>m\<leftarrow>loadMembers members l.
               memberLoadForces nodes m l ! 1 + memberLoadForces nodes m l ! 4)"
    by (rule members_loads_swap [OF dm])
  also have "\<dots> = (\<Sum>l\<leftarrow>loads. - appliedLoadFy nodes members l)"
    by (intro arg_cong [where f = sum_list] map_cong refl) (rule load)
  also have "\<dots> = - (\<Sum>l\<leftarrow>loads. appliedLoadFy nodes members l)"
    by (induction loads) simp_all
  finally show ?thesis .
qed

subsection \<open>The vertical end forces at one degree of freedom\<close>

lemma sum_list_product:
  "(\<Sum>(i, j)\<leftarrow>List.product xs ys. (f i j :: real)) = (\<Sum>i\<leftarrow>xs. \<Sum>j\<leftarrow>ys. f i j)"
  by (induction xs) (simp_all add: comp_def)

lemma stiffness_row_times_displacements:
  assumes wf: "list_all (validMember nodes) members"
  shows "(\<Sum>c<totalDOF nodes. assembledStiffness nodes members (r, c) * d c) =
         (\<Sum>m\<leftarrow>members. \<Sum>a<6. if memberDofs nodes m ! a = r
            then (\<Sum>b<6. memberStiffness nodes m ! a ! b * d (memberDofs nodes m ! b)) else 0)"
proof -
  have member: "(\<Sum>c<totalDOF nodes. (\<Sum>a<6. \<Sum>b<6.
             if memberDofs nodes m ! a = r \<and> memberDofs nodes m ! b = c
             then memberStiffness nodes m ! a ! b else 0) * d c) =
        (\<Sum>a<6. if memberDofs nodes m ! a = r
            then (\<Sum>b<6. memberStiffness nodes m ! a ! b * d (memberDofs nodes m ! b)) else 0)"
    if "m \<in> set members" for m
  proof -
    from that wf have "validMember nodes m" by (simp add: list_all_iff)
    from member_vertical_dofs [OF this]
    have bound: "\<forall>b<6. memberDofs nodes m ! b < totalDOF nodes" by blast
    have "(\<Sum>c<totalDOF nodes. (\<Sum>a<6. \<Sum>b<6.
             if memberDofs nodes m ! a = r \<and> memberDofs nodes m ! b = c
             then memberStiffness nodes m ! a ! b else 0) * d c) =
          (\<Sum>c<totalDOF nodes. \<Sum>a<6. \<Sum>b<6.
             if memberDofs nodes m ! a = r \<and> memberDofs nodes m ! b = c
             then memberStiffness nodes m ! a ! b * d c else 0)"
      by (simp add: sum_distrib_right if_distrib [of "\<lambda>x. x * _"] cong: if_cong)
    also have "\<dots> = (\<Sum>a<6. \<Sum>b<6. \<Sum>c<totalDOF nodes.
             if memberDofs nodes m ! a = r \<and> memberDofs nodes m ! b = c
             then memberStiffness nodes m ! a ! b * d c else 0)"
    proof -
      have "(\<Sum>c<totalDOF nodes. \<Sum>a<6. \<Sum>b<6.
             if memberDofs nodes m ! a = r \<and> memberDofs nodes m ! b = c
             then memberStiffness nodes m ! a ! b * d c else 0) =
            (\<Sum>a<6. \<Sum>c<totalDOF nodes. \<Sum>b<6.
             if memberDofs nodes m ! a = r \<and> memberDofs nodes m ! b = c
             then memberStiffness nodes m ! a ! b * d c else 0)"
        by (rule sum.swap)
      also have "\<dots> = (\<Sum>a<6. \<Sum>b<6. \<Sum>c<totalDOF nodes.
             if memberDofs nodes m ! a = r \<and> memberDofs nodes m ! b = c
             then memberStiffness nodes m ! a ! b * d c else 0)"
        by (rule sum.cong [OF refl]) (rule sum.swap)
      finally show ?thesis .
    qed
    also have "\<dots> = (\<Sum>a<6. \<Sum>b<6. if memberDofs nodes m ! a = r
             then memberStiffness nodes m ! a ! b * d (memberDofs nodes m ! b) else 0)"
    proof (intro sum.cong refl)
      fix a b :: nat assume "b \<in> {..<6}"
      then have "memberDofs nodes m ! b < totalDOF nodes" using bound by simp
      then show "(\<Sum>c<totalDOF nodes.
             if memberDofs nodes m ! a = r \<and> memberDofs nodes m ! b = c
             then memberStiffness nodes m ! a ! b * d c else 0) =
          (if memberDofs nodes m ! a = r
             then memberStiffness nodes m ! a ! b * d (memberDofs nodes m ! b) else 0)"
        by (cases "memberDofs nodes m ! a = r") simp_all
    qed
    also have "\<dots> = (\<Sum>a<6. if memberDofs nodes m ! a = r
            then (\<Sum>b<6. memberStiffness nodes m ! a ! b * d (memberDofs nodes m ! b)) else 0)"
      by (intro sum.cong refl) simp
    finally show ?thesis .
  qed
  have "(\<Sum>c<totalDOF nodes. assembledStiffness nodes members (r, c) * d c) =
        (\<Sum>c<totalDOF nodes. \<Sum>m\<leftarrow>members. (\<Sum>a<6. \<Sum>b<6.
             if memberDofs nodes m ! a = r \<and> memberDofs nodes m ! b = c
             then memberStiffness nodes m ! a ! b else 0) * d c)"
    by (simp add: assembledStiffness_closed [OF wf] sum_list_product sum_list_upt_6
          sum_list_mult_const)
  also have "\<dots> = (\<Sum>m\<leftarrow>members. \<Sum>c<totalDOF nodes. (\<Sum>a<6. \<Sum>b<6.
             if memberDofs nodes m ! a = r \<and> memberDofs nodes m ! b = c
             then memberStiffness nodes m ! a ! b else 0) * d c)"
    by (rule sum_list_sum_swap [symmetric])
  also have "\<dots> = (\<Sum>m\<leftarrow>members. \<Sum>a<6. if memberDofs nodes m ! a = r
            then (\<Sum>b<6. memberStiffness nodes m ! a ! b * d (memberDofs nodes m ! b)) else 0)"
    by (intro arg_cong [where f = sum_list] map_cong refl) (rule member)
  finally show ?thesis .
qed

lemma load_row:
  assumes wf: "list_all (validMember nodes) members"
    and rl: "list_all (resolvedLoad members) loads"
    and dm: "distinct (map member_id members)"
    and F: "assembleF nodes members (initializeDOF nodes) loads = Inr F"
  shows "(\<Sum>m\<leftarrow>members. \<Sum>a<6. if memberDofs nodes m ! a = r
            then (\<Sum>l\<leftarrow>filter (\<lambda>l. memberId l = member_id m) loads.
                    memberLoadForces nodes m l ! a) else 0) = - F r"
proof -
  have member: "(\<Sum>a<6. if memberDofs nodes m ! a = r
            then (\<Sum>l\<leftarrow>filter (\<lambda>l. memberId l = member_id m) loads.
                    memberLoadForces nodes m l ! a) else 0) =
        (\<Sum>l\<leftarrow>filter (\<lambda>l. memberId l = member_id m) loads.
            \<Sum>a<6. if memberDofs nodes m ! a = r then memberLoadForces nodes m l ! a else 0)"
    for m
  proof -
    have "(\<Sum>a<6. if memberDofs nodes m ! a = r
            then (\<Sum>l\<leftarrow>filter (\<lambda>l. memberId l = member_id m) loads.
                    memberLoadForces nodes m l ! a) else 0) =
          (\<Sum>a<6. \<Sum>l\<leftarrow>filter (\<lambda>l. memberId l = member_id m) loads.
              if memberDofs nodes m ! a = r then memberLoadForces nodes m l ! a else 0)"
      by (intro sum.cong refl) simp
    then show ?thesis
      by (simp add: sum_list_sum_swap)
  qed
  have "(\<Sum>m\<leftarrow>members. \<Sum>a<6. if memberDofs nodes m ! a = r
            then (\<Sum>l\<leftarrow>filter (\<lambda>l. memberId l = member_id m) loads.
                    memberLoadForces nodes m l ! a) else 0) =
        (\<Sum>m\<leftarrow>members. \<Sum>l\<leftarrow>filter (\<lambda>l. memberId l = member_id m) loads.
            \<Sum>a<6. if memberDofs nodes m ! a = r then memberLoadForces nodes m l ! a else 0)"
    by (simp add: member)
  also have "\<dots> = (\<Sum>l\<leftarrow>loads. \<Sum>m\<leftarrow>loadMembers members l.
            \<Sum>a<6. if memberDofs nodes m ! a = r then memberLoadForces nodes m l ! a else 0)"
    by (rule members_loads_swap [OF dm])
  also have "\<dots> = - F r"
  proof -
    have "F = (\<lambda>r. - (\<Sum>l\<leftarrow>loads. \<Sum>m\<leftarrow>loadMembers members l. \<Sum>i\<leftarrow>[0..<6].
                        if memberDofs nodes m ! i = r
                        then memberLoadForces nodes m l ! i else 0))"
      using F by (simp add: assembleF_closed [OF wf rl])
    then show ?thesis
      by (simp add: sum_list_upt_6)
  qed
  finally show ?thesis .
qed

text \<open>The vertical end forces that the members exert at a degree of freedom are the
  residual of the assembled system there.\<close>

lemma dof_balance:
  assumes wf: "list_all (validMember nodes) members"
    and rl: "list_all (resolvedLoad members) loads"
    and dm: "distinct (map member_id members)"
    and F: "assembleF nodes members (initializeDOF nodes) loads = Inr F"
  shows "(\<Sum>m\<leftarrow>members. \<Sum>a<6.
            if memberDofs nodes m ! a = r then memberEndForces nodes loads d m ! a else 0) =
         (\<Sum>c<totalDOF nodes. assembledStiffness nodes members (r, c) * d c) - F r"
proof -
  have "(\<Sum>m\<leftarrow>members. \<Sum>a<6.
            if memberDofs nodes m ! a = r then memberEndForces nodes loads d m ! a else 0) =
        (\<Sum>m\<leftarrow>members.
           (\<Sum>a<6. if memberDofs nodes m ! a = r
              then (\<Sum>b<6. memberStiffness nodes m ! a ! b * d (memberDofs nodes m ! b)) else 0)
         + (\<Sum>a<6. if memberDofs nodes m ! a = r
              then (\<Sum>l\<leftarrow>filter (\<lambda>l. memberId l = member_id m) loads.
                      memberLoadForces nodes m l ! a) else 0))"
  proof (intro arg_cong [where f = sum_list] map_cong refl)
    fix m assume "m \<in> set members"
    with wf have v: "validMember nodes m" by (simp add: list_all_iff)
    have "(\<Sum>a<6. if memberDofs nodes m ! a = r then memberEndForces nodes loads d m ! a else 0) =
          (\<Sum>a<6. (if memberDofs nodes m ! a = r
              then (\<Sum>b<6. memberStiffness nodes m ! a ! b * d (memberDofs nodes m ! b)) else 0)
            + (if memberDofs nodes m ! a = r
              then (\<Sum>l\<leftarrow>filter (\<lambda>l. memberId l = member_id m) loads.
                      memberLoadForces nodes m l ! a) else 0))"
      by (intro sum.cong refl) (simp add: memberEndForces_closed [OF v])
    then show "(\<Sum>a<6. if memberDofs nodes m ! a = r
                  then memberEndForces nodes loads d m ! a else 0) =
           (\<Sum>a<6. if memberDofs nodes m ! a = r
              then (\<Sum>b<6. memberStiffness nodes m ! a ! b * d (memberDofs nodes m ! b)) else 0)
         + (\<Sum>a<6. if memberDofs nodes m ! a = r
              then (\<Sum>l\<leftarrow>filter (\<lambda>l. memberId l = member_id m) loads.
                      memberLoadForces nodes m l ! a) else 0)"
      by (simp add: sum.distrib)
  qed
  also have "\<dots> =
        (\<Sum>m\<leftarrow>members. \<Sum>a<6. if memberDofs nodes m ! a = r
              then (\<Sum>b<6. memberStiffness nodes m ! a ! b * d (memberDofs nodes m ! b)) else 0)
      + (\<Sum>m\<leftarrow>members. \<Sum>a<6. if memberDofs nodes m ! a = r
              then (\<Sum>l\<leftarrow>filter (\<lambda>l. memberId l = member_id m) loads.
                      memberLoadForces nodes m l ! a) else 0)"
    by (rule sum_list_addf)
  also have "\<dots> = (\<Sum>c<totalDOF nodes. assembledStiffness nodes members (r, c) * d c) - F r"
    by (simp add: stiffness_row_times_displacements [OF wf] load_row [OF wf rl dm F])
  finally show ?thesis .
qed

subsection \<open>An unsupported node is free vertically\<close>

lemma unsupported_vertical_free:
  assumes "i < length nodes"
    and "node_id (nodes ! i) \<notin> support_nodeId ` set supports"
  shows "i * 3 + 1 \<in> set (finalFreeDOFs (initializeDOF nodes) (totalDOF nodes) supports)"
proof -
  have "Some (i * 3 + 1) \<notin> set (supportDOFs (initializeDOF nodes) s)" if s: "s \<in> set supports" for s
  proof (cases "findNode nodes (support_nodeId s)")
    case None
    then show ?thesis
      using supportDOFs_unresolved [of nodes s] by (simp add: resolvedSupport_def)
  next
    case (Some node)
    from initializeDOF_found [OF Some] obtain p where p: "p < length nodes"
      "node_id (nodes ! p) = support_nodeId s"
      "initializeDOF nodes (support_nodeId s @ ''-x'') = Some (p * 3)"
      "initializeDOF nodes (support_nodeId s @ ''-y'') = Some (p * 3 + 1)"
      "initializeDOF nodes (support_nodeId s @ ''-r'') = Some (p * 3 + 2)"
      by blast
    have "p \<noteq> i" using p(2) assms(2) s by auto
    then have "p * 3 \<noteq> i * 3 + 1" "p * 3 + 1 \<noteq> i * 3 + 1" "p * 3 + 2 \<noteq> i * 3 + 1"
      by presburger+
    then show ?thesis
      by (cases "support_type s") (simp_all add: supportDOFs_def Let_def p(3,4,5))
  qed
  then have "Some (i * 3 + 1) \<notin> set (constrainedDOFs (initializeDOF nodes) supports)"
    by (auto simp: constrainedDOFs_def)
  moreover have "i * 3 + 1 < totalDOF nodes"
    using assms(1) by (simp add: totalDOF_def)
  ultimately show ?thesis
    by (simp add: finalFreeDOFs_set)
qed

subsection \<open>The reaction table of a result\<close>

lemma calculateResults_reactions:
  assumes wf: "list_all (validMember nodes) members"
    and cr: "calculateResults nodes members supports loads (initializeDOF nodes) d = Inr res"
  shows "reactions res =
           Some (\<lambda>k. if k \<in> support_nodeId ` set supports \<and> findNode nodes k \<noteq> None
                     then reactionOf nodes members loads d k else None)"
  using cr unfolding calculateResults_def reactionTable_closed [OF wf]
  by (auto split: sum.splits prod.splits)

lemma node_reaction_vertical:
  assumes wf: "list_all (validMember nodes) members" and dn: "distinct (map node_id nodes)"
    and i: "i < length nodes"
  shows "\<exists>r. reactionOf nodes members loads d (node_id (nodes ! i)) = Some r \<and>
           Fy r = (\<Sum>m\<leftarrow>members. \<Sum>a<6.
                     if memberDofs nodes m ! a = i * 3 + 1
                     then memberEndForces nodes loads d m ! a else 0)"
proof -
  note found = findNode_nth [OF dn i]
  from nodeReaction_closed [OF wf, of loads d "nodes ! i"] obtain r where
    r: "nodeReaction nodes members (initializeDOF nodes) loads d (nodes ! i) = Inr r"
    and fy: "Fy r = (\<Sum>m\<leftarrow>members.
                    if startNodeId m = node_id (nodes ! i) then memberEndForces nodes loads d m ! 1
                    else if endNodeId m = node_id (nodes ! i)
                         then memberEndForces nodes loads d m ! 4
                    else 0)"
    by blast
  have m: "(\<Sum>a<6. if memberDofs nodes m ! a = i * 3 + 1
                     then memberEndForces nodes loads d m ! a else 0) =
           (if startNodeId m = node_id (nodes ! i) then memberEndForces nodes loads d m ! 1
                    else if endNodeId m = node_id (nodes ! i)
                         then memberEndForces nodes loads d m ! 4
                    else 0)" if "m \<in> set members" for m
    using that wf
      member_vertical_node [OF _ dn i, of m "\<lambda>a. memberEndForces nodes loads d m ! a"]
    by (simp add: list_all_iff)
  have "Fy r = (\<Sum>m\<leftarrow>members. \<Sum>a<6.
                     if memberDofs nodes m ! a = i * 3 + 1
                     then memberEndForces nodes loads d m ! a else 0)"
    unfolding fy by (intro arg_cong [where f = sum_list] map_cong refl) (rule m [symmetric])
  moreover have "reactionOf nodes members loads d (node_id (nodes ! i)) = Some r"
    by (simp add: reactionOf_def found r)
  ultimately show ?thesis by blast
qed

lemma findNode_found_iff:
  "findNode nodes k \<noteq> None \<longleftrightarrow> (\<exists>i<length nodes. node_id (nodes ! i) = k)"
  unfolding findNode_None_iff by (force simp: in_set_conv_nth image_iff)


section \<open>The two example structures, evaluated\<close>

subsection \<open>The cantilever\<close>

lemma product_6:
  "List.product [0..<6] [0..<6] =
     [(0, 0), (0, 1), (0, 2), (0, 3), (0, 4), (0, 5),
      (1, 0), (1, 1), (1, 2), (1, 3), (1, 4), (1, 5),
      (2, 0), (2, 1), (2, 2), (2, 3), (2, 4), (2, 5),
      (3, 0), (3, 1), (3, 2), (3, 3), (3, 4), (3, 5),
      (4, 0), (4, 1), (4, 2), (4, 3), (4, 4), (4, 5),
      (5, 0), (5, 1), (5, 2), (5, 3), (5, 4), (5, 5)]"
  by (simp add: upt_6)

lemma span_total: "totalDOF spanNodes = 6"
  by (simp add: totalDOF_def spanNodes_def)

lemma cantilever_valid: "validMember spanNodes cantileverMember"
  by (simp add: validMember_def spanNodes_def cantileverMember_def findNode_def memberLength_def)

lemma cantilever_dofs: "memberDofs spanNodes cantileverMember = [0, 1, 2, 3, 4, 5]"
  by (simp add: memberDofs_def spanNodes_def cantileverMember_def findNode_def
        dofIndices_def initializeDOF_def)

lemma cantilever_stiffness:
  "memberStiffness spanNodes cantileverMember =
     [[200000000, 0, 0, - 200000000, 0, 0],
      [0, 240000, 1200000, 0, - 240000, 1200000],
      [0, 1200000, 8000000, 0, - 1200000, 4000000],
      [- 200000000, 0, 0, 200000000, 0, 0],
      [0, - 240000, - 1200000, 0, 240000, - 1200000],
      [0, 1200000, 4000000, 0, - 1200000, 8000000]]"
  by (simp add: memberStiffness_def spanNodes_def cantileverMember_def findNode_def
        getMemberGlobalStiffnessMatrix_def rotationMatrix_def k_local_vals_def multiply_def
        dot_def Let_def)

lemma cantilever_free:
  "finalFreeDOFs (initializeDOF spanNodes) (totalDOF spanNodes) cantileverSupports = [3, 4, 5]"
  by (simp add: spanNodes_def cantileverSupports_def finalFreeDOFs_def constrainedDOFs_def
        supportDOFs_def initializeDOF_def totalDOF_def upt_6 Let_def)

lemma cantilever_assembled:
  "assembledStiffness spanNodes [cantileverMember] rc =
     (\<Sum>(i, j)\<leftarrow>List.product [0..<6] [0..<6].
         if ([0, 1, 2, 3, 4, 5] ! i, [0, 1, 2, 3, 4, 5] ! j) = rc
         then memberStiffness spanNodes cantileverMember ! i ! j else 0)"
  using assembledStiffness_closed [of spanNodes "[cantileverMember]" rc]
  by (simp add: cantilever_valid cantilever_dofs)

lemma cantilever_entries:
  "assembledStiffness spanNodes [cantileverMember] (3, 3) = 200000000"
  "assembledStiffness spanNodes [cantileverMember] (3, 4) = 0"
  "assembledStiffness spanNodes [cantileverMember] (3, 5) = 0"
  "assembledStiffness spanNodes [cantileverMember] (4, 3) = 0"
  "assembledStiffness spanNodes [cantileverMember] (4, 4) = 240000"
  "assembledStiffness spanNodes [cantileverMember] (4, 5) = - 1200000"
  "assembledStiffness spanNodes [cantileverMember] (5, 3) = 0"
  "assembledStiffness spanNodes [cantileverMember] (5, 4) = - 1200000"
  "assembledStiffness spanNodes [cantileverMember] (5, 5) = 8000000"
  unfolding cantilever_assembled product_6
  by (simp_all add: cantilever_stiffness)

lemma cantilever_freeStiffness:
  "freeStiffness spanNodes [cantileverMember] cantileverSupports =
     [[200000000, 0, 0], [0, 240000, - 1200000], [0, - 1200000, 8000000]]"
  unfolding freeStiffness_def cantilever_free
  unfolding subsetMatrix_def list.map stabilize_closed span_total cantilever_entries
  by simp

lemma cantilever_inverse:
  "inverseOf [[200000000, 0, 0], [0, 240000, - 1200000], [0, - 1200000, 8000000]]
     [[1 / 200000000, 0, 0], [0, 1 / 60000, 1 / 400000], [0, 1 / 400000, 1 / 2000000]]"
  by (simp add: inverseOf_def multiply_def dot_def identityMatrix_def upt_3)

lemma cantilever_resolved: "list_all (resolvedLoad [cantileverMember]) cantileverLoads"
  by (simp add: resolvedLoad_def findMember_def cantileverLoads_def cantileverMember_def)

lemma cantilever_inverts:
  "cantileverInverse (freeStiffness spanNodes [cantileverMember] cantileverSupports) =
     Some [[1 / 200000000, 0, 0], [0, 1 / 60000, 1 / 400000], [0, 1 / 400000, 1 / 2000000]]"
  by (simp add: cantilever_freeStiffness cantileverInverse_def)

lemma cantilever_applied:
  "(\<Sum>l\<leftarrow>cantileverLoads. appliedLoadFy spanNodes [cantileverMember] l) = - 10"
  by (simp add: appliedLoadFy_def cantileverLoads_def cantileverMember_def spanNodes_def
        findMember_def findNode_def memberLength_def)

lemma cantilever_unsupported:
  assumes "i < length spanNodes"
    and "node_id (spanNodes ! i) \<notin> support_nodeId ` set cantileverSupports"
  shows "i = 1"
proof -
  from assms(1) have "i = 0 \<or> i = 1"
    by (auto simp: spanNodes_def)
  with assms(2) show ?thesis
    by (auto simp: spanNodes_def cantileverSupports_def)
qed

subsection \<open>The span without a vertical restraint at its end\<close>

lemma hinged_valid: "validMember spanNodes hingedMember"
  by (simp add: validMember_def spanNodes_def hingedMember_def findNode_def memberLength_def)

lemma hinged_dofs: "memberDofs spanNodes hingedMember = [0, 1, 2, 3, 4, 5]"
  by (simp add: memberDofs_def spanNodes_def hingedMember_def findNode_def
        dofIndices_def initializeDOF_def)

lemma hinged_stiffness:
  "memberStiffness spanNodes hingedMember =
     [[200000000, 0, 0, - 200000000, 0, 0],
      [0, 0, 0, 0, 0, 0],
      [0, 0, 0, 0, 0, 0],
      [- 200000000, 0, 0, 200000000, 0, 0],
      [0, 0, 0, 0, 0, 0],
      [0, 0, 0, 0, 0, 0]]"
  by (simp add: memberStiffness_def spanNodes_def hingedMember_def findNode_def
        getMemberGlobalStiffnessMatrix_def rotationMatrix_def k_local_vals_def multiply_def
        dot_def Let_def)

lemma hinged_free:
  "finalFreeDOFs (initializeDOF spanNodes) (totalDOF spanNodes) hingedSupports = [2, 3, 4, 5]"
  by (simp add: spanNodes_def hingedSupports_def finalFreeDOFs_def constrainedDOFs_def
        supportDOFs_def initializeDOF_def totalDOF_def upt_6 Let_def)

lemma hinged_assembled:
  "assembledStiffness spanNodes [hingedMember] rc =
     (\<Sum>(i, j)\<leftarrow>List.product [0..<6] [0..<6].
         if ([0, 1, 2, 3, 4, 5] ! i, [0, 1, 2, 3, 4, 5] ! j) = rc
         then memberStiffness spanNodes hingedMember ! i ! j else 0)"
  using assembledStiffness_closed [of spanNodes "[hingedMember]" rc]
  by (simp add: hinged_valid hinged_dofs)

lemma hinged_entries:
  "assembledStiffness spanNodes [hingedMember] (2, 2) = 0"
  "assembledStiffness spanNodes [hingedMember] (2, 3) = 0"
  "assembledStiffness spanNodes [hingedMember] (2, 4) = 0"
  "assembledStiffness spanNodes [hingedMember] (2, 5) = 0"
  "assembledStiffness spanNodes [hingedMember] (3, 2) = 0"
  "assembledStiffness spanNodes [hingedMember] (3, 3) = 200000000"
  "assembledStiffness spanNodes [hingedMember] (3, 4) = 0"
  "assembledStiffness spanNodes [hingedMember] (3, 5) = 0"
  "assembledStiffness spanNodes [hingedMember] (4, 2) = 0"
  "assembledStiffness spanNodes [hingedMember] (4, 3) = 0"
  "assembledStiffness spanNodes [hingedMember] (4, 4) = 0"
  "assembledStiffness spanNodes [hingedMember] (4, 5) = 0"
  "assembledStiffness spanNodes [hingedMember] (5, 2) = 0"
  "assembledStiffness spanNodes [hingedMember] (5, 3) = 0"
  "assembledStiffness spanNodes [hingedMember] (5, 4) = 0"
  "assembledStiffness spanNodes [hingedMember] (5, 5) = 0"
  unfolding hinged_assembled product_6
  by (simp_all add: hinged_stiffness)

lemma hinged_vertical_row:
  "assembledStiffness spanNodes [hingedMember] (1, 0) = 0"
  "assembledStiffness spanNodes [hingedMember] (1, 1) = 0"
  "assembledStiffness spanNodes [hingedMember] (1, 2) = 0"
  "assembledStiffness spanNodes [hingedMember] (1, 3) = 0"
  "assembledStiffness spanNodes [hingedMember] (1, 4) = 0"
  "assembledStiffness spanNodes [hingedMember] (1, 5) = 0"
  unfolding hinged_assembled product_6
  by (simp_all add: hinged_stiffness)

lemma hinged_freeStiffness:
  "freeStiffness spanNodes [hingedMember] hingedSupports =
     [[1, 0, 0, 0], [0, 200000000, 0, 0], [0, 0, 1, 0], [0, 0, 0, 1]]"
  unfolding freeStiffness_def hinged_free
  unfolding subsetMatrix_def list.map stabilize_closed span_total hinged_entries
  by simp

lemma hinged_inverse:
  "inverseOf [[1, 0, 0, 0], [0, 200000000, 0, 0], [0, 0, 1, 0], [0, 0, 0, 1]]
     [[1, 0, 0, 0], [0, 1 / 200000000, 0, 0], [0, 0, 1, 0], [0, 0, 0, 1]]"
  by (simp add: inverseOf_def multiply_def dot_def identityMatrix_def upt_rec [of 0 4]
        upt_rec [of 1 4] upt_rec [of 2 4] upt_rec [of 3 4])

lemma hinged_resolved: "list_all (resolvedLoad [hingedMember]) hingedLoads"
  by (simp add: resolvedLoad_def findMember_def hingedLoads_def hingedMember_def)

lemma hinged_inverts:
  "hingedInverse (freeStiffness spanNodes [hingedMember] hingedSupports) =
     Some [[1, 0, 0, 0], [0, 1 / 200000000, 0, 0], [0, 0, 1, 0], [0, 0, 0, 1]]"
  by (simp add: hinged_freeStiffness hingedInverse_def)

lemma hinged_applied:
  "(\<Sum>l\<leftarrow>hingedLoads. appliedLoadFy spanNodes [hingedMember] l) = - 10"
  by (simp add: appliedLoadFy_def hingedLoads_def hingedMember_def spanNodes_def
        findMember_def findNode_def memberLength_def)

lemma hinged_load_forces:
  "memberLoadForces spanNodes hingedMember
     \<lparr>load_id = ''l1'', memberId = ''m1'', load_type = Point, magnitude = - 10, position = 5\<rparr> =
   [0, 5, 0, 0, 5, 0]"
  by (simp add: memberLoadForces_def getGlobalFixedEndForces_def calculateLocalFixedEndForces_def
        spanNodes_def hingedMember_def findNode_def atan2_def rotationMatrix_def multiplyVec_def
        dot_def Let_def)

lemma hinged_id: "member_id hingedMember = ''m1''"
  by (simp add: hingedMember_def)


section \<open>Global vertical equilibrium\<close>

text \<open>
  Claim C1 (amended). For every input with at least one node and with unique node and member
  identities on which \<^verbatim>\<open>solve\<close> returns a result, if the inversion routine returns a true inverse
  of the free stiffness matrix and no unsupported node has a vertical degree of freedom whose
  assembled diagonal stiffness is below \<open>10\<^sup>-\<^sup>9\<close> (so that none is given the dummy stiffness 1),
  then the sum over the supported nodes of the reported reaction's vertical component \<open>Fy\<close>
  equals the negated sum of the vertical components \<open>P dx / L\<close> of the point loads, in exact
  arithmetic. The magnitude \<open>P\<close> of a load acts along the local transverse axis of its member,
  hence the factor \<open>dx / L\<close>.
\<close>

theorem vertical_equilibrium:
  assumes ne: "nodes \<noteq> []"
    and dn: "distinct (map node_id nodes)"
    and dm: "distinct (map member_id members)"
    and res: "solve mathInv nodes members supports loads = Inr res"
    and inv: "\<And>Mi. mathInv (freeStiffness nodes members supports) = Some Mi \<Longrightarrow>
                   inverseOf (freeStiffness nodes members supports) Mi"
    and stiff: "\<And>i. i < length nodes \<Longrightarrow>
                   node_id (nodes ! i) \<notin> support_nodeId ` set supports \<Longrightarrow>
                   \<not> \<bar>assembledStiffness nodes members (i * 3 + 1, i * 3 + 1)\<bar> < 1 / 10 ^ 9"
  shows "reportedVerticalReaction (solve mathInv nodes members supports loads) =
           Some (- (\<Sum>l\<leftarrow>loads. appliedLoadFy nodes members l))"
proof -
  let ?N = "length nodes"
  let ?S = "support_nodeId ` set supports"
  let ?K = "assembledStiffness nodes members"
  let ?free = "finalFreeDOFs (initializeDOF nodes) (totalDOF nodes) supports"
  define I where "I = {i. i < ?N \<and> node_id (nodes ! i) \<in> ?S}"
  from solve_Inr_wellformed [OF res ne]
  have wf: "list_all (validMember nodes) members" and rl: "list_all (resolvedLoad members) loads"
    by simp_all
  from solve_system [OF res ne inv] obtain d F where
    F: "assembleF nodes members (initializeDOF nodes) loads = Inr F"
    and cr: "calculateResults nodes members supports loads (initializeDOF nodes) d = Inr res"
    and sys: "\<forall>r\<in>set ?free.
                (\<Sum>c<totalDOF nodes. stabilize (totalDOF nodes) ?K (r, c) * d c) = F r"
    by blast
  define Ry where "Ry i = (\<Sum>m\<leftarrow>members. \<Sum>a<6.
                     if memberDofs nodes m ! a = i * 3 + 1
                     then memberEndForces nodes loads d m ! a else 0)" for i
  define tbl where "tbl = (\<lambda>k. if k \<in> ?S \<and> findNode nodes k \<noteq> None
                     then reactionOf nodes members loads d k else None)"
  have tbl: "reactions res = Some tbl"
    unfolding tbl_def by (rule calculateResults_reactions [OF wf cr])
  have node: "\<exists>r. reactionOf nodes members loads d (node_id (nodes ! i)) = Some r \<and> Fy r = Ry i"
    if "i < ?N" for i
    unfolding Ry_def by (rule node_reaction_vertical [OF wf dn that])
  have entry: "(case tbl (node_id (nodes ! i)) of Some r \<Rightarrow> Fy r | None \<Rightarrow> 0) = Ry i"
    if "i \<in> I" for i
  proof -
    from that have i: "i < ?N" "node_id (nodes ! i) \<in> ?S" by (simp_all add: I_def)
    from node [OF i(1)] obtain r where
      "reactionOf nodes members loads d (node_id (nodes ! i)) = Some r" "Fy r = Ry i" by blast
    moreover have "findNode nodes (node_id (nodes ! i)) \<noteq> None"
      using i(1) findNode_found_iff by blast
    ultimately show ?thesis
      using i(2) by (simp add: tbl_def)
  qed
  have dom: "dom tbl = (\<lambda>i. node_id (nodes ! i)) ` I"
  proof (intro set_eqI iffI)
    fix k assume "k \<in> dom tbl"
    then have k: "k \<in> ?S" "findNode nodes k \<noteq> None"
      by (auto simp: tbl_def dom_def split: if_splits)
    then obtain i where "i < ?N" "node_id (nodes ! i) = k"
      unfolding findNode_found_iff by blast
    with k(1) have "i \<in> I" by (simp add: I_def)
    with \<open>node_id (nodes ! i) = k\<close> show "k \<in> (\<lambda>i. node_id (nodes ! i)) ` I"
      by blast
  next
    fix k assume "k \<in> (\<lambda>i. node_id (nodes ! i)) ` I"
    then obtain i where i: "i \<in> I" "k = node_id (nodes ! i)" by auto
    then have "i < ?N" "k \<in> ?S" by (simp_all add: I_def)
    moreover have "findNode nodes k \<noteq> None"
      using i(2) \<open>i < ?N\<close> findNode_found_iff by blast
    moreover from node [OF \<open>i < ?N\<close>] have "reactionOf nodes members loads d k \<noteq> None"
      using i(2) by auto
    ultimately show "k \<in> dom tbl"
      by (auto simp: tbl_def dom_def)
  qed
  have inj: "inj_on (\<lambda>i. node_id (nodes ! i)) I"
    using node_index_unique [OF dn] by (auto simp: inj_on_def I_def)
  have "reactionSumFy tbl = (\<Sum>i\<in>I. case tbl (node_id (nodes ! i)) of Some r \<Rightarrow> Fy r | None \<Rightarrow> 0)"
    unfolding reactionSumFy_def dom by (simp add: sum.reindex [OF inj])
  also have "\<dots> = (\<Sum>i\<in>I. Ry i)"
    by (rule sum.cong [OF refl]) (rule entry)
  also have "\<dots> = (\<Sum>i<?N. Ry i)"
  proof (rule sum.mono_neutral_left)
    show "I \<subseteq> {..<?N}" by (auto simp: I_def)
    show "\<forall>i\<in>{..<?N} - I. Ry i = 0"
    proof
      fix i assume "i \<in> {..<?N} - I"
      then have i: "i < ?N" "node_id (nodes ! i) \<notin> ?S" by (auto simp: I_def)
      let ?r = "i * 3 + 1"
      have free: "?r \<in> set ?free"
        by (rule unsupported_vertical_free [OF i])
      have same: "stabilize (totalDOF nodes) ?K (?r, c) = ?K (?r, c)" for c
        using stiff [OF i] by (auto simp: stabilize_closed)
      from sys free
      have "(\<Sum>c<totalDOF nodes. stabilize (totalDOF nodes) ?K (?r, c) * d c) = F ?r"
        by blast
      then have "(\<Sum>c<totalDOF nodes. ?K (?r, c) * d c) = F ?r"
        unfolding same .
      then show "Ry i = 0"
        unfolding Ry_def dof_balance [OF wf rl dm F] by simp
    qed
  qed simp
  also have "\<dots> = - (\<Sum>l\<leftarrow>loads. appliedLoadFy nodes members l)"
    unfolding Ry_def by (rule total_vertical_forces [OF wf rl dm])
  finally have "reactionSumFy tbl = - (\<Sum>l\<leftarrow>loads. appliedLoadFy nodes members l)" .
  then show ?thesis
    by (simp add: reportedVerticalReaction_def res tbl)
qed

text \<open>
  The cantilever of \<^verbatim>\<open>src/debug-cantilever.ts\<close>: the clamped node reports \<open>Fy = 10\<close> for the
  load of \<open>-10\<close> at the free end.
\<close>

theorem vertical_equilibrium_witness:
  "reportedVerticalReaction
     (solve cantileverInverse spanNodes [cantileverMember] cantileverSupports cantileverLoads) =
   Some 10"
proof -
  have wf: "list_all (validMember spanNodes) [cantileverMember]"
    by (simp add: cantilever_valid)
  have "\<exists>res. solve cantileverInverse spanNodes [cantileverMember] cantileverSupports
                cantileverLoads = Inr res"
    using wf cantilever_resolved cantilever_inverts
    by (intro solve_succeeds) (simp_all add: spanNodes_def)
  then obtain res where res:
    "solve cantileverInverse spanNodes [cantileverMember] cantileverSupports cantileverLoads =
       Inr res" ..
  have "reportedVerticalReaction
          (solve cantileverInverse spanNodes [cantileverMember] cantileverSupports
             cantileverLoads) =
        Some (- (\<Sum>l\<leftarrow>cantileverLoads. appliedLoadFy spanNodes [cantileverMember] l))"
  proof (rule vertical_equilibrium [where res = res])
    show "spanNodes \<noteq> []" "distinct (map node_id spanNodes)"
      by (simp_all add: spanNodes_def)
    show "distinct (map member_id [cantileverMember])"
      by simp
    show "solve cantileverInverse spanNodes [cantileverMember] cantileverSupports
            cantileverLoads = Inr res"
      by (fact res)
    show "inverseOf (freeStiffness spanNodes [cantileverMember] cantileverSupports) Mi"
      if "cantileverInverse (freeStiffness spanNodes [cantileverMember] cantileverSupports) =
            Some Mi" for Mi
    proof -
      from that have "Mi = [[1 / 200000000, 0, 0], [0, 1 / 60000, 1 / 400000],
                            [0, 1 / 400000, 1 / 2000000]]"
        by (simp add: cantilever_inverts)
      then show ?thesis
        by (simp add: cantilever_freeStiffness cantilever_inverse)
    qed
    show "\<not> \<bar>assembledStiffness spanNodes [cantileverMember] (i * 3 + 1, i * 3 + 1)\<bar> < 1 / 10 ^ 9"
      if "i < length spanNodes"
        and "node_id (spanNodes ! i) \<notin> support_nodeId ` set cantileverSupports" for i
      using cantilever_unsupported [OF that] by (simp add: cantilever_entries)
  qed
  then show ?thesis
    by (simp add: cantilever_applied)
qed

text \<open>
  Without the condition on the unsupported nodes the equality fails. On the span with both
  member ends released and a pin at \<^verbatim>\<open>n1\<close> only, the vertical degree of freedom of \<^verbatim>\<open>n2\<close> has no
  stiffness and is given the dummy stiffness 1; the inversion routine returns the true
  inverse, \<^verbatim>\<open>solve\<close> returns a result, and the only support reports \<open>Fy = 5\<close> for a load of
  \<open>-10\<close>.
\<close>

theorem unrestrained_node_counterexample:
  "inverseOf (freeStiffness spanNodes [hingedMember] hingedSupports)
     [[1, 0, 0, 0], [0, 1 / 200000000, 0, 0], [0, 0, 1, 0], [0, 0, 0, 1]] \<and>
   reportedVerticalReaction
     (solve hingedInverse spanNodes [hingedMember] hingedSupports hingedLoads) = Some 5 \<and>
   - (\<Sum>l\<leftarrow>hingedLoads. appliedLoadFy spanNodes [hingedMember] l) = 10"
proof -
  let ?K = "freeStiffness spanNodes [hingedMember] hingedSupports"
  have wf: "list_all (validMember spanNodes) [hingedMember]"
    by (simp add: hinged_valid)
  have ne: "spanNodes \<noteq> []" and dn: "distinct (map node_id spanNodes)"
    by (simp_all add: spanNodes_def)
  have dm: "distinct (map member_id [hingedMember])"
    by simp
  have inv: "inverseOf ?K [[1, 0, 0, 0], [0, 1 / 200000000, 0, 0], [0, 0, 1, 0], [0, 0, 0, 1]]"
    by (simp add: hinged_freeStiffness hinged_inverse)
  have "\<exists>res. solve hingedInverse spanNodes [hingedMember] hingedSupports hingedLoads = Inr res"
    using wf hinged_resolved hinged_inverts
    by (intro solve_succeeds) (simp_all add: spanNodes_def)
  then obtain res where res:
    "solve hingedInverse spanNodes [hingedMember] hingedSupports hingedLoads = Inr res" ..
  have "inverseOf ?K Mi" if "hingedInverse ?K = Some Mi" for Mi
    using that inv by (simp add: hinged_inverts)
  with res ne obtain d F
    where F: "assembleF spanNodes [hingedMember] (initializeDOF spanNodes) hingedLoads = Inr F"
      and cr: "calculateResults spanNodes [hingedMember] hingedSupports hingedLoads
                 (initializeDOF spanNodes) d = Inr res"
    using solve_system [where mathInv = hingedInverse and nodes = spanNodes
        and members = "[hingedMember]" and supports = hingedSupports and loads = hingedLoads
        and res = res]
    by blast
  have "F = (\<lambda>r. - (\<Sum>l\<leftarrow>hingedLoads. \<Sum>m\<leftarrow>loadMembers [hingedMember] l. \<Sum>i\<leftarrow>[0..<6].
                        if memberDofs spanNodes m ! i = r
                        then memberLoadForces spanNodes m l ! i else 0))"
    using F assembleF_closed [OF wf hinged_resolved] by simp
  then have "F 1 = - (\<Sum>l\<leftarrow>hingedLoads. \<Sum>m\<leftarrow>loadMembers [hingedMember] l. \<Sum>i\<leftarrow>[0..<6].
                        if memberDofs spanNodes m ! i = 1
                        then memberLoadForces spanNodes m l ! i else 0)"
    by simp
  also have "\<dots> = - 5"
    unfolding hingedLoads_def
    by (simp add: loadMembers_def findMember_def hinged_id hinged_dofs hinged_load_forces upt_6)
  finally have F1: "F 1 = - 5" .
  obtain r where r: "reactionOf spanNodes [hingedMember] hingedLoads d ''n1'' = Some r"
    and Fy: "Fy r = (\<Sum>m\<leftarrow>[hingedMember]. \<Sum>a<6.
                       if memberDofs spanNodes m ! a = 0 * 3 + 1
                       then memberEndForces spanNodes hingedLoads d m ! a else 0)"
    using node_reaction_vertical [OF wf dn, of 0 hingedLoads d]
    by (auto simp: spanNodes_def)
  have "Fy r = (\<Sum>c<totalDOF spanNodes. assembledStiffness spanNodes [hingedMember] (1, c) * d c)
                 - F 1"
    using dof_balance [OF wf hinged_resolved dm F, of 1 d] Fy by simp
  then have Fy5: "Fy r = 5"
    unfolding span_total sum_lessThan_6 hinged_vertical_row F1 by simp
  have found: "findNode spanNodes ''n1'' \<noteq> None"
    by (simp add: findNode_def spanNodes_def)
  have "reactions res = Some [''n1'' \<mapsto> r]"
    unfolding calculateResults_reactions [OF wf cr]
    by (auto simp: fun_eq_iff hingedSupports_def r found)
  then have "reportedVerticalReaction
               (solve hingedInverse spanNodes [hingedMember] hingedSupports hingedLoads) =
             Some 5"
    by (simp add: res reportedVerticalReaction_def reactionSumFy_def Fy5)
  with inv show ?thesis
    by (simp add: hinged_applied)
qed


section \<open>Element stiffness\<close>

text \<open>
  Claim C2. For a member of non-zero length \<open>L\<close> the local stiffness matrix built by the
  formulator is the reference matrix of its release state, and the global contribution is
  \<open>T\<^sup>t K T\<close> for the rotation matrix \<open>T\<close> of \<open>c = dx / L\<close> and \<open>s = dy / L\<close>.
\<close>

theorem local_stiffness_reference:
  assumes "memberLength sn en \<noteq> 0"
  shows "(let L = memberLength sn en;
              c = (node_x en - node_x sn) / L;
              s = (node_y en - node_y sn) / L;
              T = rotationMatrix c s;
              K_ref = referenceLocalStiffness (startRelease member) (endRelease member)
                        (prop_E (properties member)) (prop_I (properties member))
                        (prop_A (properties member)) L
          in k_local_vals member L = K_ref \<and>
             getMemberGlobalStiffnessMatrix member (Some sn) (Some en) =
               Inr (multiply (multiply (transpose T) K_ref) T))"
  using assms
  by (simp add: Let_def k_local_vals_reference [symmetric] getMemberGlobalStiffnessMatrix_def
        memberLength_def)

theorem local_stiffness_reference_witness:
  "memberLength \<lparr>node_id = ''n1'', node_x = 0, node_y = 0\<rparr>
     \<lparr>node_id = ''n2'', node_x = 3, node_y = 4\<rparr> \<noteq> 0 \<and>
   getMemberGlobalStiffnessMatrix
     \<lparr>member_id = ''m1'', startNodeId = ''n1'', endNodeId = ''n2'', startRelease = Pinned,
      endRelease = FixedRelease, properties = \<lparr>prop_E = 125, prop_I = 1, prop_A = 1\<rparr>\<rparr>
     (Some \<lparr>node_id = ''n1'', node_x = 0, node_y = 0\<rparr>)
     (Some \<lparr>node_id = ''n2'', node_x = 3, node_y = 4\<rparr>) =
   Inr [[273 / 25, 264 / 25, 0, - (273 / 25), - (264 / 25), - 12],
        [264 / 25, 427 / 25, 0, - (264 / 25), - (427 / 25), 9],
        [0, 0, 0, 0, 0, 0],
        [- (273 / 25), - (264 / 25), 0, 273 / 25, 264 / 25, 12],
        [- (264 / 25), - (427 / 25), 0, 264 / 25, 427 / 25, - 9],
        [- 12, 9, 0, 12, - 9, 75]]"
  using local_stiffness_reference
    [of "\<lparr>node_id = ''n1'', node_x = 0, node_y = 0\<rparr>"
        "\<lparr>node_id = ''n2'', node_x = 3, node_y = 4\<rparr>"
        "\<lparr>member_id = ''m1'', startNodeId = ''n1'', endNodeId = ''n2'', startRelease = Pinned,
          endRelease = FixedRelease, properties = \<lparr>prop_E = 125, prop_I = 1, prop_A = 1\<rparr>\<rparr>"]
  by (simp add: memberLength_def sqrt_25 Let_def referenceLocalStiffness_def
        beamColumnPattern_def zeroRowColumn_def upt_6 rotationMatrix_def multiply_def dot_def)


section \<open>Fixed-end forces\<close>

text \<open>
  Claim C3. For a point load on a member of non-zero length whose member and nodes resolve,
  the local fixed-end force vector is the reference vector of the release state (the
  classical formulas with \<open>b = L - a\<close> when both ends are fixed, the simple-beam reactions
  when both are pinned, and for one pinned end the released moment zeroed, half of it
  carried over and a shear correction of \<open>1.5 M_rel / L\<close> of opposite signs). The global
  vector is this one rotated by the transpose of the member's rotation matrix, and the
  load step subtracts it from the load vector at the member's six distinct indices,
  leaving every other entry as it was.
\<close>

theorem fixed_end_forces_reference:
  assumes "findMember members (memberId load) = Some member"
    and "findNode nodes (startNodeId member) = Some sn"
    and "findNode nodes (endNodeId member) = Some en"
    and "memberLength sn en \<noteq> 0"
  shows "(let L = memberLength sn en;
              c = (node_x en - node_x sn) / L;
              s = (node_y en - node_y sn) / L;
              f_local = referenceFixedEndForces (startRelease member) (endRelease member)
                          (magnitude load) (position load) L;
              fef = multiplyVec (transpose (rotationMatrix c s)) f_local
          in calculateLocalFixedEndForces member load (Some sn) (Some en) = Inr f_local \<and>
             getGlobalFixedEndForces member load (Some sn) (Some en) = Inr fef \<and>
             (\<exists>idx F'. those (dofIndices (initializeDOF nodes) sn en) = Some idx \<and>
                   distinct idx \<and> length idx = 6 \<and>
                   assembleLoad nodes members (initializeDOF nodes) load F = Inr F' \<and>
                   (\<forall>i<6. F' (idx ! i) = F (idx ! i) - fef ! i) \<and>
                   (\<forall>r. r \<notin> set idx \<longrightarrow> F' r = F r)))"
  using assms assembleLoad_subtracts [OF assms, of F]
  by (simp add: Let_def calculateLocalFixedEndForces_reference getGlobalFixedEndForces_rotation)

theorem fixed_end_forces_reference_witness:
  "findMember
     [\<lparr>member_id = ''m1'', startNodeId = ''n1'', endNodeId = ''n2'', startRelease = FixedRelease,
       endRelease = Pinned, properties = \<lparr>prop_E = 1, prop_I = 1, prop_A = 1\<rparr>\<rparr>] ''m1'' =
     Some \<lparr>member_id = ''m1'', startNodeId = ''n1'', endNodeId = ''n2'',
           startRelease = FixedRelease, endRelease = Pinned,
           properties = \<lparr>prop_E = 1, prop_I = 1, prop_A = 1\<rparr>\<rparr> \<and>
   memberLength \<lparr>node_id = ''n1'', node_x = 0, node_y = 0\<rparr>
     \<lparr>node_id = ''n2'', node_x = 3, node_y = 4\<rparr> \<noteq> 0 \<and>
   getGlobalFixedEndForces
     \<lparr>member_id = ''m1'', startNodeId = ''n1'', endNodeId = ''n2'', startRelease = FixedRelease,
      endRelease = Pinned, properties = \<lparr>prop_E = 1, prop_I = 1, prop_A = 1\<rparr>\<rparr>
     \<lparr>load_id = ''l1'', memberId = ''m1'', load_type = Point, magnitude = - 10, position = 2\<rparr>
     (Some \<lparr>node_id = ''n1'', node_x = 0, node_y = 0\<rparr>)
     (Some \<lparr>node_id = ''n2'', node_x = 3, node_y = 4\<rparr>) =
   Inr [- (792 / 125), 594 / 125, 48 / 5, - (208 / 125), 156 / 125, 0]"
  using fixed_end_forces_reference
    [of "[\<lparr>member_id = ''m1'', startNodeId = ''n1'', endNodeId = ''n2'',
            startRelease = FixedRelease, endRelease = Pinned,
            properties = \<lparr>prop_E = 1, prop_I = 1, prop_A = 1\<rparr>\<rparr>]"
        "\<lparr>load_id = ''l1'', memberId = ''m1'', load_type = Point, magnitude = - 10, position = 2\<rparr>"
        "\<lparr>member_id = ''m1'', startNodeId = ''n1'', endNodeId = ''n2'',
          startRelease = FixedRelease, endRelease = Pinned,
          properties = \<lparr>prop_E = 1, prop_I = 1, prop_A = 1\<rparr>\<rparr>"
        "[\<lparr>node_id = ''n1'', node_x = 0, node_y = 0\<rparr>, \<lparr>node_id = ''n2'', node_x = 3, node_y = 4\<rparr>]"
        "\<lparr>node_id = ''n1'', node_x = 0, node_y = 0\<rparr>"
        "\<lparr>node_id = ''n2'', node_x = 3, node_y = 4\<rparr>"]
  by (simp add: findMember_def findNode_def memberLength_def sqrt_25 Let_def
        referenceFixedEndForces_def rotationMatrix_def multiplyVec_def dot_def)


section \<open>Configuration faults\<close>

text \<open>
  Claim C4 (amended). For an input with at least one node: if some member references a
  node that does not resolve, or joins two nodes of identical position, \<open>solve\<close> aborts in
  the stiffness assembly with an \<^verbatim>\<open>Invalid member\<close> configuration fault and returns no
  result; if every member is well formed and some load references a member that does not
  resolve, \<open>solve\<close> aborts in the load assembly with a \<open>TypeError\<close> and returns no result.
  A support whose node does not resolve does not abort anything: \<open>solve\<close> returns what it
  returns without that support.
\<close>

theorem configuration_faults:
  assumes "nodes \<noteq> []"
  shows "(\<not> list_all (validMember nodes) members \<longrightarrow>
            (\<exists>e. solve mathInv nodes members supports loads = Inl e \<and> configurationFault e)) \<and>
         (list_all (validMember nodes) members \<and> \<not> list_all (resolvedLoad members) loads \<longrightarrow>
            solve mathInv nodes members supports loads = Inl TypeError) \<and>
         solve mathInv nodes members supports loads =
           solve mathInv nodes members (filter (resolvedSupport nodes) supports) loads"
  using assms solve_invalid_member [of nodes members mathInv supports loads]
    solve_unresolved_load [of nodes members loads mathInv supports]
    solve_resolved_supports [of mathInv nodes members supports loads]
  by simp

theorem configuration_faults_witness:
  "solve (\<lambda>M. None)
     [\<lparr>node_id = ''n1'', node_x = 0, node_y = 0\<rparr>, \<lparr>node_id = ''n2'', node_x = 0, node_y = 0\<rparr>]
     [\<lparr>member_id = ''m1'', startNodeId = ''n1'', endNodeId = ''n2'', startRelease = FixedRelease,
       endRelease = FixedRelease, properties = \<lparr>prop_E = 1, prop_I = 1, prop_A = 1\<rparr>\<rparr>]
     [] [] = Inl (Error ''Invalid member m1: Length is zero.'') \<and>
   configurationFault (Error ''Invalid member m1: Length is zero.'') \<and>
   solve (\<lambda>M. None) [\<lparr>node_id = ''n1'', node_x = 0, node_y = 0\<rparr>] []
     []
     [\<lparr>load_id = ''l1'', memberId = ''m9'', load_type = Point, magnitude = - 10, position = 1\<rparr>]
     = Inl TypeError"
  using configuration_faults
    [where nodes = "[\<lparr>node_id = ''n1'', node_x = 0, node_y = 0\<rparr>,
                     \<lparr>node_id = ''n2'', node_x = 0, node_y = 0\<rparr>]"
       and members = "[\<lparr>member_id = ''m1'', startNodeId = ''n1'', endNodeId = ''n2'',
           startRelease = FixedRelease, endRelease = FixedRelease,
           properties = \<lparr>prop_E = 1, prop_I = 1, prop_A = 1\<rparr>\<rparr>]"
       and supports = "[]" and loads = "[]" and mathInv = "\<lambda>M. None"]
    configuration_faults
    [where nodes = "[\<lparr>node_id = ''n1'', node_x = 0, node_y = 0\<rparr>]"
       and members = "[]" and supports = "[]"
       and loads = "[\<lparr>load_id = ''l1'', memberId = ''m9'', load_type = Point,
            magnitude = - 10, position = 1\<rparr>]"
       and mathInv = "\<lambda>M. None"]
  by (simp add: validMember_def resolvedLoad_def findMember_def findNode_def memberLength_def
        configurationFault_def solve_def assembleK_def assembleMemberStiffness_def
        getMemberGlobalStiffnessMatrix_def Let_def)

text \<open>
  A single node with a fixed support, and a pin support on a node id that no node has:
  \<open>solve\<close> returns a result, with a zero displacement and a zero reaction for the node.
\<close>

theorem missing_support_node_counterexample:
  "solve (\<lambda>M. None)
     [\<lparr>node_id = ''n1'', node_x = 0, node_y = 0\<rparr>] []
     [\<lparr>support_id = ''s1'', support_nodeId = ''n1'', support_type = FixedSupport,
       support_angle = 0\<rparr>,
      \<lparr>support_id = ''s2'', support_nodeId = ''ghost'', support_type = Pin, support_angle = 0\<rparr>]
     [] =
   Inr \<lparr>nodeDisplacements =
          [''n1'' \<mapsto> \<lparr>disp_dx = 0, disp_dy = 0, disp_rotation = 0\<rparr>],
        memberForces = Map.empty, diagrams = Map.empty,
        reactions = Some [''n1'' \<mapsto> \<lparr>Fx = 0, Fy = 0, Mz = 0\<rparr>]\<rparr>"
  by (simp add: solve_def assembleK_def assembleF_def finalFreeDOFs_def constrainedDOFs_def
        supportDOFs_def initializeDOF_def totalDOF_def upt_3 Let_def calculateResults_def
        reactionTable_def nodeReaction_def nodeDisplacementTable_def findNode_def)


section \<open>Degenerate input\<close>

text \<open>
  Claim C5 (as the code behaves). With no nodes \<open>solve\<close> raises nothing and returns at once,
  whatever the other collections and the inversion routine are: the displacement, member
  force and diagram tables are empty, and the returned object has no reaction table at all.
\<close>

theorem solve_zero_nodes:
  "solve mathInv [] members supports loads =
     Inr \<lparr>nodeDisplacements = Map.empty, memberForces = Map.empty, diagrams = Map.empty,
          reactions = None\<rparr>"
  by (simp add: solve_def)

section \<open>Shear and moment diagrams\<close>




section \<open>Initial slope of the deflection diagram\<close>

text \<open>
  Claim C7. Let the member have non-zero length \<open>L\<close> and non-zero \<open>E I\<close>. The point
  \<open>x = L\<close> is an evaluation point, and the displacement diagram is the deflection formula
  with the initial slope \<open>theta_start\<close>. When the start release is pinned, the deflection
  at \<open>x = L\<close> is the local end translation \<open>v2\<close>, and \<open>theta_start\<close> is the only slope for
  which it is (the solution of that one linear equation). When the start release is fixed,
  \<open>theta_start\<close> is the solved local start rotation.
\<close>

theorem pinned_start_slope:
  assumes "L \<noteq> 0" and "prop_E (properties member) * prop_I (properties member) \<noteq> 0"
  shows "(let v1 = d_member_local ! 1;
              th1 = d_member_local ! 2;
              v2 = d_member_local ! 4;
              theta_start = thetaStart member dx dy L f_local d_member_local memberLoads;
              deflection = (\<lambda>slope x. snd (snd (diagramAt member dx dy f_local v1 slope memberLoads x)));
              dgm = memberDiagram member dx dy L f_local d_member_local memberLoads
          in L \<in> set (diagram_x dgm) \<and>
             displacement dgm = map (deflection theta_start) (diagram_x dgm) \<and>
             (startRelease member = Pinned \<longrightarrow>
                deflection theta_start L = v2 \<and>
                (\<forall>slope. deflection slope L = v2 \<longrightarrow> slope = theta_start)) \<and>
             (startRelease member = FixedRelease \<longrightarrow> theta_start = th1))"
  using assms
  by (auto simp: Let_def diagram_lists L_in_evaluationPoints diagramAt_closed thetaStart_pinned
        thetaStart_fixed field_simps)


theorem pinned_start_slope_witness:
  "(2::real) \<noteq> 0 \<and> (3::real) * 5 \<noteq> 0 \<and>
   snd (snd (diagramAt
     \<lparr>member_id = ''m1'', startNodeId = ''n1'', endNodeId = ''n2'', startRelease = Pinned,
      endRelease = FixedRelease, properties = \<lparr>prop_E = 3, prop_I = 5, prop_A = 1\<rparr>\<rparr>
     2 0 [0, 7, 0, 0, 3, - 4] 1
     (thetaStart
        \<lparr>member_id = ''m1'', startNodeId = ''n1'', endNodeId = ''n2'', startRelease = Pinned,
         endRelease = FixedRelease, properties = \<lparr>prop_E = 3, prop_I = 5, prop_A = 1\<rparr>\<rparr>
        2 0 2 [0, 7, 0, 0, 3, - 4] [0, 1, 9, 0, 6, 0]
        [\<lparr>load_id = ''l1'', memberId = ''m1'', load_type = Point, magnitude = - 10,
          position = 1\<rparr>])
     [\<lparr>load_id = ''l1'', memberId = ''m1'', load_type = Point, magnitude = - 10, position = 1\<rparr>]
     2)) = 6 \<and>
   thetaStart
     \<lparr>member_id = ''m1'', startNodeId = ''n1'', endNodeId = ''n2'', startRelease = Pinned,
      endRelease = FixedRelease, properties = \<lparr>prop_E = 3, prop_I = 5, prop_A = 1\<rparr>\<rparr>
     2 0 2 [0, 7, 0, 0, 3, - 4] [0, 1, 9, 0, 6, 0]
     [\<lparr>load_id = ''l1'', memberId = ''m1'', load_type = Point, magnitude = - 10, position = 1\<rparr>]
   = 101 / 45"
  using pinned_start_slope
    [where L = 2 and dx = 2 and dy = 0 and f_local = "[0, 7, 0, 0, 3, - 4]"
       and d_member_local = "[0, 1, 9, 0, 6, 0]"
       and member = "\<lparr>member_id = ''m1'', startNodeId = ''n1'', endNodeId = ''n2'',
             startRelease = Pinned, endRelease = FixedRelease,
             properties = \<lparr>prop_E = 3, prop_I = 5, prop_A = 1\<rparr>\<rparr>"
       and memberLoads = "[\<lparr>load_id = ''l1'', memberId = ''m1'', load_type = Point,
             magnitude = - 10, position = 1\<rparr>]"]
  by (simp add: Let_def) (simp add: thetaStart_def Let_def atan2_def)


section \<open>Boundary conditions\<close>

text \<open>
  Claim C8. For a support of the input whose node resolves, to the node of index \<open>i\<close>, the
  degrees of freedom it constrains depend on its type alone: a pin constrains the two
  translations \<open>3i\<close> and \<open>3i + 1\<close>, a fixed support all three unknowns, a roller the
  vertical translation \<open>3i + 1\<close> only, whatever the angle of the support. The free set is
  made of the indices below the total that no support constrains, and in every result of
  \<open>solve\<close> the displacements that the support constrains are zero.
\<close>

theorem support_boundary_conditions:
  assumes "support \<in> set supports" and "findNode nodes (support_nodeId support) = Some node"
  shows "\<exists>i<length nodes. node_id (nodes ! i) = support_nodeId support \<and>
     supportDOFs (initializeDOF nodes) support =
       (case support_type support of
          Pin \<Rightarrow> [Some (i * 3), Some (i * 3 + 1)]
        | FixedSupport \<Rightarrow> [Some (i * 3), Some (i * 3 + 1), Some (i * 3 + 2)]
        | Roller \<Rightarrow> [Some (i * 3 + 1)]) \<and>
     (\<forall>angle. supportDOFs (initializeDOF nodes) (support\<lparr>support_angle := angle\<rparr>) =
               supportDOFs (initializeDOF nodes) support) \<and>
     set (finalFreeDOFs (initializeDOF nodes) (totalDOF nodes) supports) =
       {dof. dof < totalDOF nodes \<and>
             Some dof \<notin> set (constrainedDOFs (initializeDOF nodes) supports)} \<and>
     (\<forall>res. solve mathInv nodes members supports loads = Inr res \<longrightarrow>
        (\<exists>disp. nodeDisplacements res (support_nodeId support) = Some disp \<and>
           (case support_type support of
              Pin \<Rightarrow> disp_dx disp = 0 \<and> disp_dy disp = 0
            | FixedSupport \<Rightarrow> disp_dx disp = 0 \<and> disp_dy disp = 0 \<and> disp_rotation disp = 0
            | Roller \<Rightarrow> disp_dy disp = 0)))"
proof -
  let ?k = "support_nodeId support"
  from initializeDOF_found [OF assms(2)] obtain i where i: "i < length nodes"
    "node_id (nodes ! i) = ?k"
    "initializeDOF nodes (?k @ ''-x'') = Some (i * 3)"
    "initializeDOF nodes (?k @ ''-y'') = Some (i * 3 + 1)"
    "initializeDOF nodes (?k @ ''-r'') = Some (i * 3 + 2)"
    by blast
  have dofs: "supportDOFs (initializeDOF nodes) support =
       (case support_type support of
          Pin \<Rightarrow> [Some (i * 3), Some (i * 3 + 1)]
        | FixedSupport \<Rightarrow> [Some (i * 3), Some (i * 3 + 1), Some (i * 3 + 2)]
        | Roller \<Rightarrow> [Some (i * 3 + 1)])"
    by (cases "support_type support") (simp_all add: supportDOFs_def Let_def i)
  have angle: "supportDOFs (initializeDOF nodes) (support\<lparr>support_angle := angle\<rparr>) =
               supportDOFs (initializeDOF nodes) support" for angle
    by (simp add: supportDOFs_def)
  have disp: "\<exists>disp. nodeDisplacements res ?k = Some disp \<and>
           (case support_type support of
              Pin \<Rightarrow> disp_dx disp = 0 \<and> disp_dy disp = 0
            | FixedSupport \<Rightarrow> disp_dx disp = 0 \<and> disp_dy disp = 0 \<and> disp_rotation disp = 0
            | Roller \<Rightarrow> disp_dy disp = 0)"
    if res: "solve mathInv nodes members supports loads = Inr res" for res
  proof -
    have "nodes \<noteq> []" using i(1) by auto
    from solve_displacements [OF res this] obtain d where
      d: "nodeDisplacements res = nodeDisplacementTable nodes d"
      "\<forall>r. r \<notin> set (finalFreeDOFs (initializeDOF nodes) (totalDOF nodes) supports) \<longrightarrow> d r = 0"
      by blast
    have tbl: "nodeDisplacementTable nodes d ?k =
        Some \<lparr>disp_dx = d (i * 3), disp_dy = d (i * 3 + 1), disp_rotation = d (i * 3 + 2)\<rparr>"
      using nodeDisplacementTable_lookup [where nodes = nodes and k = ?k and d = d] i(3) by simp
    have zero: "d r = 0" if "Some r \<in> set (supportDOFs (initializeDOF nodes) support)" for r
      using that d(2) supportDOFs_constrained [OF assms(1)]
      by (auto simp: finalFreeDOFs_set)
    show ?thesis
      unfolding d(1) tbl using zero dofs
      by (cases "support_type support") simp_all
  qed
  show ?thesis
    using i(1,2) dofs angle disp finalFreeDOFs_set by blast
qed

theorem support_boundary_conditions_witness:
  "supportDOFs
     (initializeDOF [\<lparr>node_id = ''n1'', node_x = 0, node_y = 0\<rparr>,
                     \<lparr>node_id = ''n2'', node_x = 3, node_y = 4\<rparr>])
     \<lparr>support_id = ''s2'', support_nodeId = ''n2'', support_type = Roller, support_angle = 90\<rparr>
     = [Some 4] \<and>
   finalFreeDOFs
     (initializeDOF [\<lparr>node_id = ''n1'', node_x = 0, node_y = 0\<rparr>,
                     \<lparr>node_id = ''n2'', node_x = 3, node_y = 4\<rparr>])
     (totalDOF [\<lparr>node_id = ''n1'', node_x = 0, node_y = 0\<rparr>,
                \<lparr>node_id = ''n2'', node_x = 3, node_y = 4\<rparr>])
     [\<lparr>support_id = ''s1'', support_nodeId = ''n1'', support_type = Pin, support_angle = 0\<rparr>,
      \<lparr>support_id = ''s2'', support_nodeId = ''n2'', support_type = Roller, support_angle = 90\<rparr>]
     = [2, 3, 5]"
  using support_boundary_conditions
    [where nodes = "[\<lparr>node_id = ''n1'', node_x = 0, node_y = 0\<rparr>,
                     \<lparr>node_id = ''n2'', node_x = 3, node_y = 4\<rparr>]"
       and supports = "[\<lparr>support_id = ''s1'', support_nodeId = ''n1'', support_type = Pin,
             support_angle = 0\<rparr>,
           \<lparr>support_id = ''s2'', support_nodeId = ''n2'', support_type = Roller,
             support_angle = 90\<rparr>]"
       and support = "\<lparr>support_id = ''s2'', support_nodeId = ''n2'', support_type = Roller,
             support_angle = 90\<rparr>"
       and node = "\<lparr>node_id = ''n2'', node_x = 3, node_y = 4\<rparr>"]
  by (simp add: findNode_def finalFreeDOFs_def constrainedDOFs_def supportDOFs_def
        initializeDOF_def totalDOF_def upt_6 Let_def)


section \<open>Singularity fault\<close>




section \<open>Load positions are not validated\<close>

text \<open>
  Claim C10. No hypothesis below restricts the position of a load. For a well-formed frame
  with at least one node whose free system is empty or inverted without a fault, \<open>solve\<close>
  returns a result whatever the positions are. A load of the frame, at any position \<open>a\<close>,
  contributes its fixed-end forces, computed from the closed-form formulas with
  \<open>b = L - a\<close>, to the global load vector at the six indices of its member, and its
  position belongs to the evaluation points of the member's diagram exactly when
  \<open>0 \<le> a \<le> L\<close>.
\<close>

theorem load_position_unchecked:
  assumes "nodes \<noteq> []" and "list_all (validMember nodes) members"
    and "list_all (resolvedLoad members) loads"
    and "finalFreeDOFs (initializeDOF nodes) (totalDOF nodes) supports = [] \<or>
         mathInv (freeStiffness nodes members supports) \<noteq> None"
    and "load \<in> set loads"
    and "findMember members (memberId load) = Some member"
    and "findNode nodes (startNodeId member) = Some sn"
    and "findNode nodes (endNodeId member) = Some en"
  shows "(let L = memberLength sn en;
              c = (node_x en - node_x sn) / L;
              s = (node_y en - node_y sn) / L;
              fef = multiplyVec (transpose (rotationMatrix c s))
                      (referenceFixedEndForces (startRelease member) (endRelease member)
                         (magnitude load) (position load) L)
          in (\<exists>res. solve mathInv nodes members supports loads = Inr res) \<and>
             (\<exists>idx F'. those (dofIndices (initializeDOF nodes) sn en) = Some idx \<and>
                assembleLoad nodes members (initializeDOF nodes) load F = Inr F' \<and>
                (\<forall>i<6. F' (idx ! i) = F (idx ! i) - fef ! i)) \<and>
             (position load
                \<in> set (evaluationPoints L (filter (\<lambda>l. memberId l = member_id member) loads))
              \<longleftrightarrow> 0 \<le> position load \<and> position load \<le> L))"
proof -
  have m: "member \<in> set members" "member_id member = memberId load"
    using findMember_Some [OF assms(6)] by simp_all
  then have "validMember nodes member"
    using assms(2) by (simp add: list_all_iff)
  then have L: "memberLength sn en \<noteq> 0"
    using assms(7,8) by (simp add: validMember_def)
  have L0: "0 \<le> memberLength sn en"
    by (simp add: memberLength_def Let_def)
  have mem: "load \<in> set (filter (\<lambda>l. memberId l = member_id member) loads)"
    using assms(5) m(2) by simp
  from assembleLoad_subtracts [OF assms(6,7,8) L, of F]
  have "\<exists>idx F'. those (dofIndices (initializeDOF nodes) sn en) = Some idx \<and>
          assembleLoad nodes members (initializeDOF nodes) load F = Inr F' \<and>
          (\<forall>i<6. F' (idx ! i) = F (idx ! i) -
              multiplyVec
                (transpose (rotationMatrix ((node_x en - node_x sn) / memberLength sn en)
                                           ((node_y en - node_y sn) / memberLength sn en)))
                (referenceFixedEndForces (startRelease member) (endRelease member)
                   (magnitude load) (position load) (memberLength sn en)) ! i)"
    by blast
  then show ?thesis
    using assms(1,2,3,4) solve_succeeds [of nodes members loads supports mathInv]
      position_in_evaluationPoints [OF L0 mem]
    by (simp add: Let_def)
qed

theorem load_position_unchecked_witness:
  "(\<exists>res. solve (\<lambda>M. None)
     [\<lparr>node_id = ''n1'', node_x = 0, node_y = 0\<rparr>, \<lparr>node_id = ''n2'', node_x = 3, node_y = 4\<rparr>]
     [\<lparr>member_id = ''m1'', startNodeId = ''n1'', endNodeId = ''n2'', startRelease = FixedRelease,
       endRelease = FixedRelease, properties = \<lparr>prop_E = 1, prop_I = 1, prop_A = 1\<rparr>\<rparr>]
     [\<lparr>support_id = ''s1'', support_nodeId = ''n1'', support_type = FixedSupport,
       support_angle = 0\<rparr>,
      \<lparr>support_id = ''s2'', support_nodeId = ''n2'', support_type = FixedSupport,
       support_angle = 0\<rparr>]
     [\<lparr>load_id = ''l1'', memberId = ''m1'', load_type = Point, magnitude = - 10, position = 7\<rparr>]
     = Inr res) \<and>
   (7::real) \<notin> set (evaluationPoints 5
     [\<lparr>load_id = ''l1'', memberId = ''m1'', load_type = Point, magnitude = - 10, position = 7\<rparr>])"
  using load_position_unchecked
    [where nodes = "[\<lparr>node_id = ''n1'', node_x = 0, node_y = 0\<rparr>,
                     \<lparr>node_id = ''n2'', node_x = 3, node_y = 4\<rparr>]"
       and members = "[\<lparr>member_id = ''m1'', startNodeId = ''n1'', endNodeId = ''n2'',
           startRelease = FixedRelease, endRelease = FixedRelease,
           properties = \<lparr>prop_E = 1, prop_I = 1, prop_A = 1\<rparr>\<rparr>]"
       and supports = "[\<lparr>support_id = ''s1'', support_nodeId = ''n1'', support_type = FixedSupport,
            support_angle = 0\<rparr>,
          \<lparr>support_id = ''s2'', support_nodeId = ''n2'', support_type = FixedSupport,
            support_angle = 0\<rparr>]"
       and loads = "[\<lparr>load_id = ''l1'', memberId = ''m1'', load_type = Point, magnitude = - 10,
            position = 7\<rparr>]"
       and load = "\<lparr>load_id = ''l1'', memberId = ''m1'', load_type = Point, magnitude = - 10,
            position = 7\<rparr>"
       and member = "\<lparr>member_id = ''m1'', startNodeId = ''n1'', endNodeId = ''n2'',
           startRelease = FixedRelease, endRelease = FixedRelease,
           properties = \<lparr>prop_E = 1, prop_I = 1, prop_A = 1\<rparr>\<rparr>"
       and sn = "\<lparr>node_id = ''n1'', node_x = 0, node_y = 0\<rparr>"
       and en = "\<lparr>node_id = ''n2'', node_x = 3, node_y = 4\<rparr>"
       and mathInv = "\<lambda>M. None"]
  by (simp add: validMember_def resolvedLoad_def findMember_def findNode_def memberLength_def
        sqrt_25 finalFreeDOFs_def constrainedDOFs_def supportDOFs_def initializeDOF_def
        totalDOF_def upt_6 Let_def)


end
